(* ===== verification/Prelude.thy ===== *)
theory Prelude
  imports Complex_Main "HOL-Library.Word"
begin

text \<open>
  Shared vocabulary of the development.

  \<^item> JavaScript strings are lists of 16-bit code units, as in ECMAScript; \<open>js\<close> turns a
    source literal of ASCII characters into one.
  \<^item> A thrown value is a \<open>js_error\<close>; a computation that may throw returns
    \<open>js_error + 'a\<close> with \<open>Inl\<close> for the throw.
  \<^item> An \<open>async\<close> function is a state transformer whose result may be a throw. The state
    stands for everything the awaited calls can read and change. \<open>await\<close>, \<open>ret\<close>,
    \<open>throw\<close> and \<open>try_catch\<close> are the corresponding statements of the source.
  \<^item> The collections \<open>async_simps\<close> and \<open>async_elims\<close> carry the proofs about such functions.
\<close>

named_theorems async_simps \<open>running one statement of an async function\<close>
named_theorems async_elims \<open>inversion of a completed async function\<close>

section \<open>Strings\<close>

type_synonym code_unit = "16 word"
type_synonym jsstring = "code_unit list"

definition js :: "string \<Rightarrow> jsstring" where
  "js s = map of_char s"

text \<open>The separator of object keys and the ellipsis of the status texts.\<close>

definition slash :: code_unit where
  "slash = 47"

definition ellipsis :: jsstring where
  "ellipsis = [0x2026]"

lemma of_char_16_eq_of_nat: "(of_char c :: 16 word) = of_nat (of_char c)"
  by (simp add: of_char_def)

lemma unat_of_char_16: "unat (of_char c :: 16 word) = of_char c"
proof -
  have "(of_char c :: nat) < 2 ^ 16"
    by (rule less_trans [OF nat_of_char_less_256]) simp
  then show ?thesis
    by (simp add: of_char_16_eq_of_nat unat_of_nat take_bit_nat_eq_self)
qed

lemma of_char_16_inject [simp]: "(of_char c :: 16 word) = of_char d \<longleftrightarrow> c = d"
  by (metis unat_of_char_16 of_char_eq_iff)

lemma js_inject [simp]: "js s = js t \<longleftrightarrow> s = t"
proof -
  have "inj (of_char :: char \<Rightarrow> 16 word)" by (simp add: inj_def)
  then show ?thesis by (simp add: js_def inj_map_eq_map)
qed

lemma js_Nil [simp]: "js [] = []"
  and js_eq_Nil [simp]: "js s = [] \<longleftrightarrow> s = []"
  and Nil_eq_js [simp]: "[] = js s \<longleftrightarrow> s = []"
  and length_js [simp]: "length (js s) = length s"
  by (auto simp: js_def)

lemma js_append: "js (s @ t) = js s @ js t"
  by (simp add: js_def)

section \<open>Thrown values\<close>

text \<open>
  Every value the source throws is an \<open>Error\<close> object or an instance of a subclass; what the
  code reads of one is its \<open>name\<close> and its \<open>message\<close>.
\<close>

record js_error =
  err_name :: jsstring
  err_message :: jsstring

type_synonym 'a outcome = "js_error + 'a"

definition Error :: "jsstring \<Rightarrow> js_error" where
  "Error m = \<lparr>err_name = js ''Error'', err_message = m\<rparr>"

text \<open>\<open>String(err)\<close>, by \<open>Error.prototype.toString\<close>.\<close>

definition String_of_error :: "js_error \<Rightarrow> jsstring" where
  "String_of_error e =
     (if err_name e = [] then err_message e
      else if err_message e = [] then err_name e
      else err_name e @ js '': '' @ err_message e)"

section \<open>Async functions\<close>

type_synonym ('a, 's) async = "'s \<Rightarrow> 'a outcome \<times> 's"

definition ret :: "'a \<Rightarrow> ('a, 's) async" where
  "ret x s = (Inr x, s)"

definition throw :: "js_error \<Rightarrow> ('a, 's) async" where
  "throw e s = (Inl e, s)"

definition await :: "('a, 's) async \<Rightarrow> ('a \<Rightarrow> ('b, 's) async) \<Rightarrow> ('b, 's) async" where
  "await m f s = (case m s of (Inl e, s') \<Rightarrow> (Inl e, s') | (Inr x, s') \<Rightarrow> f x s')"

definition try_catch :: "('a, 's) async \<Rightarrow> (js_error \<Rightarrow> ('a, 's) async) \<Rightarrow> ('a, 's) async" where
  "try_catch m h s = (case m s of (Inl e, s') \<Rightarrow> h e s' | (Inr x, s') \<Rightarrow> (Inr x, s'))"

text \<open>A synchronous computation that may throw, inside an async function.\<close>

definition lift :: "'a outcome \<Rightarrow> ('a, 's) async" where
  "lift r s = (r, s)"

text \<open>Sequencing of synchronous computations that may throw.\<close>

definition and_then :: "'a outcome \<Rightarrow> ('a \<Rightarrow> 'b outcome) \<Rightarrow> 'b outcome" where
  "and_then r f = (case r of Inl e \<Rightarrow> Inl e | Inr x \<Rightarrow> f x)"

text \<open>\<open>xs.map(f)\<close> where \<open>f\<close> may throw: the first throw ends the call.\<close>

fun traverse :: "('a \<Rightarrow> 'b outcome) \<Rightarrow> 'a list \<Rightarrow> 'b list outcome" where
  "traverse f [] = Inr []"
| "traverse f (x # xs) =
     (case f x of Inl e \<Rightarrow> Inl e
      | Inr y \<Rightarrow> (case traverse f xs of Inl e \<Rightarrow> Inl e | Inr ys \<Rightarrow> Inr (y # ys)))"

lemma ret_run [async_simps]: "ret x s = (Inr x, s)"
  and throw_run [async_simps]: "throw e s = (Inl e, s)"
  and lift_run [async_simps]: "lift r s = (r, s)"
  and lift_Inr [simp]: "lift (Inr x) = ret x"
  and lift_Inl [simp]: "lift (Inl e) = throw e"
  by (auto simp: ret_def throw_def lift_def fun_eq_iff)

lemma await_ret [simp]: "await (ret x) f = f x"
  and await_throw [simp]: "await (throw e) f = throw e"
  and await_ret_right [simp]: "await m ret = m"
  by (auto simp: await_def ret_def throw_def fun_eq_iff split: prod.splits sum.splits)

lemma await_assoc: "await (await m f) g = await m (\<lambda>x. await (f x) g)"
  by (auto simp: await_def fun_eq_iff split: prod.splits sum.splits)

lemma try_catch_ret [simp]: "try_catch (ret x) h = ret x"
  and try_catch_throw [simp]: "try_catch (throw e) h = h e"
  by (auto simp: try_catch_def ret_def throw_def fun_eq_iff)

lemma await_Inr_run [async_simps]: "m s = (Inr x, s') \<Longrightarrow> await m f s = f x s'"
  and await_Inl_run [async_simps]: "m s = (Inl e, s') \<Longrightarrow> await m f s = (Inl e, s')"
  and try_Inr_run [async_simps]: "m s = (Inr x, s') \<Longrightarrow> try_catch m h s = (Inr x, s')"
  and try_Inl_run [async_simps]: "m s = (Inl e, s') \<Longrightarrow> try_catch m h s = h e s'"
  by (simp_all add: await_def try_catch_def)

lemma await_InrE [async_elims]:
  assumes "await m f s = (Inr y, t)"
  obtains x s' where "m s = (Inr x, s')" and "f x s' = (Inr y, t)"
  using assms by (auto simp: await_def split: prod.splits sum.splits)

lemma await_InlE [async_elims]:
  assumes "await m f s = (Inl e, t)"
  obtains "m s = (Inl e, t)"
    | x s' where "m s = (Inr x, s')" and "f x s' = (Inl e, t)"
  using assms by (auto simp: await_def split: prod.splits sum.splits)

lemma try_catch_InlE [async_elims]:
  assumes "try_catch m h s = (Inl e, t)"
  obtains e' s' where "m s = (Inl e', s')" and "h e' s' = (Inl e, t)"
  using assms by (auto simp: try_catch_def split: prod.splits sum.splits)

lemma try_catch_InrE [async_elims]:
  assumes "try_catch m h s = (Inr x, t)"
  obtains "m s = (Inr x, t)"
    | e s' where "m s = (Inl e, s')" and "h e s' = (Inr x, t)"
  using assms by (auto simp: try_catch_def split: prod.splits sum.splits)

lemma ret_eq_iff [simp]: "ret x s = (r, t) \<longleftrightarrow> r = Inr x \<and> t = s"
  and throw_eq_iff [simp]: "throw e s = (r', t) \<longleftrightarrow> r' = Inl e \<and> t = s"
  by (auto simp: ret_def throw_def)

section \<open>Outcomes\<close>

lemma and_then_simps [simp]: "and_then (Inr x) f = f x" "and_then (Inl e) f = Inl e"
  by (simp_all add: and_then_def)

lemma and_then_Inr_iff: "and_then r f = Inr y \<longleftrightarrow> (\<exists>x. r = Inr x \<and> f x = Inr y)"
  by (cases r) auto

lemma and_then_Inl_iff:
  "and_then r f = Inl e \<longleftrightarrow> r = Inl e \<or> (\<exists>x. r = Inr x \<and> f x = Inl e)"
  by (cases r) auto

lemma traverse_Inr_iff: "traverse f xs = Inr ys \<longleftrightarrow> list_all2 (\<lambda>x y. f x = Inr y) xs ys"
proof (induction xs arbitrary: ys)
  case (Cons x xs)
  show ?case
  proof (cases "f x")
    case (Inr y)
    then show ?thesis
      using Cons.IH by (cases "traverse f xs") (auto simp: list_all2_Cons1)
  qed (auto simp: list_all2_Cons1)
qed auto

lemma traverse_total: "(\<And>x. x \<in> set xs \<Longrightarrow> f x = Inr (g x)) \<Longrightarrow> traverse f xs = Inr (map g xs)"
  by (induction xs) auto

lemma traverse_Inl_iff:
  "(\<exists>e. traverse f xs = Inl e) \<longleftrightarrow> (\<exists>x \<in> set xs. \<exists>e. f x = Inl e)"
  by (induction xs) (auto split: sum.splits)

text \<open>
  A JavaScript \<open>Map\<close> built from an array of pairs: a later pair replaces an earlier one with
  the same key.
\<close>

definition js_Map :: "('k \<times> 'v) list \<Rightarrow> 'k \<rightharpoonup> 'v" where
  "js_Map ps = map_of (rev ps)"

lemma js_Map_Nil [simp]: "js_Map [] = Map.empty"
  by (simp add: js_Map_def)

lemma js_Map_snoc: "js_Map (ps @ [(k, v)]) = (js_Map ps)(k \<mapsto> v)"
  by (simp add: js_Map_def)

lemma js_Map_append: "js_Map (ps @ qs) = js_Map ps ++ js_Map qs"
  by (simp add: js_Map_def)

lemma js_Map_Cons: "js_Map ((k, v) # ps) = [k \<mapsto> v] ++ js_Map ps"
  by (simp add: js_Map_def)

lemma js_Map_single [simp]: "js_Map [(k, v)] = [k \<mapsto> v]"
  by (simp add: js_Map_def)

lemma js_Map_SomeD: "js_Map ps k = Some v \<Longrightarrow> (k, v) \<in> set ps"
  by (auto simp: js_Map_def dest: map_of_SomeD)

lemma js_Map_None_iff: "js_Map ps k = None \<longleftrightarrow> k \<notin> fst ` set ps"
  by (simp add: js_Map_def map_of_eq_None_iff)

lemma js_Map_distinct:
  "distinct (map fst ps) \<Longrightarrow> js_Map ps k = Some v \<longleftrightarrow> (k, v) \<in> set ps"
  by (simp add: js_Map_def rev_map [symmetric])

lemma js_Map_map_value:
  "map_option g (js_Map (map (\<lambda>x. (k x, v x)) xs) a) = js_Map (map (\<lambda>x. (k x, g (v x))) xs) a"
  by (induction xs rule: rev_induct) (simp_all add: js_Map_snoc)

lemma js_Map_inj_key:
  assumes "inj f"
  shows "js_Map (map (\<lambda>x. (f (k x), v x)) xs) (f a) = js_Map (map (\<lambda>x. (k x, v x)) xs) a"
proof -
  have "map_of (map (\<lambda>x. (f (k x), v x)) ys) (f a) = map_of (map (\<lambda>x. (k x, v x)) ys) a" for ys
    using assms by (induction ys) (auto dest: injD)
  then show ?thesis by (simp add: js_Map_def rev_map)
qed

end
