(* ===== verification/Js_Strings.thy ===== *)
theory Js_Strings
  imports Prelude
begin

text \<open>
  The operations of \<open>String.prototype\<close> that the sources call, on lists of code units, and the
  laws the components use: splitting and joining at the separator, the directory and the
  basename of a key, prefixes and suffixes. The functions follow ECMAScript; the regular
  expressions of the sources (\<open>/\/$/\<close>, \<open>/^\/+/\<close>, \<open>/\/+/g\<close>) are one function each.
\<close>

section \<open>Operations\<close>

text \<open>WhiteSpace and LineTerminator code units, which \<open>trim\<close> removes at both ends.\<close>

definition is_space :: "code_unit \<Rightarrow> bool" where
  "is_space c \<longleftrightarrow>
     c \<in> {9, 10, 11, 12, 13, 32, 0xA0, 0x1680, 0x2028, 0x2029, 0x202F, 0x205F, 0x3000, 0xFEFF}
     \<or> 0x2000 \<le> c \<and> c \<le> 0x200A"

definition trim :: "jsstring \<Rightarrow> jsstring" where
  "trim s = rev (dropWhile is_space (rev (dropWhile is_space s)))"

definition startsWith :: "jsstring \<Rightarrow> jsstring \<Rightarrow> bool" where
  "startsWith s p \<longleftrightarrow> take (length p) s = p"

definition endsWith :: "jsstring \<Rightarrow> jsstring \<Rightarrow> bool" where
  "endsWith s p \<longleftrightarrow> length p \<le> length s \<and> drop (length s - length p) s = p"

text \<open>\<open>slice(start, end)\<close> of strings, arrays and blobs; negative positions count from the end.\<close>

definition slice :: "'a list \<Rightarrow> int \<Rightarrow> int option \<Rightarrow> 'a list" where
  "slice s start end =
     (let len = int (length s);
          rel = (\<lambda>i. if i < 0 then max (len + i) 0 else min i len);
          from = rel start;
          to = (case end of None \<Rightarrow> len | Some e \<Rightarrow> rel e)
      in take (nat (to - from)) (drop (nat from) s))"

definition lastIndexOf :: "'a list \<Rightarrow> 'a \<Rightarrow> int" where
  "lastIndexOf s c =
     (if c \<in> set s then int (length s) - 1 - int (length (takeWhile (\<lambda>x. x \<noteq> c) (rev s))) else -1)"

fun split :: "'a \<Rightarrow> 'a list \<Rightarrow> 'a list list" where
  "split c [] = [[]]"
| "split c (x # xs) =
     (if x = c then [] # split c xs
      else (case split c xs of [] \<Rightarrow> [[x]] | y # ys \<Rightarrow> (x # y) # ys))"

fun join :: "'a list \<Rightarrow> 'a list list \<Rightarrow> 'a list" where
  "join sep [] = []"
| "join sep [x] = x"
| "join sep (x # y # ys) = x @ sep @ join sep (y # ys)"

text \<open>\<open>replace(/\/$/, '')\<close>\<close>

definition strip_trailing_slash :: "jsstring \<Rightarrow> jsstring" where
  "strip_trailing_slash s = (if s \<noteq> [] \<and> last s = slash then butlast s else s)"

text \<open>\<open>replace(/^\/+/, '')\<close>\<close>

definition strip_leading_slashes :: "jsstring \<Rightarrow> jsstring" where
  "strip_leading_slashes s = dropWhile (\<lambda>c. c = slash) s"

text \<open>\<open>replace(/\/+/g, '/')\<close>\<close>

fun collapse_slashes :: "jsstring \<Rightarrow> jsstring" where
  "collapse_slashes [] = []"
| "collapse_slashes [c] = [c]"
| "collapse_slashes (c # d # s) =
     (if c = slash \<and> d = slash then collapse_slashes (d # s) else c # collapse_slashes (d # s))"

section \<open>Prefixes and suffixes\<close>

lemma startsWith_iff: "startsWith s p \<longleftrightarrow> (\<exists>r. s = p @ r)"
  by (auto simp: startsWith_def) (metis append_take_drop_id)

lemma endsWith_iff: "endsWith s p \<longleftrightarrow> (\<exists>r. s = r @ p)"
  by (auto simp: endsWith_def) (metis append_take_drop_id)

lemma endsWith_single: "endsWith s [c] \<longleftrightarrow> s \<noteq> [] \<and> last s = c"
  by (metis append_butlast_last_id endsWith_iff last_snoc snoc_eq_iff_butlast)

lemma startsWith_self [simp]: "startsWith (p @ r) p"
  by (simp add: startsWith_def)

lemma startsWith_trans: "startsWith s p \<Longrightarrow> startsWith p q \<Longrightarrow> startsWith s q"
  by (auto simp: startsWith_iff)

section \<open>Slices\<close>

lemma slice_from [simp]: "slice s (int n) None = drop n s"
  by (simp add: slice_def min_def nat_diff_distrib)

lemma slice_upto [simp]: "slice s 0 (Some (int n)) = take n s"
  by (simp add: slice_def min_def)

lemma slice_range: "a \<le> b \<Longrightarrow> slice s (int a) (Some (int b)) = take (b - a) (drop a s)"
  by (simp add: slice_def min_def Let_def nat_diff_distrib)

lemma slice_butlast [simp]: "slice s 0 (Some (-1)) = butlast s"
  by (cases s) (simp_all add: slice_def butlast_conv_take)

section \<open>Splitting and joining\<close>

lemma split_not_Nil [simp]: "split c s \<noteq> []"
  by (cases s) (auto split: list.splits)

lemma split_no_sep: "c \<notin> set s \<Longrightarrow> split c s = [s]"
  by (induction s) auto

lemma split_append_sep: "c \<notin> set x \<Longrightarrow> split c (x @ c # s) = x # split c s"
  by (induction x) auto

lemma split_segments: "seg \<in> set (split c s) \<Longrightarrow> c \<notin> set seg"
  by (induction s arbitrary: seg) (auto split: list.splits if_splits)

lemma join_split [simp]: "join [c] (split c s) = s"
proof (induction s)
  case (Cons x s)
  obtain y ys where "split c s = y # ys"
    by (meson split_not_Nil neq_Nil_conv)
  with Cons.IH show ?case by (cases ys) auto
qed simp

lemma split_join:
  "xs \<noteq> [] \<Longrightarrow> (\<And>x. x \<in> set xs \<Longrightarrow> c \<notin> set x) \<Longrightarrow> split c (join [c] xs) = xs"
proof (induction "[c]" xs rule: join.induct)
  case (3 x y ys)
  then show ?case by (simp add: split_append_sep)
qed (simp_all add: split_no_sep)

lemma join_snoc: "xs \<noteq> [] \<Longrightarrow> join sep (xs @ [x]) = join sep xs @ sep @ x"
  by (induction sep xs rule: join.induct) auto

lemma join_append:
  "xs \<noteq> [] \<Longrightarrow> ys \<noteq> [] \<Longrightarrow> join sep (xs @ ys) = join sep xs @ sep @ join sep ys"
  by (induction sep xs rule: join.induct) (auto simp: neq_Nil_conv)

section \<open>Directories\<close>

text \<open>The path of a directory: its names from the root on, each ended by one separator.\<close>

definition path_of :: "jsstring list \<Rightarrow> jsstring" where
  "path_of segs = concat (map (\<lambda>s. s @ [slash]) segs)"

lemma path_of_Cons [simp]: "path_of (x # xs) = x @ slash # path_of xs" "path_of [] = []"
  by (simp_all add: path_of_def)

lemma join_path_of: "segs \<noteq> [] \<Longrightarrow> join [slash] segs @ [slash] = path_of segs"
  by (induction "[slash]" segs rule: join.induct) simp_all

section \<open>Directory and basename of a key\<close>

definition dir_part :: "jsstring \<Rightarrow> jsstring" where
  "dir_part key = slice key 0 (Some (lastIndexOf key slash + 1))"

definition base_part :: "jsstring \<Rightarrow> jsstring" where
  "base_part key = slice key (lastIndexOf key slash + 1) None"

lemma lastIndexOf_plus1:
  "lastIndexOf s c + 1 = int (length s - length (takeWhile (\<lambda>x. x \<noteq> c) (rev s)))"
proof (cases "c \<in> set s")
  case True
  have "length (takeWhile (\<lambda>x. x \<noteq> c) (rev s)) \<le> length (rev s)"
    by (rule length_takeWhile_le)
  with True show ?thesis by (simp add: lastIndexOf_def of_nat_diff)
next
  case False
  then have "takeWhile (\<lambda>x. x \<noteq> c) (rev s) = rev s"
    by (auto simp only: takeWhile_eq_all_conv set_rev)
  then have "length (takeWhile (\<lambda>x. x \<noteq> c) (rev s)) = length s"
    by (simp only: length_rev)
  with False show ?thesis by (simp add: lastIndexOf_def)
qed

lemma base_part_eq: "base_part key = rev (takeWhile (\<lambda>x. x \<noteq> slash) (rev key))"
proof -
  let ?t = "takeWhile (\<lambda>x. x \<noteq> slash) (rev key)"
  have "drop (length key - length ?t) key = rev (take (length ?t) (rev key))"
    by (simp add: take_rev)
  also have "\<dots> = rev ?t"
    by (metis takeWhile_eq_take)
  finally show ?thesis by (simp add: base_part_def lastIndexOf_plus1)
qed

lemma dir_base_part: "dir_part key @ base_part key = key"
  by (simp add: dir_part_def base_part_def lastIndexOf_plus1)

lemma base_part_no_slash: "slash \<notin> set (base_part key)"
  by (auto simp: base_part_eq dest: set_takeWhileD)

lemma dir_part_eq: "dir_part key = rev (dropWhile (\<lambda>x. x \<noteq> slash) (rev key))"
  by (simp add: dir_part_def lastIndexOf_plus1 dropWhile_eq_drop drop_rev)

lemma dir_part_ends: "dir_part key \<noteq> [] \<Longrightarrow> last (dir_part key) = slash"
proof -
  assume "dir_part key \<noteq> []"
  then have "dropWhile (\<lambda>x. x \<noteq> slash) (rev key) \<noteq> []"
    by (simp only: dir_part_eq rev_is_Nil_conv) simp
  then show ?thesis
    using hd_dropWhile [of "\<lambda>x. x \<noteq> slash" "rev key"] by (simp only: dir_part_eq last_rev) simp
qed

lemma base_part_append: "slash \<notin> set n \<Longrightarrow> base_part (d @ slash # n) = n"
proof -
  assume "slash \<notin> set n"
  then have "takeWhile (\<lambda>x. x \<noteq> slash) (rev n @ slash # rev d) = rev n"
    by (subst takeWhile_append2) auto
  then show ?thesis by (simp only: base_part_eq rev_append rev.simps append.simps append_assoc) simp
qed

lemma dir_part_append: "slash \<notin> set n \<Longrightarrow> dir_part (d @ slash # n) = d @ [slash]"
  using dir_base_part [of "d @ slash # n"] base_part_append [of n d] by simp

lemma dir_part_no_slash: "slash \<notin> set n \<Longrightarrow> dir_part n = []"
  by (simp only: dir_part_eq rev_is_Nil_conv dropWhile_eq_Nil_conv set_rev) auto

lemma base_part_dir: "d = [] \<or> last d = slash \<Longrightarrow> slash \<notin> set n \<Longrightarrow> base_part (d @ n) = n"
proof (cases d rule: rev_cases)
  case Nil
  assume "slash \<notin> set n"
  with dir_base_part [of n] Nil show ?thesis by (simp add: dir_part_no_slash)
qed (simp add: base_part_append)

lemma dir_part_dir: "d = [] \<or> last d = slash \<Longrightarrow> slash \<notin> set n \<Longrightarrow> dir_part (d @ n) = d"
  using dir_base_part [of "d @ n"] base_part_dir [of d n] by simp

end
