(* ===== verification/Upload_Plan.thy ===== *)
theory Upload_Plan
  imports Js_Strings
begin

text \<open>
  The division of a file into parts, \<open>planParts\<close> of \<open>web/src/lib/multipartUpload.ts\<close>. The loop of
  the source adds \<open>partSize\<close> to its counter and need not end when that is not positive, so it is a
  partial function: \<open>None\<close> means that it never returns. The closed form \<open>plan\<close> is the reference
  it is compared with.
\<close>

definition PART_SIZE_BYTES :: int where
  "PART_SIZE_BYTES = 16 * 1024 * 1024"

definition MULTIPART_THRESHOLD_BYTES :: int where
  "MULTIPART_THRESHOLD_BYTES = 2 * PART_SIZE_BYTES"

record PartPlan =
  pp_partNumber :: int
  pp_start :: int
  pp_end :: int

partial_function (option) plan_loop ::
  "int \<Rightarrow> int \<Rightarrow> int \<Rightarrow> int \<Rightarrow> PartPlan list \<Rightarrow> PartPlan list option" where
  "plan_loop fileSize partSize start partNumber parts =
     (if start < fileSize
      then plan_loop fileSize partSize (start + partSize) (partNumber + 1)
        (parts @ [\<lparr>pp_partNumber = partNumber, pp_start = start,
                    pp_end = min (start + partSize) fileSize\<rparr>])
      else Some parts)"

definition planParts :: "int \<Rightarrow> int \<Rightarrow> PartPlan list option" where
  "planParts fileSize partSize = plan_loop fileSize partSize 0 1 []"

section \<open>The closed form\<close>

text \<open>The number of parts, and the parts one by one.\<close>

definition part_count :: "int \<Rightarrow> int \<Rightarrow> nat" where
  "part_count fileSize partSize = nat ((fileSize + partSize - 1) div partSize)"

definition part_at :: "int \<Rightarrow> int \<Rightarrow> nat \<Rightarrow> PartPlan" where
  "part_at fileSize partSize i =
     \<lparr>pp_partNumber = int i + 1, pp_start = int i * partSize,
      pp_end = min (int i * partSize + partSize) fileSize\<rparr>"

definition plan :: "int \<Rightarrow> int \<Rightarrow> PartPlan list" where
  "plan fileSize partSize = map (part_at fileSize partSize) [0..<part_count fileSize partSize]"

lemma pos_le_div_mult:
  assumes "0 < (b :: int)"
  shows "a \<le> c div b \<longleftrightarrow> a * b \<le> c"
proof
  assume "a \<le> c div b"
  then have "a * b \<le> c div b * b" using assms by (simp add: mult_right_mono)
  also have "\<dots> \<le> c" using assms pos_mod_sign [of b c] by (simp add: minus_mod_eq_div_mult [symmetric])
  finally show "a * b \<le> c" .
next
  assume "a * b \<le> c"
  then have "a * b div b \<le> c div b" using assms by (rule zdiv_mono1)
  with assms show "a \<le> c div b" by simp
qed

lemma part_count_less_iff:
  "0 < partSize \<Longrightarrow> i < part_count fileSize partSize \<longleftrightarrow> int i * partSize < fileSize"
proof -
  assume p: "0 < partSize"
  have "i < part_count fileSize partSize \<longleftrightarrow> int i + 1 \<le> (fileSize + partSize - 1) div partSize"
    by (auto simp: part_count_def)
  also have "\<dots> \<longleftrightarrow> (int i + 1) * partSize \<le> fileSize + partSize - 1"
    by (rule pos_le_div_mult [OF p])
  finally show ?thesis by (simp add: algebra_simps) linarith
qed

lemma plan_loop_run:
  assumes "0 < partSize" and "i \<le> part_count fileSize partSize"
  shows "plan_loop fileSize partSize (int i * partSize) (int i + 1) acc =
    Some (acc @ map (part_at fileSize partSize) [i..<part_count fileSize partSize])"
  using assms(2)
proof (induction "part_count fileSize partSize - i" arbitrary: i acc)
  case 0
  then have "\<not> int i * partSize < fileSize"
    using part_count_less_iff [OF assms(1), of i fileSize] by simp
  with 0 show ?case by (simp add: plan_loop.simps)
next
  case (Suc k)
  then have i: "i < part_count fileSize partSize" by simp
  then have lt: "int i * partSize < fileSize" using part_count_less_iff [OF assms(1)] by simp
  have "plan_loop fileSize partSize (int i * partSize) (int i + 1) acc =
      plan_loop fileSize partSize (int (Suc i) * partSize) (int (Suc i) + 1)
        (acc @ [part_at fileSize partSize i])"
    using lt by (subst plan_loop.simps) (simp add: part_at_def algebra_simps)
  also have "\<dots> = Some (acc @ [part_at fileSize partSize i] @
      map (part_at fileSize partSize) [Suc i..<part_count fileSize partSize])"
    using Suc.hyps(1) [of "Suc i"] Suc.hyps(2) i by simp
  finally show ?case using i by (simp add: upt_conv_Cons)
qed

lemma planParts_plan: "0 < partSize \<Longrightarrow> planParts fileSize partSize = Some (plan fileSize partSize)"
  using plan_loop_run [of partSize 0 fileSize "[]"] by (simp add: planParts_def plan_def)

lemma planParts_empty: "fileSize \<le> 0 \<Longrightarrow> planParts fileSize partSize = Some []"
  by (simp add: planParts_def plan_loop.simps)

lemma plan_loop_diverges:
  assumes "partSize \<le> 0" and "start < fileSize"
  shows "plan_loop fileSize partSize start n acc = None"
proof -
  have "\<not> (partSize \<le> 0 \<and> start < fileSize)"
    if "plan_loop fileSize partSize start n acc = Some ps" for ps
    by (rule plan_loop.raw_induct [where P = "\<lambda>fileSize partSize start n acc ps.
          \<not> (partSize \<le> 0 \<and> start < fileSize)", OF _ that])
      (fastforce split: if_splits)
  with assms show ?thesis by (cases "plan_loop fileSize partSize start n acc") auto
qed

section \<open>Contents of the parts\<close>

lemma plan_length: "length (plan fileSize partSize) = part_count fileSize partSize"
  by (simp add: plan_def)

lemma plan_nth: "i < part_count n p \<Longrightarrow> plan n p ! i = part_at n p i"
  by (simp add: plan_def)

lemma part_bytes:
  assumes "0 < p" and "int i * p < int (length bs)"
  shows "slice bs (pp_start (part_at (int (length bs)) p i)) (Some (pp_end (part_at (int (length bs)) p i)))
    = take (nat p) (drop (i * nat p) bs)"
proof -
  define n where "n = nat p"
  with assms have p: "p = int n" by simp
  with assms(2) have lt: "i * n < length bs" by (metis of_nat_less_iff of_nat_mult)
  have e: "min (int i * p + p) (int (length bs)) = int (min (i * n + n) (length bs))"
    by (simp add: p of_nat_min)
  have s: "int i * p = int (i * n)" by (simp add: p)
  have "take (min (i * n + n) (length bs) - i * n) (drop (i * n) bs) = take n (drop (i * n) bs)"
    using lt by (auto simp: min_def)
  with lt have "slice bs (int (i * n)) (Some (int (min (i * n + n) (length bs)))) =
      take n (drop (i * n) bs)"
    by (subst slice_range) simp_all
  then show ?thesis
    unfolding part_at_def PartPlan.simps e by (simp only: s n_def)
qed

lemma plan_covers_upto:
  assumes "0 < p" and "k \<le> part_count (int (length bs)) p"
  shows "concat (map (\<lambda>i. take (nat p) (drop (i * nat p) bs)) [0..<k]) = take (k * nat p) bs"
  using assms(2) by (induction k) (simp_all add: take_add add.commute [of "nat p"])

lemma plan_covers:
  assumes "0 < p"
  shows "concat (map (\<lambda>q. slice bs (pp_start q) (Some (pp_end q))) (plan (int (length bs)) p)) = bs"
proof -
  let ?k = "part_count (int (length bs)) p"
  have "map (\<lambda>q. slice bs (pp_start q) (Some (pp_end q))) (plan (int (length bs)) p) =
      map (\<lambda>i. take (nat p) (drop (i * nat p) bs)) [0..<?k]"
    using assms by (auto simp: plan_def part_bytes part_count_less_iff)
  moreover have "length bs \<le> ?k * nat p"
  proof -
    have "\<not> int ?k * p < int (length bs)" using part_count_less_iff [OF assms] by blast
    then have "int (length bs) \<le> int (?k * nat p)" using assms by simp
    then show ?thesis by (simp only: of_nat_le_iff)
  qed
  ultimately show ?thesis using plan_covers_upto [OF assms, of ?k bs] by simp
qed

section \<open>Properties\<close>

text \<open>
  C27. The loop of \<open>planParts\<close> ends exactly if there is nothing to divide or the part size is
  positive; as the module calls it, with \<open>PART_SIZE_BYTES\<close>, it always does.
\<close>

theorem planParts_returns_iff:
  "(\<exists>parts. planParts fileSize partSize = Some parts) \<longleftrightarrow> fileSize \<le> 0 \<or> 0 < partSize"
  using planParts_plan planParts_empty plan_loop_diverges [of partSize 0 fileSize 1 "[]"]
  by (metis linorder_not_less option.distinct(1) planParts_def)

text \<open>
  C28. A plan is an exact division: the parts are numbered from one without a gap, consecutive parts
  adjoin, none is empty or larger than the part size, and the byte ranges put together in order are
  the file.
\<close>

theorem planParts_correct:
  assumes "0 < partSize"
  shows "\<exists>parts. planParts (int (length bytes)) partSize = Some parts
    \<and> map pp_partNumber parts = map int [1..<Suc (length parts)]
    \<and> list_all (\<lambda>p. pp_start p = (pp_partNumber p - 1) * partSize
        \<and> 0 < pp_end p - pp_start p \<and> pp_end p - pp_start p \<le> partSize) parts
    \<and> concat (map (\<lambda>p. slice bytes (pp_start p) (Some (pp_end p))) parts) = bytes"
proof -
  let ?n = "int (length bytes)"
  have "map pp_partNumber (plan ?n partSize) = map int [1..<Suc (part_count ?n partSize)]"
    by (simp add: plan_def part_at_def comp_def map_Suc_upt [symmetric] del: upt_Suc)
  moreover have "list_all (\<lambda>p. pp_start p = (pp_partNumber p - 1) * partSize
        \<and> 0 < pp_end p - pp_start p \<and> pp_end p - pp_start p \<le> partSize) (plan ?n partSize)"
    using assms by (auto simp: list_all_iff plan_def part_at_def part_count_less_iff min_def)
  ultimately show ?thesis
    using planParts_plan [OF assms] plan_covers [OF assms] plan_length [of ?n partSize] by simp
qed

theorem planParts_correct_witness:
  "planParts 5 2 = Some [\<lparr>pp_partNumber = 1, pp_start = 0, pp_end = 2\<rparr>,
     \<lparr>pp_partNumber = 2, pp_start = 2, pp_end = 4\<rparr>, \<lparr>pp_partNumber = 3, pp_start = 4, pp_end = 5\<rparr>]
   \<and> (\<exists>parts. planParts 5 2 = Some parts
     \<and> concat (map (\<lambda>p. slice ''abcde'' (pp_start p) (Some (pp_end p))) parts) = ''abcde'')"
  using planParts_correct [of 2 "''abcde''"]
  by (auto simp: planParts_def plan_loop.simps)

end
