(* ===== verification/Js_Numbers.thy ===== *)
theory Js_Numbers
  imports Js_Strings "HOL-Library.Log_Nat"
begin

text \<open>
  Numbers and big integers of ECMAScript, as far as the sources use them: decimal text of an
  integer (\<open>toString\<close>, template literals), \<open>BigInt(string)\<close>, \<open>Number(bigint)\<close> with its
  rounding to 53 significant bits, and \<open>toFixed(1)\<close>. A finite double is a rational number, so
  arithmetic that is exact on doubles is written on \<open>int\<close> or \<open>rat\<close>.
\<close>

section \<open>Definitions\<close>

datatype jsnum = NaN | Infinity | NegInfinity | Fin rat

text \<open>\<open>Number.isInteger(x)\<close>\<close>

fun isInteger :: "jsnum \<Rightarrow> bool" where
  "isInteger (Fin q) = (of_int \<lfloor>q\<rfloor> = q)"
| "isInteger _ = False"

text \<open>\<open>x < n\<close> for an integer literal \<open>n\<close>.\<close>

fun num_less :: "jsnum \<Rightarrow> int \<Rightarrow> bool" where
  "num_less NaN n = False"
| "num_less Infinity n = False"
| "num_less NegInfinity n = True"
| "num_less (Fin q) n = (q < of_int n)"

fun int_of_num :: "jsnum \<Rightarrow> int" where
  "int_of_num (Fin q) = \<lfloor>q\<rfloor>"
| "int_of_num _ = 0"

subsection \<open>Decimal text\<close>

definition digit :: "nat \<Rightarrow> code_unit" where
  "digit d = of_nat (48 + d)"

fun dec :: "nat \<Rightarrow> jsstring" where
  "dec n = (if n < 10 then [digit n] else dec (n div 10) @ [digit (n mod 10)])"

declare dec.simps [simp del]

definition bigint_toString :: "int \<Rightarrow> jsstring" where
  "bigint_toString n = (if n < 0 then js ''-'' @ dec (nat (- n)) else dec (nat n))"

definition is_digit :: "code_unit \<Rightarrow> bool" where
  "is_digit c \<longleftrightarrow> 48 \<le> c \<and> c \<le> 57"

text \<open>The test \<open>/^\d+$/\<close>.\<close>

definition is_numeric :: "jsstring \<Rightarrow> bool" where
  "is_numeric s \<longleftrightarrow> s \<noteq> [] \<and> list_all is_digit s"

text \<open>The value of a digit in radix up to 16; \<open>None\<close> for any other code unit.\<close>

definition digit_value :: "code_unit \<Rightarrow> nat option" where
  "digit_value c =
     (if 48 \<le> c \<and> c \<le> 57 then Some (unat c - 48)
      else if 97 \<le> c \<and> c \<le> 102 then Some (unat c - 87)
      else if 65 \<le> c \<and> c \<le> 70 then Some (unat c - 55)
      else None)"

fun radix_value :: "nat \<Rightarrow> nat \<Rightarrow> jsstring \<Rightarrow> nat option" where
  "radix_value r acc [] = Some acc"
| "radix_value r acc (c # s) =
     (case digit_value c of None \<Rightarrow> None
      | Some d \<Rightarrow> if d < r then radix_value r (r * acc + d) s else None)"

definition SyntaxError_BigInt :: "jsstring \<Rightarrow> js_error" where
  "SyntaxError_BigInt s =
     \<lparr>err_name = js ''SyntaxError'', err_message = js ''Cannot convert '' @ s @ js '' to a BigInt''\<rparr>"

definition unsigned_literal :: "nat \<Rightarrow> jsstring \<Rightarrow> int option" where
  "unsigned_literal r s = (if s = [] then None else map_option int (radix_value r 0 s))"

text \<open>StringToBigInt: a decimal literal with an optional sign, or a hexadecimal, octal or binary
  one without, between white space; the empty string is zero.\<close>

definition StringToBigInt :: "jsstring \<Rightarrow> int option" where
  "StringToBigInt s =
     (let t = trim s in
      if t = [] then Some 0
      else if take 2 t \<in> {js ''0x'', js ''0X''} then unsigned_literal 16 (drop 2 t)
      else if take 2 t \<in> {js ''0o'', js ''0O''} then unsigned_literal 8 (drop 2 t)
      else if take 2 t \<in> {js ''0b'', js ''0B''} then unsigned_literal 2 (drop 2 t)
      else if hd t = of_char (CHR ''-'') then map_option uminus (unsigned_literal 10 (tl t))
      else if hd t = of_char (CHR ''+'') then unsigned_literal 10 (tl t)
      else unsigned_literal 10 t)"

definition BigInt :: "jsstring \<Rightarrow> int outcome" where
  "BigInt s = (case StringToBigInt s of None \<Rightarrow> Inl (SyntaxError_BigInt s) | Some n \<Rightarrow> Inr n)"

subsection \<open>Rounding\<close>

text \<open>
  \<open>Number(n)\<close> of a big integer of magnitude below \<open>2^1024\<close>: round to 53 significant bits, ties to
  even. The result is an integer-valued double.
\<close>

definition round_half_even :: "int \<Rightarrow> int \<Rightarrow> int" where
  "round_half_even a m =
     (let q = a div m; r = a mod m in
      if m < 2 * r \<or> (m = 2 * r \<and> odd q) then q + 1 else q)"

definition Number :: "int \<Rightarrow> int" where
  "Number n =
     (if \<bar>n\<bar> \<le> 2 ^ 53 then n
      else let m = 2 ^ nat (bitlen \<bar>n\<bar> - 53) in sgn n * (round_half_even \<bar>n\<bar> m * m))"

text \<open>\<open>x.toFixed(1)\<close> for \<open>0 \<le> x < 10^21\<close>: the nearest multiple of a tenth, the larger on a tie.\<close>

definition toFixed1 :: "rat \<Rightarrow> jsstring" where
  "toFixed1 x = (let n = nat \<lfloor>10 * x + 1 / 2\<rfloor> in dec (n div 10) @ js ''.'' @ dec (n mod 10))"

section \<open>Decimal text\<close>

lemma digit_value_digit: "d < 10 \<Longrightarrow> digit_value (digit d) = Some d"
  and is_digit_digit: "d < 10 \<Longrightarrow> is_digit (digit d)"
proof -
  assume d: "d < 10"
  then have u: "unat (digit d) = 48 + d"
    by (simp add: digit_def unat_of_nat take_bit_nat_eq_self del: of_nat_add)
  from u d show "digit_value (digit d) = Some d"
    by (simp add: digit_value_def word_le_nat_alt)
  from u d show "is_digit (digit d)"
    by (simp add: is_digit_def word_le_nat_alt)
qed

lemma radix_value_append:
  "radix_value r a (s @ t) = (case radix_value r a s of None \<Rightarrow> None | Some b \<Rightarrow> radix_value r b t)"
  by (induction s arbitrary: a) (auto split: option.splits)

lemma dec_not_Nil [simp]: "dec n \<noteq> []"
  by (subst dec.simps) simp

lemma dec_digits: "list_all is_digit (dec n)"
proof (induction n rule: dec.induct)
  case (1 n)
  then show ?case
    by (cases "n < 10") (simp_all add: dec.simps [of n] is_digit_digit)
qed

lemma radix_value_dec: "radix_value 10 0 (dec n) = Some n"
proof (induction n rule: dec.induct)
  case (1 n)
  then show ?case
    by (cases "n < 10") (simp_all add: dec.simps [of n] radix_value_append digit_value_digit)
qed

lemma is_numeric_dec: "is_numeric (dec n)"
  by (simp add: is_numeric_def dec_digits)

lemma digit_not_space: "is_digit c \<Longrightarrow> \<not> is_space c"
  by (auto simp: is_digit_def is_space_def word_le_nat_alt)

lemma dropWhile_none: "xs \<noteq> [] \<Longrightarrow> \<not> P (hd xs) \<Longrightarrow> dropWhile P xs = xs"
  by (cases xs) auto

lemma trim_id:
  assumes "s \<noteq> []" and "\<not> is_space (hd s)" and "\<not> is_space (last s)"
  shows "trim s = s"
  using assms by (simp add: trim_def dropWhile_none hd_rev)

lemma trim_digits: "is_numeric s \<Longrightarrow> trim s = s"
  by (rule trim_id) (auto simp: is_numeric_def list_all_iff digit_not_space)

lemma is_digit_eq: "is_digit c \<longleftrightarrow> (\<exists>d < 10. digit_value c = Some d)"
  by (auto simp: is_digit_def digit_value_def word_le_nat_alt split: if_splits)

lemma radix_value_numeric: "list_all is_digit s \<Longrightarrow> \<exists>n. radix_value 10 a s = Some n"
  by (induction s arbitrary: a) (auto simp: is_digit_eq)

section \<open>Big integers\<close>

lemma digits_no_letter:
  "list_all is_digit s \<Longrightarrow> \<not> is_digit (of_char x) \<Longrightarrow> take 2 s \<noteq> js [a, x]"
  by (metis (no_types, opaque_lifting) in_set_takeD js_def list.set_intros list.simps(9) list_all_iff)

lemma StringToBigInt_numeric:
  assumes "is_numeric s"
  shows "StringToBigInt s = map_option int (radix_value 10 0 s)"
proof -
  have d: "list_all is_digit s" and ne: "s \<noteq> []" using assms by (auto simp: is_numeric_def)
  then have "is_digit (hd s)" by (cases s) auto
  then have h: "hd s \<noteq> of_char (CHR ''-'')" "hd s \<noteq> of_char (CHR ''+'')"
    by (auto simp: is_digit_def)
  have "\<not> is_digit (of_char (CHR ''x''))" "\<not> is_digit (of_char (CHR ''X''))"
    "\<not> is_digit (of_char (CHR ''o''))" "\<not> is_digit (of_char (CHR ''O''))"
    "\<not> is_digit (of_char (CHR ''b''))" "\<not> is_digit (of_char (CHR ''B''))"
    by (simp_all add: is_digit_def)
  then show ?thesis
    using h ne d digits_no_letter [OF d]
    by (simp add: StringToBigInt_def trim_digits [OF assms] unsigned_literal_def)
qed

lemma StringToBigInt_dec: "StringToBigInt (dec n) = Some (int n)"
  by (simp add: StringToBigInt_numeric is_numeric_dec radix_value_dec)

lemma StringToBigInt_minus:
  assumes "is_numeric s"
  shows "StringToBigInt (js ''-'' @ s) = map_option (\<lambda>n. - int n) (radix_value 10 0 s)"
proof -
  have "s \<noteq> []" and "\<not> is_space (last s)"
    using assms by (auto simp: is_numeric_def list_all_iff digit_not_space)
  then have "trim (js ''-'' @ s) = js ''-'' @ s"
    by (intro trim_id) (simp_all add: js_def is_space_def [of 45])
  moreover have "take 2 (js ''-'' @ s) = of_char (CHR ''-'') # take 1 s"
    by (simp add: js_def)
  ultimately show ?thesis
    using \<open>s \<noteq> []\<close>
    by (simp add: StringToBigInt_def Let_def js_def unsigned_literal_def option.map_comp comp_def)
qed

lemma BigInt_toString: "BigInt (bigint_toString n) = Inr n"
proof (cases "n < 0")
  case True
  then show ?thesis
    by (simp add: BigInt_def bigint_toString_def StringToBigInt_minus is_numeric_dec radix_value_dec)
next
  case False
  then show ?thesis
    by (simp add: BigInt_def bigint_toString_def StringToBigInt_dec)
qed

lemma bigint_toString_inject [simp]: "bigint_toString m = bigint_toString n \<longleftrightarrow> m = n"
  by (metis BigInt_toString sum.inject(2))

lemma inj_bigint_toString: "inj bigint_toString"
  by (simp add: inj_def)

lemma BigInt_numeric:
  assumes "is_numeric s"
  obtains n where "radix_value 10 0 s = Some n" and "BigInt s = Inr (int n)"
  using assms radix_value_numeric [of s 0]
  by (auto simp: BigInt_def StringToBigInt_numeric is_numeric_def)

text \<open>A numeric string is the text of its value exactly when it has no superfluous leading zero.\<close>

definition canonical_id :: "jsstring \<Rightarrow> bool" where
  "canonical_id s \<longleftrightarrow> is_numeric s \<and> (s = [digit 0] \<or> hd s \<noteq> digit 0)"

lemma digit_of_value: "digit_value c = Some d \<Longrightarrow> d < 10 \<Longrightarrow> digit d = c"
  by (auto simp: digit_value_def digit_def word_le_nat_alt of_nat_diff split: if_splits)

lemma hd_dec: "hd (dec n) = digit 0 \<Longrightarrow> n = 0"
proof (induction n rule: dec.induct)
  case (1 n)
  show ?case
  proof (cases "n < 10")
    case True
    with 1(2) have "digit_value (digit n) = digit_value (digit 0)"
      by (simp add: dec.simps [of n])
    with True show ?thesis by (simp add: digit_value_digit)
  next
    case False
    with 1 show ?thesis by (simp add: dec.simps [of n])
  qed
qed

lemma dec_snoc: "0 < a \<Longrightarrow> d < 10 \<Longrightarrow> dec (10 * a + d) = dec a @ [digit d]"
  by (subst dec.simps) simp

lemma dec_of_value:
  "list_all is_digit s \<Longrightarrow> s \<noteq> [] \<Longrightarrow> hd s \<noteq> digit 0 \<Longrightarrow>
    \<exists>n. radix_value 10 0 s = Some n \<and> 0 < n \<and> dec n = s"
proof (induction s rule: rev_induct)
  case (snoc c s)
  obtain d where d: "digit_value c = Some d" "d < 10" "digit d = c"
    using snoc.prems digit_of_value by (auto simp: is_digit_eq)
  show ?case
  proof (cases "s = []")
    case True
    with d snoc.prems show ?thesis by (cases d) (auto simp: dec.simps)
  next
    case False
    with snoc obtain n where "radix_value 10 0 s = Some n" "0 < n" "dec n = s" by auto
    with d show ?thesis by (auto simp: radix_value_append dec_snoc)
  qed
qed simp

lemma canonical_id_iff:
  assumes "is_numeric s" and "BigInt s = Inr n"
  shows "bigint_toString n = s \<longleftrightarrow> canonical_id s"
proof -
  obtain k where k: "radix_value 10 0 s = Some k" "n = int k"
    using assms BigInt_numeric by (metis sum.inject(2))
  have zero: "dec 0 = [digit 0]" by (simp add: dec.simps)
  show ?thesis
  proof (cases "hd s = digit 0")
    case True
    then have "dec k = s \<longleftrightarrow> s = [digit 0]"
      using hd_dec [of k] zero k digit_value_digit [of 0] by auto
    with k True assms show ?thesis by (simp add: bigint_toString_def canonical_id_def)
  next
    case False
    then have "dec k = s"
      using dec_of_value [of s] k assms by (auto simp: is_numeric_def)
    with k False assms show ?thesis by (simp add: bigint_toString_def canonical_id_def)
  qed
qed

section \<open>Rounding\<close>

lemma Number_exact: "\<bar>n\<bar> \<le> 2 ^ 53 \<Longrightarrow> Number n = n"
  by (simp add: Number_def)

lemma round_half_even_error:
  assumes "0 < m"
  shows "2 * \<bar>round_half_even a m * m - a\<bar> \<le> m"
proof -
  have a: "a = m * (a div m) + a mod m" by simp
  have r: "0 \<le> a mod m" "a mod m < m" using assms by auto
  show ?thesis
  proof (cases "m < 2 * (a mod m) \<or> (m = 2 * (a mod m) \<and> odd (a div m))")
    case True
    then have "round_half_even a m * m - a = m - a mod m"
      using a by (auto simp: round_half_even_def Let_def algebra_simps)
    moreover have "m \<le> 2 * (a mod m)" using True by auto
    ultimately show ?thesis using r by (simp add: abs_if)
  next
    case False
    then have "round_half_even a m * m - a = - (a mod m)"
      using a by (auto simp: round_half_even_def Let_def algebra_simps)
    moreover have "2 * (a mod m) \<le> m" using False by auto
    ultimately show ?thesis using r by simp
  qed
qed

lemma Number_abs_error: "2 ^ 53 * \<bar>Number n - n\<bar> \<le> \<bar>n\<bar>"
proof (cases "\<bar>n\<bar> \<le> 2 ^ 53")
  case True
  then show ?thesis by (simp add: Number_exact)
next
  case False
  define k where "k = nat (bitlen \<bar>n\<bar> - 53)"
  have pos: "0 < \<bar>n\<bar>" using False by auto
  have lo: "2 ^ nat (bitlen \<bar>n\<bar> - 1) \<le> \<bar>n\<bar>" and hi: "\<bar>n\<bar> < 2 ^ nat (bitlen \<bar>n\<bar>)"
    using bitlen_bounds [OF pos] by auto
  have "53 < bitlen \<bar>n\<bar>"
  proof (rule ccontr)
    assume "\<not> 53 < bitlen \<bar>n\<bar>"
    then have "(2::int) ^ nat (bitlen \<bar>n\<bar>) \<le> 2 ^ 53"
      by (intro power_increasing) auto
    with hi False show False by linarith
  qed
  then have "nat (bitlen \<bar>n\<bar> - 1) = 52 + k" unfolding k_def by linarith
  with lo have lo': "2 ^ 52 * 2 ^ k \<le> \<bar>n\<bar>" by (simp add: power_add)
  have "Number n - n = sgn n * (round_half_even \<bar>n\<bar> (2 ^ k) * 2 ^ k - \<bar>n\<bar>)"
    using False by (simp add: Number_def k_def Let_def algebra_simps abs_mult_sgn)
  then have "\<bar>Number n - n\<bar> = \<bar>round_half_even \<bar>n\<bar> (2 ^ k) * 2 ^ k - \<bar>n\<bar>\<bar>"
    using pos by (simp add: abs_mult sgn_if)
  with round_half_even_error [of "2 ^ k" "\<bar>n\<bar>"] have "2 * \<bar>Number n - n\<bar> \<le> 2 ^ k" by simp
  then have "2 ^ 52 * (2 * \<bar>Number n - n\<bar>) \<le> 2 ^ 52 * 2 ^ k" by (intro mult_left_mono) auto
  with lo' show ?thesis by simp
qed

end
