(* ===== verification/Json.thy ===== *)
theory Json
  imports Js_Numbers
begin

text \<open>
  Values that reach the code from outside, and JSON.

  \<^item> \<open>jsval\<close> is a value of TypeScript type \<open>unknown\<close>: what a server function receives before
    its validator has looked at it, and the raw search parameters of a route.
  \<^item> \<open>JSON_parse\<close> is \<open>JSON.parse\<close> as a recursive-descent parser over the ECMA-404 grammar; a
    number keeps its source text, since the sources read no number from parsed text. The parser
    spends one unit of fuel per nested value or member; \<open>JSON_parse_fuel\<close> shows that the fuel
    it is started with is enough.
  \<^item> \<open>JSON_stringify\<close> is \<open>JSON.stringify\<close> of an object whose values are strings, the only
    kind the sources write, with the well-formed quoting of lone surrogates.
\<close>

section \<open>Values of type unknown\<close>

datatype jsval =
    Undefined
  | Null
  | Bool bool
  | Num jsnum
  | Str jsstring
  | Arr "jsval list"
  | Obj "(jsstring \<times> jsval) list"

text \<open>\<open>(input ?? {}) as Record<string, unknown>\<close> and a property read of the result.\<close>

definition or_empty :: "jsval \<Rightarrow> jsval" where
  "or_empty v = (case v of Undefined \<Rightarrow> Obj [] | Null \<Rightarrow> Obj [] | _ \<Rightarrow> v)"

fun get_prop :: "jsval \<Rightarrow> string \<Rightarrow> jsval" where
  "get_prop (Obj ps) k = (case js_Map ps (js k) of None \<Rightarrow> Undefined | Some v \<Rightarrow> v)"
| "get_prop _ k = Undefined"

section \<open>JSON text\<close>

datatype json =
    JNull
  | JBool bool
  | JNumber jsstring
  | JString jsstring
  | JArray "json list"
  | JObject "(jsstring \<times> json) list"

type_synonym 'a parser = "jsstring \<Rightarrow> ('a \<times> jsstring) option"

definition skip_ws :: "jsstring \<Rightarrow> jsstring" where
  "skip_ws = dropWhile (\<lambda>c. c \<in> {9, 10, 13, 32})"

definition hex4_value :: "code_unit \<Rightarrow> code_unit \<Rightarrow> code_unit \<Rightarrow> code_unit \<Rightarrow> code_unit option" where
  "hex4_value a b c d = map_option of_nat (radix_value 16 0 [a, b, c, d])"

definition unescape :: "code_unit \<Rightarrow> code_unit option" where
  "unescape e =
     (if e = 34 then Some 34 else if e = 92 then Some 92 else if e = 47 then Some 47
      else if e = 98 then Some 8 else if e = 102 then Some 12 else if e = 110 then Some 10
      else if e = 114 then Some 13 else if e = 116 then Some 9 else None)"

text \<open>The characters of a string after its opening quote.\<close>

fun parse_chars :: "jsstring parser" where
  "parse_chars [] = None"
| "parse_chars (c # s) =
     (if c = 34 then Some ([], s)
      else if c = 92 then
        (case s of
           [] \<Rightarrow> None
         | e # s' \<Rightarrow>
             if e = 117 then
               (case s' of
                  h1 # h2 # h3 # h4 # s'' \<Rightarrow>
                    (case hex4_value h1 h2 h3 h4 of
                       None \<Rightarrow> None
                     | Some u \<Rightarrow> map_option (\<lambda>(t, r). (u # t, r)) (parse_chars s''))
                | _ \<Rightarrow> None)
             else
               (case unescape e of
                  None \<Rightarrow> None
                | Some u \<Rightarrow> map_option (\<lambda>(t, r). (u # t, r)) (parse_chars s')))
      else if c < 32 then None
      else map_option (\<lambda>(t, r). (c # t, r)) (parse_chars s))"

definition digits1 :: "jsstring parser" where
  "digits1 s = (let d = takeWhile is_digit s in
     if d = [] then None else Some (d, dropWhile is_digit s))"

definition int_part :: "jsstring parser" where
  "int_part s = (case s of [] \<Rightarrow> None
     | c # r \<Rightarrow> if c = 48 then Some ([c], r) else digits1 s)"

definition frac_part :: "jsstring parser" where
  "frac_part s = (case s of [] \<Rightarrow> Some ([], s)
     | c # r \<Rightarrow> if c = 46 then map_option (\<lambda>(d, t). (c # d, t)) (digits1 r) else Some ([], s))"

definition exp_part :: "jsstring parser" where
  "exp_part s = (case s of [] \<Rightarrow> Some ([], s)
     | c # r \<Rightarrow>
         if c = 101 \<or> c = 69 then
           (case r of
              g # r' \<Rightarrow>
                if g = 43 \<or> g = 45 then map_option (\<lambda>(d, t). (c # g # d, t)) (digits1 r')
                else map_option (\<lambda>(d, t). (c # d, t)) (digits1 r)
            | [] \<Rightarrow> None)
         else Some ([], s))"

definition parse_number :: "json parser" where
  "parse_number s =
     (let (m, s0) = (case s of c # r \<Rightarrow> if c = 45 then ([c], r) else ([], s) | [] \<Rightarrow> ([], s)) in
      case int_part s0 of None \<Rightarrow> None | Some (i, s1) \<Rightarrow>
      case frac_part s1 of None \<Rightarrow> None | Some (f, s2) \<Rightarrow>
      case exp_part s2 of None \<Rightarrow> None | Some (e, s3) \<Rightarrow> Some (JNumber (m @ i @ f @ e), s3))"

definition parse_literal :: "json parser" where
  "parse_literal s =
     (if startsWith s (js ''null'') then Some (JNull, drop 4 s)
      else if startsWith s (js ''true'') then Some (JBool True, drop 4 s)
      else if startsWith s (js ''false'') then Some (JBool False, drop 5 s)
      else parse_number s)"

fun parse_value :: "nat \<Rightarrow> json parser"
  and parse_elements :: "nat \<Rightarrow> json list parser"
  and parse_members :: "nat \<Rightarrow> (jsstring \<times> json) list parser" where
  "parse_value 0 s = None"
| "parse_value (Suc n) s =
     (case skip_ws s of
        [] \<Rightarrow> None
      | c # r \<Rightarrow>
          if c = 34 then map_option (\<lambda>(t, r'). (JString t, r')) (parse_chars r)
          else if c = 123 then
            (case skip_ws r of
               [] \<Rightarrow> None
             | d # r' \<Rightarrow> if d = 125 then Some (JObject [], r')
                        else map_option (\<lambda>(ms, t). (JObject ms, t)) (parse_members n (d # r')))
          else if c = 91 then
            (case skip_ws r of
               [] \<Rightarrow> None
             | d # r' \<Rightarrow> if d = 93 then Some (JArray [], r')
                        else map_option (\<lambda>(vs, t). (JArray vs, t)) (parse_elements n (d # r')))
          else parse_literal (c # r))"
| "parse_elements 0 s = None"
| "parse_elements (Suc n) s =
     (case parse_value n s of
        None \<Rightarrow> None
      | Some (v, r) \<Rightarrow>
          (case skip_ws r of
             [] \<Rightarrow> None
           | d # r' \<Rightarrow> if d = 93 then Some ([v], r')
                      else if d = 44 then map_option (\<lambda>(vs, t). (v # vs, t)) (parse_elements n r')
                      else None))"
| "parse_members 0 s = None"
| "parse_members (Suc n) s =
     (case skip_ws s of
        [] \<Rightarrow> None
      | c # r \<Rightarrow>
          if c \<noteq> 34 then None
          else (case parse_chars r of
             None \<Rightarrow> None
           | Some (k, r1) \<Rightarrow>
               (case skip_ws r1 of
                  [] \<Rightarrow> None
                | d # r2 \<Rightarrow>
                    if d \<noteq> 58 then None
                    else (case parse_value n r2 of
                       None \<Rightarrow> None
                     | Some (v, r3) \<Rightarrow>
                         (case skip_ws r3 of
                            [] \<Rightarrow> None
                          | e # r4 \<Rightarrow>
                              if e = 125 then Some ([(k, v)], r4)
                              else if e = 44 then
                                map_option (\<lambda>(ms, t). ((k, v) # ms, t)) (parse_members n r4)
                              else None)))))"

text \<open>The fuel: elements and members cost one unit besides that of their value.\<close>

definition json_fuel :: "jsstring \<Rightarrow> nat" where
  "json_fuel s = 2 * length s + 2"

text \<open>\<open>JSON.parse(s)\<close>; \<open>None\<close> is its SyntaxError.\<close>

definition JSON_parse :: "jsstring \<Rightarrow> json option" where
  "JSON_parse s =
     (case parse_value (json_fuel s) s of
        Some (v, r) \<Rightarrow> if skip_ws r = [] then Some v else None
      | None \<Rightarrow> None)"

text \<open>A property read of a parsed value; \<open>None\<close> is the TypeError on \<open>null\<close>.\<close>

fun json_prop :: "json \<Rightarrow> string \<Rightarrow> json option option" where
  "json_prop JNull k = None"
| "json_prop (JObject ms) k = Some (js_Map ms (js k))"
| "json_prop _ k = Some None"

subsection \<open>Writing\<close>

definition hex_digit :: "nat \<Rightarrow> code_unit" where
  "hex_digit d = of_nat (if d < 10 then 48 + d else 87 + d)"

definition unicode_escape :: "code_unit \<Rightarrow> jsstring" where
  "unicode_escape c =
     (let n = unat c in
      [92, 117, hex_digit (n div 4096), hex_digit (n div 256 mod 16),
       hex_digit (n div 16 mod 16), hex_digit (n mod 16)])"

definition is_lead :: "code_unit \<Rightarrow> bool" where
  "is_lead c \<longleftrightarrow> 0xD800 \<le> c \<and> c \<le> 0xDBFF"

definition is_trail :: "code_unit \<Rightarrow> bool" where
  "is_trail c \<longleftrightarrow> 0xDC00 \<le> c \<and> c \<le> 0xDFFF"

definition quote_unit :: "code_unit \<Rightarrow> jsstring" where
  "quote_unit c =
     (if c = 8 then [92, 98] else if c = 9 then [92, 116] else if c = 10 then [92, 110]
      else if c = 12 then [92, 102] else if c = 13 then [92, 114]
      else if c = 34 then [92, 34] else if c = 92 then [92, 92]
      else if c < 32 \<or> is_lead c \<or> is_trail c then unicode_escape c
      else [c])"

fun quote_units :: "jsstring \<Rightarrow> jsstring" where
  "quote_units (c # d # s) =
     (if is_lead c \<and> is_trail d then c # d # quote_units s else quote_unit c @ quote_units (d # s))"
| "quote_units [c] = quote_unit c"
| "quote_units [] = []"

definition JSON_quote :: "jsstring \<Rightarrow> jsstring" where
  "JSON_quote s = [34] @ quote_units s @ [34]"

definition JSON_member :: "jsstring \<times> jsstring \<Rightarrow> jsstring" where
  "JSON_member m = JSON_quote (fst m) @ [58] @ JSON_quote (snd m)"

definition JSON_stringify :: "(jsstring \<times> jsstring) list \<Rightarrow> jsstring" where
  "JSON_stringify ms = [123] @ join [44] (map JSON_member ms) @ [125]"

section \<open>The parser consumes its input\<close>

lemma length_skip_ws: "length (skip_ws s) \<le> length s"
  by (simp add: skip_ws_def length_dropWhile_le)

lemma skip_ws_ConsD: "skip_ws s = c # r \<Longrightarrow> length r < length s"
  using length_skip_ws [of s] by simp

lemma parse_chars_length: "parse_chars s = Some (t, r) \<Longrightarrow> length r < length s"
  by (induction s arbitrary: t r rule: parse_chars.induct)
     (fastforce split: if_splits list.splits option.splits)+

lemma digits1_length: "digits1 s = Some (d, r) \<Longrightarrow> length r < length s"
proof -
  assume "digits1 s = Some (d, r)"
  then have "s = takeWhile is_digit s @ r" and "takeWhile is_digit s \<noteq> []"
    by (auto simp: digits1_def Let_def split: if_splits)
  then show ?thesis by (metis length_append length_greater_0_conv less_add_same_cancel2)
qed

lemma int_part_length: "int_part s = Some (d, r) \<Longrightarrow> length r < length s"
  by (auto simp: int_part_def dest: digits1_length split: list.splits if_splits)

lemma frac_part_length: "frac_part s = Some (d, r) \<Longrightarrow> length r \<le> length s"
  by (auto simp: frac_part_def dest: digits1_length split: list.splits if_splits)

lemma exp_part_length: "exp_part s = Some (d, r) \<Longrightarrow> length r \<le> length s"
  by (auto simp: exp_part_def dest!: digits1_length split: list.splits if_splits)

lemma parse_number_length: "parse_number s = Some (v, r) \<Longrightarrow> length r < length s"
  by (fastforce simp: parse_number_def Let_def
      dest: int_part_length frac_part_length exp_part_length
      split: list.splits if_splits option.splits prod.splits)

lemma parse_literal_length: "parse_literal s = Some (v, r) \<Longrightarrow> length r < length s"
  by (auto simp: parse_literal_def startsWith_iff dest: parse_number_length split: if_splits)

lemmas parse_lengths = parse_chars_length parse_literal_length skip_ws_ConsD

lemma parse_length:
  "parse_value n s = Some (v, r) \<Longrightarrow> length r < length s"
  "parse_elements n s = Some (vs, r) \<Longrightarrow> length r < length s"
  "parse_members n s = Some (ms, r) \<Longrightarrow> length r < length s"
proof (induction n arbitrary: s v vs ms r)
  case (Suc n)
  {
    case 1
    then show ?case
      by (auto split: list.splits if_splits dest!: parse_lengths Suc)
  next
    case 2
    then show ?case
      by (auto split: list.splits if_splits option.splits dest!: parse_lengths Suc)
  next
    case 3
    then show ?case
      by (auto split: list.splits if_splits option.splits dest!: parse_lengths Suc)
  }
qed simp_all

section \<open>The fuel is enough\<close>

lemma parse_fuel_step:
  "2 * length s < n \<Longrightarrow> parse_value (Suc n) s = parse_value n s"
  "2 * length s + 1 < n \<Longrightarrow> parse_elements (Suc n) s = parse_elements n s"
  "2 * length s + 1 < n \<Longrightarrow> parse_members (Suc n) s = parse_members n s"
proof (induction n arbitrary: s)
  case (Suc n)
  {
    case 1
    have "parse_elements (Suc n) (d # r') = parse_elements n (d # r')"
      and "parse_members (Suc n) (d # r') = parse_members n (d # r')"
      if "skip_ws s = c # r" "skip_ws r = d # r'" for c r d r'
      using that 1 Suc.IH(2,3) [of "d # r'"] length_skip_ws [of s] length_skip_ws [of r] by auto
    then show ?case
      by (simp only: parse_value.simps) (auto split: list.splits)
  next
    case 2
    have "parse_value (Suc n) s = parse_value n s" using 2 Suc.IH(1) by simp
    moreover have "parse_elements (Suc n) r' = parse_elements n r'"
      if "parse_value n s = Some (v, r)" "skip_ws r = d # r'" for v r d r'
      using that 2 Suc.IH(2) [of r'] parse_length(1) [OF that(1)] skip_ws_ConsD [OF that(2)] by simp
    ultimately show ?case
      by (simp only: parse_elements.simps) (auto split: list.splits option.splits)
  next
    case 3
    have "parse_value (Suc n) r2 = parse_value n r2"
      if "skip_ws s = c # r" "parse_chars r = Some (k, r1)" "skip_ws r1 = d # r2" for c r k r1 d r2
      using that 3 Suc.IH(1) [of r2] skip_ws_ConsD [OF that(1)] skip_ws_ConsD [OF that(3)]
        parse_chars_length [OF that(2)] by simp
    moreover have "parse_members (Suc n) r4 = parse_members n r4"
      if "skip_ws s = c # r" "parse_chars r = Some (k, r1)" "skip_ws r1 = d # r2"
        "parse_value n r2 = Some (v, r3)" "skip_ws r3 = e # r4" for c r k r1 d r2 v r3 e r4
      using that 3 Suc.IH(3) [of r4] skip_ws_ConsD [OF that(1)] skip_ws_ConsD [OF that(3)]
        parse_chars_length [OF that(2)] parse_length(1) [OF that(4)] skip_ws_ConsD [OF that(5)]
      by simp
    ultimately show ?case
      by (simp only: parse_members.simps) (auto split: list.splits option.splits)
  }
qed simp_all

lemma JSON_parse_fuel: "json_fuel s \<le> n \<Longrightarrow> parse_value n s = parse_value (json_fuel s) s"
proof (induction n rule: dec_induct)
  case (step n)
  then show ?case using parse_fuel_step(1) [of s n] by (simp add: json_fuel_def)
qed simp

section \<open>Reading back what was written\<close>

lemma digit_value_hex_digit: "d < 16 \<Longrightarrow> digit_value (hex_digit d) = Some d"
proof -
  assume d: "d < 16"
  then have "unat (hex_digit d) = (if d < 10 then 48 + d else 87 + d)"
    by (simp add: hex_digit_def unat_of_nat take_bit_nat_eq_self del: of_nat_add)
  with d show ?thesis by (auto simp: digit_value_def word_le_nat_alt split: if_splits)
qed

lemma hex4_value_digits:
  "hex4_value (hex_digit (unat c div 4096)) (hex_digit (unat c div 256 mod 16))
     (hex_digit (unat c div 16 mod 16)) (hex_digit (unat c mod 16)) = Some c"
proof -
  define n where "n = unat c"
  have "n < 65536"
    unfolding n_def by (rule order.strict_trans2 [OF unsigned_less]) simp
  then have q: "n div 4096 < 16" by (simp add: less_mult_imp_div_less)
  have "n div 256 div 16 = n div 4096" "n div 16 div 16 = n div 256"
    by (simp_all add: div_mult2_eq [symmetric])
  then have v: "16 * (16 * (16 * (n div 4096) + n div 256 mod 16) + n div 16 mod 16) + n mod 16 = n"
    using mult_div_mod_eq [of 16 "n div 256"] mult_div_mod_eq [of 16 "n div 16"]
      mult_div_mod_eq [of 16 n] by simp
  have "(of_nat n :: code_unit) = c" by (simp add: n_def)
  with q v show ?thesis
    by (simp add: hex4_value_def digit_value_hex_digit n_def [symmetric] del: of_nat_add of_nat_mult)
qed

lemma parse_chars_escape:
  "parse_chars (unicode_escape c @ s) = map_option (\<lambda>(t, r). (c # t, r)) (parse_chars s)"
  by (simp add: unicode_escape_def Let_def hex4_value_digits)

lemma parse_chars_plain:
  "\<not> c < 32 \<Longrightarrow> c \<noteq> 34 \<Longrightarrow> c \<noteq> 92 \<Longrightarrow>
    parse_chars (c # s) = map_option (\<lambda>(t, r). (c # t, r)) (parse_chars s)"
  by simp

lemma parse_chars_quote_unit:
  "parse_chars (quote_unit c @ s) = map_option (\<lambda>(t, r). (c # t, r)) (parse_chars s)"
proof (cases "c < 32 \<or> is_lead c \<or> is_trail c \<or> c = 34 \<or> c = 92")
  case True
  then show ?thesis
    by (auto simp: quote_unit_def parse_chars_escape unescape_def simp del: parse_chars.simps
        intro: parse_chars.simps(2) [THEN trans])
next
  case False
  then have "quote_unit c = [c]"
    by (auto simp: quote_unit_def)
  with False show ?thesis by simp
qed

lemma surrogate_plain: "is_lead c \<or> is_trail c \<Longrightarrow> \<not> c < 32 \<and> c \<noteq> 34 \<and> c \<noteq> 92"
  by (auto simp: is_lead_def is_trail_def word_le_nat_alt word_less_nat_alt)

lemma parse_chars_quote_units: "parse_chars (quote_units t @ 34 # r) = Some (t, r)"
proof (induction t rule: quote_units.induct)
  case (1 c d s)
  show ?case
  proof (cases "is_lead c \<and> is_trail d")
    case True
    then have "quote_units (c # d # s) @ 34 # r = c # d # (quote_units s @ 34 # r)" by simp
    moreover have "\<not> c < 32 \<and> c \<noteq> 34 \<and> c \<noteq> 92" and "\<not> d < 32 \<and> d \<noteq> 34 \<and> d \<noteq> 92"
      using True surrogate_plain by auto
    ultimately show ?thesis
      using 1(1) [OF True] by (simp only: parse_chars_plain) simp
  next
    case False
    then have "quote_units (c # d # s) @ 34 # r = quote_unit c @ (quote_units (d # s) @ 34 # r)"
      by (simp only: quote_units.simps False if_False append_assoc)
    with 1(2) [OF False] show ?thesis by (simp only: parse_chars_quote_unit) simp
  qed
next
  case (2 c)
  show ?case by (simp only: quote_units.simps parse_chars_quote_unit) simp
qed simp

lemma skip_ws_id: "c \<notin> {9, 10, 13, 32} \<Longrightarrow> skip_ws (c # s) = c # s"
  by (simp add: skip_ws_def)

lemma parse_value_quote: "parse_value (Suc n) (JSON_quote t @ r) = Some (JString t, r)"
proof -
  have "JSON_quote t @ r = 34 # (quote_units t @ 34 # r)" by (simp add: JSON_quote_def)
  then show ?thesis
    by (simp only: parse_value.simps) (simp add: skip_ws_id parse_chars_quote_units)
qed

lemma parse_member_step:
  "parse_members (Suc (Suc n)) (JSON_member (k, v) @ 125 # r) = Some ([(k, JString v)], r)"
  "parse_members (Suc (Suc n)) (JSON_member (k, v) @ 44 # r) =
     map_option (\<lambda>(ms, t). ((k, JString v) # ms, t)) (parse_members (Suc n) r)"
proof -
  have m: "JSON_member (k, v) @ s = 34 # (quote_units k @ 34 # 58 # (JSON_quote v @ s))" for s
    by (simp add: JSON_member_def JSON_quote_def)
  show "parse_members (Suc (Suc n)) (JSON_member (k, v) @ 125 # r) = Some ([(k, JString v)], r)"
    unfolding m parse_members.simps(2) [of "Suc n"]
    by (simp add: skip_ws_id parse_chars_quote_units parse_value_quote del: parse_value.simps)
  show "parse_members (Suc (Suc n)) (JSON_member (k, v) @ 44 # r) =
     map_option (\<lambda>(ms, t). ((k, JString v) # ms, t)) (parse_members (Suc n) r)"
    unfolding m parse_members.simps(2) [of "Suc n"]
    by (simp add: skip_ws_id parse_chars_quote_units parse_value_quote
        del: parse_value.simps parse_members.simps)
qed

lemma parse_members_join:
  "ms \<noteq> [] \<Longrightarrow> parse_members (length ms + Suc n) (join [44] (map JSON_member ms) @ 125 # r) =
      Some (map (\<lambda>(k, v). (k, JString v)) ms, r)"
proof (induction ms)
  case (Cons m ms)
  obtain k v where m: "m = (k, v)" by (cases m)
  show ?case
  proof (cases "ms = []")
    case True
    then show ?thesis using parse_member_step(1) [of n k v r] by (simp add: m del: parse_members.simps)
  next
    case False
    then have j: "join [44] (map JSON_member (m # ms)) @ 125 # r =
        JSON_member (k, v) @ 44 # (join [44] (map JSON_member ms) @ 125 # r)"
      by (cases ms) (simp_all add: m)
    have "length (m # ms) + Suc n = Suc (Suc (length ms + n))"
      and "length ms + Suc n = Suc (length ms + n)" by simp_all
    with Cons.IH [OF False] show ?thesis
      unfolding j by (simp add: m parse_member_step(2) del: parse_members.simps)
  qed
qed simp

lemma length_join_ge:
  "(\<And>x. x \<in> set xs \<Longrightarrow> x \<noteq> []) \<Longrightarrow> length xs \<le> length (join sep xs)"
proof (induction sep xs rule: join.induct)
  case (3 sep x y ys)
  then have "length (y # ys) \<le> length (join sep (y # ys))" and "x \<noteq> []" by auto
  then show ?case by (cases x) auto
qed (auto simp: Suc_le_eq)

lemma JSON_member_Cons: "JSON_member m = 34 # tl (JSON_member m)"
  by (simp add: JSON_member_def JSON_quote_def)

lemma JSON_roundtrip:
  "JSON_parse (JSON_stringify ms) = Some (JObject (map (\<lambda>(k, v). (k, JString v)) ms))"
proof (cases "ms = []")
  case True
  have "parse_value (Suc 5) [123, 125] = Some (JObject [], [])"
    by (simp only: parse_value.simps(2)) (simp add: skip_ws_id)
  then show ?thesis
    by (simp add: JSON_parse_def True JSON_stringify_def json_fuel_def skip_ws_def)
next
  case False
  let ?j = "join [44] (map JSON_member ms)"
  have "length ms \<le> length ?j"
    using length_join_ge [of "map JSON_member ms" "[44]"] by (auto simp: JSON_member_def JSON_quote_def)
  then obtain n where n: "json_fuel (JSON_stringify ms) = Suc (length ms + Suc n)"
    by (intro that [of "2 * length ?j + 4 - length ms"]) (simp add: json_fuel_def JSON_stringify_def)
  obtain t where t: "?j = 34 # t"
    using False JSON_member_Cons by (cases ms; cases "tl ms") (auto, metis append_Cons)
  have "parse_value (Suc (length ms + Suc n)) (JSON_stringify ms) =
      Some (JObject (map (\<lambda>(k, v). (k, JString v)) ms), [])"
    using parse_members_join [OF False, of n "[]"]
    by (simp add: JSON_stringify_def t skip_ws_id del: parse_members.simps)
  then show ?thesis by (simp only: JSON_parse_def n) (simp add: skip_ws_def)
qed

end
