(* ===== verification/Upload_Session.thy ===== *)
theory Upload_Session
  imports Json
begin

text \<open>
  The persisted upload sessions of \<open>web/src/lib/multipartUpload.ts\<close>: the fingerprint of a file,
  and \<open>loadSession\<close>, \<open>saveSession\<close>, \<open>clearSession\<close> over the browser's \<open>localStorage\<close>, where a
  session is JSON text. The locale \<open>session_store\<close> is the contract the upload driver relies on, a
  keyed store that may be absent or full; it is interpreted on the three functions.
\<close>

section \<open>Files and fingerprints\<close>

text \<open>
  \<open>FileLike\<close>: the two numbers are integers, printed in decimal; \<open>slice\<close> returns a blob.
\<close>

record 'blob FileLike =
  fl_name :: jsstring
  fl_size :: int
  fl_lastModified :: int
  fl_slice :: "int \<Rightarrow> int \<Rightarrow> 'blob"

definition fileFingerprint :: "'blob FileLike \<Rightarrow> jsstring" where
  "fileFingerprint file =
     fl_name file @ js '':'' @ bigint_toString (fl_size file) @ js '':''
       @ bigint_toString (fl_lastModified file)"

section \<open>Local storage\<close>

text \<open>
  \<open>localStorage\<close> is undefined outside a browser. \<open>setItem\<close> throws when the items would no longer
  fit the quota, of which nothing is known.
\<close>

record web_storage =
  ws_items :: "jsstring \<rightharpoonup> jsstring"
  ws_fits :: "(jsstring \<rightharpoonup> jsstring) \<Rightarrow> bool"

type_synonym storage = "web_storage option"

definition QuotaExceededError :: js_error where
  "QuotaExceededError =
     \<lparr>err_name = js ''QuotaExceededError'', err_message = js ''The quota has been exceeded.''\<rparr>"

definition setItem :: "jsstring \<Rightarrow> jsstring \<Rightarrow> (unit, web_storage) async" where
  "setItem k v ws =
     (let items = (ws_items ws)(k \<mapsto> v) in
      if ws_fits ws items then (Inr (), ws\<lparr>ws_items := items\<rparr>) else (Inl QuotaExceededError, ws))"

definition removeItem :: "jsstring \<Rightarrow> web_storage \<Rightarrow> web_storage" where
  "removeItem k ws = ws\<lparr>ws_items := (ws_items ws)(k := None)\<rparr>"

section \<open>Sessions\<close>

record StoredSession =
  ss_uploadId :: jsstring
  ss_fingerprint :: jsstring

definition session_key :: "jsstring \<Rightarrow> jsstring" where
  "session_key key = js ''multipart-upload:'' @ key"

text \<open>The body of the \<open>try\<close>: \<open>None\<close> is a syntax error, a type error or a value of another shape.\<close>

definition parse_session :: "jsstring \<Rightarrow> StoredSession option" where
  "parse_session raw =
     (case JSON_parse raw of
        None \<Rightarrow> None
      | Some parsed \<Rightarrow>
         (case (json_prop parsed ''uploadId'', json_prop parsed ''fingerprint'') of
            (Some (Some (JString u)), Some (Some (JString f))) \<Rightarrow>
              Some \<lparr>ss_uploadId = u, ss_fingerprint = f\<rparr>
          | _ \<Rightarrow> None))"

definition loadSession :: "jsstring \<Rightarrow> storage \<Rightarrow> StoredSession option" where
  "loadSession key st =
     (case st of
        None \<Rightarrow> None
      | Some ws \<Rightarrow>
         (case ws_items ws (session_key key) of
            None \<Rightarrow> None
          | Some raw \<Rightarrow> if raw = [] then None else parse_session raw))"

definition saveSession :: "jsstring \<Rightarrow> StoredSession \<Rightarrow> (unit, storage) async" where
  "saveSession key session st =
     (case st of
        None \<Rightarrow> (Inr (), None)
      | Some ws \<Rightarrow>
         (case setItem (session_key key)
            (JSON_stringify [(js ''uploadId'', ss_uploadId session),
                             (js ''fingerprint'', ss_fingerprint session)]) ws of
            (r, ws') \<Rightarrow> (r, Some ws')))"

definition clearSession :: "jsstring \<Rightarrow> storage \<Rightarrow> storage" where
  "clearSession key st = map_option (removeItem (session_key key)) st"

section \<open>The contract of a session store\<close>

locale session_store =
  fixes load :: "'k \<Rightarrow> 'st \<Rightarrow> 'v option"
    and save :: "'k \<Rightarrow> 'v \<Rightarrow> (unit, 'st) async"
    and clear :: "'k \<Rightarrow> 'st \<Rightarrow> 'st"
    and present :: "'st \<Rightarrow> bool"
  assumes load_save: "save k v st = (Inr (), st') \<Longrightarrow> present st \<Longrightarrow> load k st' = Some v"
    and load_save_other: "save k v st = (r, st') \<Longrightarrow> k \<noteq> k' \<Longrightarrow> load k' st' = load k' st"
    and save_throws: "save k v st = (Inl e, st') \<Longrightarrow> st' = st"
    and present_save: "save k v st = (r, st') \<Longrightarrow> present st' = present st"
    and load_clear: "load k (clear k st) = None"
    and load_clear_other: "k \<noteq> k' \<Longrightarrow> load k' (clear k st) = load k' st"
    and present_clear: "present (clear k st) = present st"
    and load_absent: "\<not> present st \<Longrightarrow> load k st = None"
begin

text \<open>What is loaded after a save that may have thrown is the new session or the old one.\<close>

lemma load_after_save:
  assumes "save k v st = (r, st')"
  shows "load k st' =
    (if present st then (case r of Inl _ \<Rightarrow> load k st | Inr _ \<Rightarrow> Some v) else None)"
proof (cases "present st")
  case True
  then show ?thesis using assms by (cases r) (auto dest: load_save save_throws)
next
  case False
  with present_save [OF assms] load_absent [of st' k] show ?thesis by simp
qed

end

lemma session_key_inject [simp]: "session_key k = session_key k' \<longleftrightarrow> k = k'"
  by (simp add: session_key_def)

lemma parse_stringify:
  "parse_session (JSON_stringify [(js ''uploadId'', u), (js ''fingerprint'', f)]) =
    Some \<lparr>ss_uploadId = u, ss_fingerprint = f\<rparr>"
  by (simp add: parse_session_def JSON_roundtrip js_Map_Cons map_add_def)

lemma JSON_stringify_not_Nil [simp]: "JSON_stringify ms \<noteq> []"
  by (simp add: JSON_stringify_def)

interpretation sessions: session_store loadSession saveSession clearSession "\<lambda>st. st \<noteq> None"
  by unfold_locales
    (auto simp: loadSession_def saveSession_def clearSession_def setItem_def removeItem_def
      Let_def parse_stringify split: option.splits if_splits prod.splits)

text \<open>A session that could not be stored leaves the storage as it was.\<close>

lemma saveSession_fails: "saveSession key session st = (Inl e, st') \<Longrightarrow> st' = st"
  by (auto simp: saveSession_def setItem_def Let_def split: option.splits if_splits)

section \<open>Properties\<close>

text \<open>
  C29. Sessions persist: a session that was saved without a throw is what \<open>loadSession\<close> returns for
  its key, through the JSON text and whatever characters the id and the fingerprint contain; the
  sessions of other keys stay as they were; after \<open>clearSession\<close> nothing is found.
\<close>

theorem session_roundtrip:
  assumes "saveSession key session st = (Inr (), st')" and "st \<noteq> None"
  shows "loadSession key st' = Some session
    \<and> loadSession key (clearSession key st') = None
    \<and> (key' \<noteq> key \<longrightarrow> loadSession key' st' = loadSession key' st
        \<and> loadSession key' (clearSession key st') = loadSession key' st)"
  using sessions.load_save [OF assms] sessions.load_clear [of key st']
    sessions.load_save_other [OF assms(1), of key'] sessions.load_clear_other [of key key' st']
  by auto

theorem session_roundtrip_witness:
  "loadSession (js ''k'') (snd (saveSession (js ''k'') \<lparr>ss_uploadId = js ''u'', ss_fingerprint = js ''f''\<rparr>
      (Some \<lparr>ws_items = Map.empty, ws_fits = (\<lambda>_. True)\<rparr>))) =
    Some \<lparr>ss_uploadId = js ''u'', ss_fingerprint = js ''f''\<rparr>"
  using session_roundtrip [of "js ''k''" "\<lparr>ss_uploadId = js ''u'', ss_fingerprint = js ''f''\<rparr>"
      "Some \<lparr>ws_items = Map.empty, ws_fits = (\<lambda>_. True)\<rparr>"]
  by (simp add: saveSession_def setItem_def)

lemma append_sep_inject:
  assumes "c \<notin> set ys" and "c \<notin> set ys'"
  shows "xs @ c # ys = xs' @ c # ys' \<longleftrightarrow> xs = xs' \<and> ys = ys'"
proof
  assume eq: "xs @ c # ys = xs' @ c # ys'"
  have tw: "takeWhile (\<lambda>x. x \<noteq> c) (rev (zs @ c # vs)) = rev vs" if "c \<notin> set vs" for zs vs
    using that by (auto simp: takeWhile_tail takeWhile_append2)
  from eq assms have "rev ys = rev ys'" by (metis tw)
  with eq show "xs = xs' \<and> ys = ys'" by simp
qed simp

lemma colon_not_in_toString: "58 \<notin> set (bigint_toString n)"
proof -
  have "\<not> is_digit 58" by (simp add: is_digit_def)
  then show ?thesis using dec_digits by (auto simp: bigint_toString_def js_def list_all_iff)
qed

text \<open>
  The fingerprint identifies exactly the name, the size and the modification time: files with
  equal fingerprints agree in all three, also when a name contains the separator.
\<close>

theorem fileFingerprint_inject:
  "fileFingerprint f = fileFingerprint g \<longleftrightarrow>
     fl_name f = fl_name g \<and> fl_size f = fl_size g \<and> fl_lastModified f = fl_lastModified g"
  using append_sep_inject [OF colon_not_in_toString colon_not_in_toString,
      of "fl_name f @ 58 # bigint_toString (fl_size f)" "fl_lastModified f"
      "fl_name g @ 58 # bigint_toString (fl_size g)" "fl_lastModified g"]
    append_sep_inject [OF colon_not_in_toString colon_not_in_toString,
      of "fl_name f" "fl_size f" "fl_name g" "fl_size g"]
  by (simp add: fileFingerprint_def js_def)

end
