(* ===== verification/Multipart.thy ===== *)
theory Multipart
  imports Upload_Plan Upload_Session
begin

text \<open>
  The resumable upload driver of \<open>web/src/lib/multipartUpload.ts\<close>. Its dependencies, which reach
  the server functions and the object store, are a record of async functions over the state \<open>'w\<close> of
  everything outside the browser tab; the abort signal is read from that state too, since it may
  change while any call is awaited. The driver's own state adds the local storage and the
  calls of \<open>onProgress\<close>.

  The theorems are about every behaviour of the dependencies. Where the object store matters, the
  predicate \<open>stores_parts\<close> states what a multipart store documents.
\<close>

section \<open>State and dependencies\<close>

record UploadedPartInfo =
  upi_number :: int
  upi_size :: int

record ('w, 'blob) MultipartUploadDeps =
  createMultipartUploadD :: "jsstring \<Rightarrow> jsstring \<Rightarrow> (jsstring, 'w) async"
  getUploadPartUrlD :: "jsstring \<Rightarrow> jsstring \<Rightarrow> int \<Rightarrow> (jsstring, 'w) async"
  listUploadedPartsD :: "jsstring \<Rightarrow> jsstring \<Rightarrow> (UploadedPartInfo list, 'w) async"
  completeMultipartUploadD :: "jsstring \<Rightarrow> jsstring \<Rightarrow> (unit, 'w) async"
  abortMultipartUploadD :: "jsstring \<Rightarrow> jsstring \<Rightarrow> (unit, 'w) async"
  putPartD :: "jsstring \<Rightarrow> 'blob \<Rightarrow> (unit, 'w) async"

record 'w upload_state =
  us_world :: 'w
  us_storage :: storage
  us_progress :: "(int \<times> int) list"

text \<open>\<open>signal.aborted\<close>, as a function of the world; a caller may pass no signal.\<close>

type_synonym 'w signal = "'w \<Rightarrow> bool"

definition NEVER_ABORTS :: "'w signal" where
  "NEVER_ABORTS w = False"

definition PART_RETRY_ATTEMPTS :: nat where
  "PART_RETRY_ATTEMPTS = 3"

definition UploadCancelledError :: "jsstring \<Rightarrow> js_error" where
  "UploadCancelledError key =
     \<lparr>err_name = js ''UploadCancelledError'',
      err_message = js ''upload of '' @ key @ js '' was cancelled''\<rparr>"

text \<open>Awaiting a dependency, and the two storage statements.\<close>

definition remote :: "('a, 'w) async \<Rightarrow> ('a, 'w upload_state) async" where
  "remote m s = (case m (us_world s) of (r, w') \<Rightarrow> (r, s\<lparr>us_world := w'\<rparr>))"

definition save_session :: "jsstring \<Rightarrow> StoredSession \<Rightarrow> (unit, 'w upload_state) async" where
  "save_session key session s =
     (case saveSession key session (us_storage s) of (r, st') \<Rightarrow> (r, s\<lparr>us_storage := st'\<rparr>))"

definition clear_session :: "jsstring \<Rightarrow> (unit, 'w upload_state) async" where
  "clear_session key s = (Inr (), s\<lparr>us_storage := clearSession key (us_storage s)\<rparr>)"

section \<open>The driver\<close>

definition createUpload ::
  "'blob FileLike \<Rightarrow> jsstring \<Rightarrow> jsstring \<Rightarrow> ('w, 'blob) MultipartUploadDeps \<Rightarrow>
     (jsstring \<times> (int \<rightharpoonup> int), 'w upload_state) async" where
  "createUpload file key contentType deps =
     await (remote (createMultipartUploadD deps key contentType)) (\<lambda>uploadId.
     await (save_session key \<lparr>ss_uploadId = uploadId, ss_fingerprint = fileFingerprint file\<rparr>) (\<lambda>_.
       ret (uploadId, Map.empty)))"

definition resumeOrCreateUpload ::
  "'blob FileLike \<Rightarrow> jsstring \<Rightarrow> jsstring \<Rightarrow> ('w, 'blob) MultipartUploadDeps \<Rightarrow>
     (jsstring \<times> (int \<rightharpoonup> int), 'w upload_state) async" where
  "resumeOrCreateUpload file key contentType deps s =
     (case loadSession key (us_storage s) of
        None \<Rightarrow> createUpload file key contentType deps s
      | Some existing \<Rightarrow>
          if ss_fingerprint existing = fileFingerprint file
          then try_catch
            (await (remote (listUploadedPartsD deps key (ss_uploadId existing))) (\<lambda>parts.
               ret (ss_uploadId existing, js_Map (map (\<lambda>p. (upi_number p, upi_size p)) parts))))
            (\<lambda>_. createUpload file key contentType deps) s
          else createUpload file key contentType deps s)"

text \<open>One turn of the retry loop: the URL is fetched anew for every attempt.\<close>

definition put_once ::
  "'blob FileLike \<Rightarrow> jsstring \<Rightarrow> jsstring \<Rightarrow> PartPlan \<Rightarrow> ('w, 'blob) MultipartUploadDeps \<Rightarrow>
     (unit, 'w upload_state) async" where
  "put_once file key uploadId part deps =
     await (remote (getUploadPartUrlD deps key uploadId (pp_partNumber part))) (\<lambda>url.
       remote (putPartD deps url (fl_slice file (pp_start part) (pp_end part))))"

definition exhausted :: "jsstring \<Rightarrow> PartPlan \<Rightarrow> js_error option \<Rightarrow> js_error" where
  "exhausted key part lastErr =
     Error (js ''part '' @ bigint_toString (pp_partNumber part) @ js '' of '' @ key
       @ js '' failed after '' @ bigint_toString (int PART_RETRY_ATTEMPTS) @ js '' attempts: ''
       @ (case lastErr of None \<Rightarrow> js ''undefined'' | Some e \<Rightarrow> String_of_error e))"

fun attempts ::
  "'blob FileLike \<Rightarrow> jsstring \<Rightarrow> jsstring \<Rightarrow> PartPlan \<Rightarrow> ('w, 'blob) MultipartUploadDeps \<Rightarrow> 'w signal \<Rightarrow>
     js_error option \<Rightarrow> nat \<Rightarrow> (unit, 'w upload_state) async" where
  "attempts file key uploadId part deps aborted lastErr 0 = throw (exhausted key part lastErr)"
| "attempts file key uploadId part deps aborted lastErr (Suc n) =
     try_catch (put_once file key uploadId part deps)
       (\<lambda>err s. if aborted (us_world s) then throw err s
                else attempts file key uploadId part deps aborted (Some err) n s)"

definition uploadPartWithRetry ::
  "'blob FileLike \<Rightarrow> jsstring \<Rightarrow> jsstring \<Rightarrow> PartPlan \<Rightarrow> ('w, 'blob) MultipartUploadDeps \<Rightarrow> 'w signal \<Rightarrow>
     (unit, 'w upload_state) async" where
  "uploadPartWithRetry file key uploadId part deps aborted =
     attempts file key uploadId part deps aborted None PART_RETRY_ATTEMPTS"

definition cancel ::
  "jsstring \<Rightarrow> jsstring \<Rightarrow> ('w, 'blob) MultipartUploadDeps \<Rightarrow> ('a, 'w upload_state) async" where
  "cancel key uploadId deps =
     await (remote (abortMultipartUploadD deps key uploadId)) (\<lambda>_.
     await (clear_session key) (\<lambda>_.
       throw (UploadCancelledError key)))"

text \<open>The part's turn of the loop, up to the progress report.\<close>

definition upload_one ::
  "'blob FileLike \<Rightarrow> jsstring \<Rightarrow> jsstring \<Rightarrow> (int \<rightharpoonup> int) \<Rightarrow> ('w, 'blob) MultipartUploadDeps \<Rightarrow>
     'w signal \<Rightarrow> PartPlan \<Rightarrow> (unit, 'w upload_state) async" where
  "upload_one file key uploadId landed deps aborted part s =
     (if aborted (us_world s) then cancel key uploadId deps s
      else if landed (pp_partNumber part) \<noteq> Some (pp_end part - pp_start part)
      then try_catch (uploadPartWithRetry file key uploadId part deps aborted)
        (\<lambda>err s'. if aborted (us_world s') then cancel key uploadId deps s' else throw err s') s
      else (Inr (), s))"

definition onProgress :: "int \<Rightarrow> int \<Rightarrow> (unit, 'w upload_state) async" where
  "onProgress completed totalParts s =
     (Inr (), s\<lparr>us_progress := us_progress s @ [(completed, totalParts)]\<rparr>)"

fun upload_parts ::
  "'blob FileLike \<Rightarrow> jsstring \<Rightarrow> jsstring \<Rightarrow> (int \<rightharpoonup> int) \<Rightarrow> ('w, 'blob) MultipartUploadDeps \<Rightarrow>
     'w signal \<Rightarrow> int \<Rightarrow> int \<Rightarrow> PartPlan list \<Rightarrow> (unit, 'w upload_state) async" where
  "upload_parts file key uploadId landed deps aborted totalParts completed [] = ret ()"
| "upload_parts file key uploadId landed deps aborted totalParts completed (part # parts) =
     await (upload_one file key uploadId landed deps aborted part) (\<lambda>_.
     await (onProgress (completed + 1) totalParts) (\<lambda>_.
       upload_parts file key uploadId landed deps aborted totalParts (completed + 1) parts))"

definition upload_with_plan ::
  "'blob FileLike \<Rightarrow> jsstring \<Rightarrow> jsstring \<Rightarrow> ('w, 'blob) MultipartUploadDeps \<Rightarrow> 'w signal \<Rightarrow>
     PartPlan list \<Rightarrow> (unit, 'w upload_state) async" where
  "upload_with_plan file key contentType deps aborted parts =
     await (resumeOrCreateUpload file key contentType deps) (\<lambda>(uploadId, landed).
     await (upload_parts file key uploadId landed deps aborted (int (length parts)) 0 parts) (\<lambda>_.
     await (remote (completeMultipartUploadD deps key uploadId)) (\<lambda>_.
       clear_session key)))"

text \<open>\<open>None\<close>: the call never settles, because the planning loop does not end.\<close>

definition uploadFileMultipart ::
  "'blob FileLike \<Rightarrow> jsstring \<Rightarrow> jsstring \<Rightarrow> ('w, 'blob) MultipartUploadDeps \<Rightarrow> 'w signal option \<Rightarrow>
     'w upload_state \<Rightarrow> (unit outcome \<times> 'w upload_state) option" where
  "uploadFileMultipart file key contentType deps signal s =
     (case planParts (fl_size file) PART_SIZE_BYTES of
        None \<Rightarrow> None
      | Some parts \<Rightarrow>
          Some (upload_with_plan file key contentType deps
            (case signal of None \<Rightarrow> NEVER_ABORTS | Some sg \<Rightarrow> sg) parts s))"


section \<open>Frames\<close>

text \<open>What awaiting a dependency leaves alone, and the same for the retry loop.\<close>

lemma remote_frame:
  assumes "remote m s = (r, s')"
  shows "us_storage s' = us_storage s" and "us_progress s' = us_progress s"
    and "m (us_world s) = (r, us_world s')"
  using assms by (auto simp: remote_def split: prod.splits)

lemma put_onceE:
  assumes "put_once file key u part deps s = (r, s')"
  obtains (no_url) e where "r = Inl e"
      "getUploadPartUrlD deps key u (pp_partNumber part) (us_world s) = (Inl e, us_world s')"
      "us_storage s' = us_storage s" "us_progress s' = us_progress s"
    | (sent) url w where
      "getUploadPartUrlD deps key u (pp_partNumber part) (us_world s) = (Inr url, w)"
      "putPartD deps url (fl_slice file (pp_start part) (pp_end part)) w = (r, us_world s')"
      "us_storage s' = us_storage s" "us_progress s' = us_progress s"
proof -
  obtain r1 s1 where p: "remote (getUploadPartUrlD deps key u (pp_partNumber part)) s = (r1, s1)"
    by force
  note fr = remote_frame [OF p]
  show thesis
  proof (cases r1)
    case (Inl e)
    with assms p have "r = Inl e" "s' = s1" by (simp_all add: put_once_def async_simps)
    with fr Inl no_url show thesis by simp
  next
    case (Inr url)
    with assms p have
      "remote (putPartD deps url (fl_slice file (pp_start part) (pp_end part))) s1 = (r, s')"
      by (simp add: put_once_def async_simps)
    from remote_frame [OF this] fr Inr sent show thesis by simp
  qed
qed

lemma put_once_frame:
  assumes "put_once file key u part deps s = (r, s')"
  shows "us_storage s' = us_storage s" and "us_progress s' = us_progress s"
  using assms by (auto elim: put_onceE)

lemma attempts_SucE:
  assumes "attempts file key u part deps aborted lastErr (Suc n) s = (r, s')"
  obtains (ok) "put_once file key u part deps s = (Inr (), s')" "r = Inr ()"
    | (stop) e where "put_once file key u part deps s = (Inl e, s')" "r = Inl e"
      "aborted (us_world s')"
    | (retry) e s1 where "put_once file key u part deps s = (Inl e, s1)" "\<not> aborted (us_world s1)"
      "attempts file key u part deps aborted (Some e) n s1 = (r, s')"
proof -
  obtain r1 s1 where p: "put_once file key u part deps s = (r1, s1)" by force
  show thesis
  proof (cases r1)
    case (Inl e)
    with p assms have eq: "(if aborted (us_world s1) then (Inl e, s1)
        else attempts file key u part deps aborted (Some e) n s1) = (r, s')"
      by (cases "aborted (us_world s1)") (simp_all add: async_simps)
    show thesis
    proof (cases "aborted (us_world s1)")
      case True
      with eq Inl p show thesis by (intro stop [of e]) auto
    next
      case False
      with eq Inl p show thesis by (intro retry) simp_all
    qed
  next
    case (Inr x)
    with p assms show thesis by (intro ok) (simp_all add: async_simps)
  qed
qed

lemma attempts_frame:
  "attempts file key u part deps aborted lastErr n s = (r, s') \<Longrightarrow>
    us_storage s' = us_storage s \<and> us_progress s' = us_progress s"
proof (induction n arbitrary: lastErr s)
  case (Suc n)
  from Suc.prems show ?case
  proof (cases rule: attempts_SucE)
    case (retry e s1)
    with put_once_frame [OF retry(1)] Suc.IH [OF retry(3)] show ?thesis by simp
  qed (auto dest: put_once_frame)
qed simp

text \<open>How a cancellation and one part's turn can end.\<close>

definition cancelled ::
  "jsstring \<Rightarrow> jsstring \<Rightarrow> ('w, 'blob) MultipartUploadDeps \<Rightarrow> 'w signal \<Rightarrow> unit outcome \<Rightarrow>
     'w upload_state \<Rightarrow> bool" where
  "cancelled key u deps aborted r s' \<longleftrightarrow>
     r = Inl (UploadCancelledError key) \<and> loadSession key (us_storage s') = None
     \<and> (\<exists>w. aborted w \<and> abortMultipartUploadD deps key u w = (Inr (), us_world s'))"

lemma cancel_outcome:
  assumes "cancel key u deps s = (r, s')" and "aborted (us_world s)"
  shows "cancelled key u deps aborted r s' \<or> (\<exists>e. r = Inl e) \<and> us_storage s' = us_storage s"
proof -
  obtain r1 s1 where p: "remote (abortMultipartUploadD deps key u) s = (r1, s1)" by force
  show ?thesis
  proof (cases r1)
    case (Inl e)
    with assms(1) p have "r = Inl e" "s' = s1" by (simp_all add: cancel_def async_simps)
    with remote_frame [OF p] show ?thesis by simp
  next
    case (Inr x)
    with assms(1) p have "r = Inl (UploadCancelledError key)"
      "s' = s1\<lparr>us_storage := clearSession key (us_storage s1)\<rparr>"
      by (simp_all add: cancel_def async_simps clear_session_def)
    with remote_frame(3) [OF p] Inr assms(2) sessions.load_clear show ?thesis
      by (auto simp: cancelled_def)
  qed
qed

lemma upload_one_outcome:
  assumes "upload_one file key u landed deps aborted part s = (r, s')"
  shows "cancelled key u deps aborted r s'
    \<or> us_storage s' = us_storage s \<and> (r = Inr () \<longrightarrow> us_progress s' = us_progress s)"
proof (cases "aborted (us_world s) \<or> landed (pp_partNumber part) = Some (pp_end part - pp_start part)")
  case True
  then show ?thesis
    using assms cancel_outcome [of key u deps s r s' aborted]
    by (auto simp: upload_one_def split: if_splits)
next
  case False
  obtain r1 s1 where p: "uploadPartWithRetry file key u part deps aborted s = (r1, s1)" by force
  note fr = attempts_frame [OF p [unfolded uploadPartWithRetry_def]]
  show ?thesis
  proof (cases r1)
    case (Inl e)
    with False assms p have "(if aborted (us_world s1) then cancel key u deps s1 else (Inl e, s1)) = (r, s')"
      by (auto simp: upload_one_def async_simps)
    with fr cancel_outcome [of key u deps s1 r s' aborted] show ?thesis
      by (auto split: if_splits)
  next
    case (Inr x)
    with False assms p fr show ?thesis by (auto simp: upload_one_def async_simps)
  qed
qed

lemma upload_parts_outcome:
  "upload_parts file key u landed deps aborted n c parts s = (r, s') \<Longrightarrow>
    cancelled key u deps aborted r s' \<or> us_storage s' = us_storage s
    \<and> (r = Inr () \<longrightarrow>
        us_progress s' = us_progress s @ map (\<lambda>i. (c + int i + 1, n)) [0..<length parts])"
proof (induction parts arbitrary: c s)
  case (Cons part parts)
  obtain r1 s1 where p: "upload_one file key u landed deps aborted part s = (r1, s1)" by force
  let ?s2 = "s1\<lparr>us_progress := us_progress s1 @ [(c + 1, n)]\<rparr>"
  show ?case
  proof (cases r1)
    case (Inl e)
    with Cons.prems p have "r = Inl e" "s' = s1" by (simp_all add: async_simps)
    with upload_one_outcome [OF p] Inl show ?thesis by auto
  next
    case (Inr x)
    with Cons.prems p have rest:
      "upload_parts file key u landed deps aborted n (c + 1) parts ?s2 = (r, s')"
      by (simp add: async_simps onProgress_def)
    have "us_storage s1 = us_storage s" "us_progress s1 = us_progress s"
      using upload_one_outcome [OF p] Inr by (auto simp: cancelled_def)
    moreover have "(c + 1, n) # map (\<lambda>i. (c + 1 + int i + 1, n)) [0..<length parts] =
        map (\<lambda>i. (c + int i + 1, n)) [0..<length (part # parts)]"
      by (simp add: upt_conv_Cons map_Suc_upt [symmetric] comp_def algebra_simps del: upt_Suc)
    ultimately show ?thesis using Cons.IH [OF rest] by auto
  qed
qed simp

section \<open>Starting or resuming\<close>

lemma createUploadE:
  assumes "createUpload file key ct deps s = (r, s')"
  obtains (none) e where "r = Inl e" "us_storage s' = us_storage s"
      "createMultipartUploadD deps key ct (us_world s) = (Inl e, us_world s')"
      "us_progress s' = us_progress s"
    | (made) u r1 where "createMultipartUploadD deps key ct (us_world s) = (Inr u, us_world s')"
      "saveSession key \<lparr>ss_uploadId = u, ss_fingerprint = fileFingerprint file\<rparr> (us_storage s) =
         (r1, us_storage s')"
      "r = map_sum id (\<lambda>_. (u, Map.empty)) r1" "us_progress s' = us_progress s"
proof -
  obtain r0 s1 where p: "remote (createMultipartUploadD deps key ct) s = (r0, s1)" by force
  note fr = remote_frame [OF p]
  show thesis
  proof (cases r0)
    case (Inl e)
    with assms p have "r = Inl e" "s' = s1" by (simp_all add: createUpload_def async_simps)
    with fr Inl show thesis by (intro none) simp_all
  next
    case (Inr u)
    obtain r1 st where sv: "saveSession key \<lparr>ss_uploadId = u, ss_fingerprint = fileFingerprint file\<rparr>
        (us_storage s1) = (r1, st)" by force
    with assms p Inr have "r = map_sum id (\<lambda>_. (u, Map.empty)) r1" "s' = s1\<lparr>us_storage := st\<rparr>"
      by (cases r1; simp add: createUpload_def async_simps save_session_def await_def)+
    with fr sv Inr show thesis by (intro made [of u r1]) simp_all
  qed
qed

text \<open>After a start or a resumption, the session on record is the one that is used.\<close>

lemma createUpload_session:
  assumes "createUpload file key ct deps s = (Inr (u, landed), s')" and "us_storage s \<noteq> None"
  shows "loadSession key (us_storage s') = Some \<lparr>ss_uploadId = u, ss_fingerprint = fileFingerprint file\<rparr>"
  using assms(1)
proof (cases rule: createUploadE)
  case (made u' r1)
  with assms(2) sessions.load_save show ?thesis by (cases r1) auto
qed simp

lemma resumeE:
  assumes "resumeOrCreateUpload file key ct deps s = (r, s')"
  obtains (resumed) sess parts where "loadSession key (us_storage s) = Some sess"
      "ss_fingerprint sess = fileFingerprint file"
      "listUploadedPartsD deps key (ss_uploadId sess) (us_world s) = (Inr parts, us_world s')"
      "r = Inr (ss_uploadId sess, js_Map (map (\<lambda>p. (upi_number p, upi_size p)) parts))"
      "us_storage s' = us_storage s" "us_progress s' = us_progress s"
    | (stale) sess e t where "loadSession key (us_storage s) = Some sess"
      "ss_fingerprint sess = fileFingerprint file"
      "listUploadedPartsD deps key (ss_uploadId sess) (us_world s) = (Inl e, us_world t)"
      "us_storage t = us_storage s" "us_progress t = us_progress s"
      "createUpload file key ct deps t = (r, s')"
    | (fresh) "createUpload file key ct deps s = (r, s')"
proof (cases "\<exists>sess. loadSession key (us_storage s) = Some sess
    \<and> ss_fingerprint sess = fileFingerprint file")
  case False
  with assms have "createUpload file key ct deps s = (r, s')"
    by (auto simp: resumeOrCreateUpload_def split: option.splits if_splits)
  then show thesis by (rule fresh)
next
  case True
  then obtain sess where l: "loadSession key (us_storage s) = Some sess"
    "ss_fingerprint sess = fileFingerprint file" by blast
  obtain r0 t where p: "remote (listUploadedPartsD deps key (ss_uploadId sess)) s = (r0, t)" by force
  note fr = remote_frame [OF p]
  show thesis
  proof (cases r0)
    case (Inl e)
    with assms l p have "createUpload file key ct deps t = (r, s')"
      by (simp add: resumeOrCreateUpload_def async_simps)
    with l fr Inl show thesis by (intro stale [of sess e t]) simp_all
  next
    case (Inr parts)
    with assms l p have "r = Inr (ss_uploadId sess, js_Map (map (\<lambda>p. (upi_number p, upi_size p)) parts))"
      "s' = t" by (simp_all add: resumeOrCreateUpload_def async_simps)
    with l fr Inr show thesis by (intro resumed [of sess parts]) simp_all
  qed
qed

lemma resume_session:
  assumes "resumeOrCreateUpload file key ct deps s = (Inr (u, landed), s')" and "us_storage s \<noteq> None"
  shows "loadSession key (us_storage s') = Some \<lparr>ss_uploadId = u, ss_fingerprint = fileFingerprint file\<rparr>
    \<and> us_progress s' = us_progress s"
  using assms(1)
proof (cases rule: resumeE)
  case (stale sess e t)
  from stale(6) have "us_progress s' = us_progress t" by (cases rule: createUploadE) simp_all
  with stale createUpload_session [OF stale(6)] assms(2) show ?thesis by simp
next
  case fresh
  from fresh have "us_progress s' = us_progress s" by (cases rule: createUploadE) simp_all
  with createUpload_session [OF fresh assms(2)] show ?thesis by simp
qed auto

section \<open>The whole upload\<close>

lemma uploadFileMultipart_returns:
  "uploadFileMultipart file key ct deps signal s =
    Some (upload_with_plan file key ct deps
      (case signal of None \<Rightarrow> NEVER_ABORTS | Some sg \<Rightarrow> sg) (plan (fl_size file) PART_SIZE_BYTES) s)"
  by (simp add: uploadFileMultipart_def planParts_plan PART_SIZE_BYTES_def)

lemma upload_with_planE:
  assumes "upload_with_plan file key ct deps aborted parts s = (r, s')"
  obtains (not_started) e where "resumeOrCreateUpload file key ct deps s = (Inl e, s')" "r = Inl e"
    | (stopped) u landed s1 e where "resumeOrCreateUpload file key ct deps s = (Inr (u, landed), s1)"
      "upload_parts file key u landed deps aborted (int (length parts)) 0 parts s1 = (Inl e, s')"
      "r = Inl e"
    | (incomplete) u landed s1 s2 e where
      "resumeOrCreateUpload file key ct deps s = (Inr (u, landed), s1)"
      "upload_parts file key u landed deps aborted (int (length parts)) 0 parts s1 = (Inr (), s2)"
      "completeMultipartUploadD deps key u (us_world s2) = (Inl e, us_world s')"
      "us_storage s' = us_storage s2" "r = Inl e" "us_progress s' = us_progress s2"
    | (complete) u landed s1 s2 where
      "resumeOrCreateUpload file key ct deps s = (Inr (u, landed), s1)"
      "upload_parts file key u landed deps aborted (int (length parts)) 0 parts s1 = (Inr (), s2)"
      "completeMultipartUploadD deps key u (us_world s2) = (Inr (), us_world s')"
      "us_storage s' = clearSession key (us_storage s2)" "us_progress s' = us_progress s2" "r = Inr ()"
proof -
  obtain r0 s1 where p0: "resumeOrCreateUpload file key ct deps s = (r0, s1)" by force
  show thesis
  proof (cases r0)
    case (Inl e)
    with assms p0 show thesis by (intro not_started [of e]) (auto simp: upload_with_plan_def async_simps)
  next
    case (Inr ul)
    obtain u landed where ul: "ul = (u, landed)" by force
    obtain r1 s2 where p1:
      "upload_parts file key u landed deps aborted (int (length parts)) 0 parts s1 = (r1, s2)" by force
    obtain r2 s3 where p2: "remote (completeMultipartUploadD deps key u) s2 = (r2, s3)" by force
    note fr = remote_frame [OF p2]
    note run = assms [unfolded upload_with_plan_def] p0 [unfolded Inr ul] p1 p2
    show thesis
    proof (cases r1)
      case (Inl e)
      with run show thesis by (intro stopped [of u landed s1 e]) (auto simp: async_simps)
    next
      case r1: (Inr x)
      show thesis
      proof (cases r2)
        case (Inl e)
        with run r1 have "r = Inl e" "s' = s3" by (simp_all add: async_simps)
        with run fr r1 Inl show thesis by (intro incomplete [of u landed s1 s2]) simp_all
      next
        case (Inr y)
        with run r1 have "r = Inr ()" "s' = s3\<lparr>us_storage := clearSession key (us_storage s3)\<rparr>"
          by (simp_all add: async_simps clear_session_def)
        with run fr r1 Inr show thesis by (intro complete [of u landed s1 s2]) simp_all
      qed
    qed
  qed
qed

section \<open>How often a part is sent\<close>

text \<open>
  A count of the PUTs of each part in the state of the world: a PUT to a URL that was made for a part
  counts one for that part, and no other call counts anything.
\<close>

definition counts_puts ::
  "('w, 'blob) MultipartUploadDeps \<Rightarrow> (jsstring \<rightharpoonup> int) \<Rightarrow> ('w \<Rightarrow> int \<Rightarrow> nat) \<Rightarrow> bool" where
  "counts_puts deps part_of puts \<longleftrightarrow>
     (\<forall>url n b w. part_of url = Some n \<longrightarrow> puts (snd (putPartD deps url b w)) = (puts w)(n := puts w n + 1))
   \<and> (\<forall>k u n w. puts (snd (getUploadPartUrlD deps k u n w)) = puts w
        \<and> (\<forall>url w'. getUploadPartUrlD deps k u n w = (Inr url, w') \<longrightarrow> part_of url = Some n))
   \<and> (\<forall>k u w. puts (snd (completeMultipartUploadD deps k u w)) = puts w)
   \<and> (\<forall>k u w. puts (snd (abortMultipartUploadD deps k u w)) = puts w)"

text \<open>Between two states, the part \<open>n\<close> was put at least \<open>a\<close> and at most \<open>b\<close> times, and no other part.\<close>

definition put_between :: "('w \<Rightarrow> int \<Rightarrow> nat) \<Rightarrow> int \<Rightarrow> nat \<Rightarrow> nat \<Rightarrow> 'w \<Rightarrow> 'w \<Rightarrow> bool" where
  "put_between puts n a b w w' \<longleftrightarrow> (\<exists>m. puts w' = (puts w)(n := puts w n + m) \<and> a \<le> m \<and> m \<le> b)"

lemma put_between_none: "puts w' = puts w \<Longrightarrow> put_between puts n 0 b w w'"
  by (auto simp: put_between_def intro: exI [of _ 0])

lemma put_between_trans:
  "put_between puts n a b w w1 \<Longrightarrow> put_between puts n a' b' w1 w' \<Longrightarrow> put_between puts n (a + a') (b + b') w w'"
  by (fastforce simp: put_between_def)

lemma put_between_mono: "put_between puts n a b w w' \<Longrightarrow> a' \<le> a \<Longrightarrow> b \<le> b' \<Longrightarrow> put_between puts n a' b' w w'"
  by (fastforce simp: put_between_def)

lemma put_once_count:
  assumes "counts_puts deps part_of puts" and "put_once file key u part deps s = (r, s')"
  shows "put_between puts (pp_partNumber part) (if r = Inr () then 1 else 0) 1 (us_world s) (us_world s')"
  using assms(2)
proof (cases rule: put_onceE)
  case (no_url e)
  then have "puts (us_world s') = puts (us_world s)"
    using assms(1) unfolding counts_puts_def by (metis snd_conv)
  with no_url(1) put_between_none show ?thesis by simp
next
  case (sent url w)
  then have "puts w = puts (us_world s)" and "part_of url = Some (pp_partNumber part)"
    using assms(1) unfolding counts_puts_def by (metis snd_conv)+
  moreover from this(2) have "puts (us_world s') = (puts w)(pp_partNumber part := puts w (pp_partNumber part) + 1)"
    using assms(1) sent(2) unfolding counts_puts_def by (metis snd_conv)
  ultimately show ?thesis by (auto simp: put_between_def intro!: exI [of _ 1])
qed

lemma attempts_count:
  assumes "counts_puts deps part_of puts"
  shows "attempts file key u part deps aborted lastErr n s = (r, s') \<Longrightarrow>
    put_between puts (pp_partNumber part) (if r = Inr () then 1 else 0) n (us_world s) (us_world s')"
proof (induction n arbitrary: lastErr s)
  case (Suc n)
  from Suc.prems show ?case
  proof (cases rule: attempts_SucE)
    case (retry e s1)
    with put_between_trans [OF put_once_count [OF assms retry(1)] Suc.IH [OF retry(3)]] show ?thesis by simp
  next
    case ok
    with put_once_count [OF assms ok(1)] show ?thesis by (auto elim: put_between_mono)
  next
    case (stop e)
    with put_once_count [OF assms stop(1)] show ?thesis by (auto elim: put_between_mono)
  qed
qed (auto intro: put_between_none)

lemma cancel_count:
  assumes "counts_puts deps part_of puts" and "cancel key u deps s = (r, s')"
  shows "puts (us_world s') = puts (us_world s) \<and> r \<noteq> Inr ()"
proof -
  obtain r1 s1 where p: "remote (abortMultipartUploadD deps key u) s = (r1, s1)" by force
  have "us_world s' = us_world s1 \<and> r \<noteq> Inr ()"
    using assms(2) p by (cases r1) (auto simp: cancel_def async_simps clear_session_def)
  with remote_frame(3) [OF p] assms(1) show ?thesis unfolding counts_puts_def by (metis snd_conv)
qed

definition missing :: "(int \<rightharpoonup> int) \<Rightarrow> PartPlan \<Rightarrow> bool" where
  "missing landed part \<longleftrightarrow> landed (pp_partNumber part) \<noteq> Some (pp_end part - pp_start part)"

lemma upload_one_count:
  assumes "counts_puts deps part_of puts" and "upload_one file key u landed deps aborted part s = (r, s')"
  shows "put_between puts (pp_partNumber part) (if r = Inr () \<and> missing landed part then 1 else 0)
    (if missing landed part then PART_RETRY_ATTEMPTS else 0) (us_world s) (us_world s')"
proof (cases "aborted (us_world s) \<or> \<not> missing landed part")
  case True
  then have "puts (us_world s') = puts (us_world s) \<and> (r = Inr () \<longrightarrow> \<not> missing landed part)"
    using assms cancel_count [OF assms(1), of key u s r s']
    by (auto simp: upload_one_def missing_def split: if_splits)
  with put_between_none show ?thesis by auto
next
  case False
  obtain r1 s1 where p: "uploadPartWithRetry file key u part deps aborted s = (r1, s1)" by force
  have c: "put_between puts (pp_partNumber part) (if r1 = Inr () then 1 else 0) PART_RETRY_ATTEMPTS (us_world s) (us_world s1)"
    using attempts_count [OF assms(1)] p unfolding uploadPartWithRetry_def by blast
  have "s' = s1 \<and> r = r1 \<or> cancel key u deps s1 = (r, s')"
    using False assms(2) p
    by (cases r1; cases "aborted (us_world s1)") (auto simp: upload_one_def missing_def async_simps)
  then show ?thesis
  proof
    assume "s' = s1 \<and> r = r1"
    with c False show ?thesis by simp
  next
    assume "cancel key u deps s1 = (r, s')"
    with cancel_count [OF assms(1)] have "puts (us_world s') = puts (us_world s1)" and "r \<noteq> Inr ()" by blast+
    with put_between_mono [OF c, of 0 PART_RETRY_ATTEMPTS] False show ?thesis by (simp add: put_between_def)
  qed
qed

lemma upload_parts_count:
  assumes "counts_puts deps part_of puts"
  shows "upload_parts file key u landed deps aborted n c parts s = (r, s') \<Longrightarrow>
    distinct (map pp_partNumber parts) \<Longrightarrow>
    (\<forall>m. m \<notin> pp_partNumber ` set parts \<longrightarrow> puts (us_world s') m = puts (us_world s) m)
    \<and> (\<forall>p \<in> set parts.
        puts (us_world s) (pp_partNumber p) + (if r = Inr () \<and> missing landed p then 1 else 0)
          \<le> puts (us_world s') (pp_partNumber p)
        \<and> puts (us_world s') (pp_partNumber p)
          \<le> puts (us_world s) (pp_partNumber p) + (if missing landed p then PART_RETRY_ATTEMPTS else 0))"
proof (induction parts arbitrary: c s)
  case (Cons part parts)
  obtain r1 s1 where one: "upload_one file key u landed deps aborted part s = (r1, s1)" by force
  obtain m where m: "puts (us_world s1) = (puts (us_world s))(pp_partNumber part := puts (us_world s) (pp_partNumber part) + m)"
    "(if r1 = Inr () \<and> missing landed part then 1 else 0) \<le> m" "m \<le> (if missing landed part then PART_RETRY_ATTEMPTS else 0)"
    using upload_one_count [OF assms one] by (auto simp: put_between_def)
  have other: "pp_partNumber p \<noteq> pp_partNumber part" if "p \<in> set parts" for p
    using that Cons.prems(2) by (metis distinct.simps(2) image_eqI list.set_map list.simps(9))
  show ?case
  proof (cases r1)
    case (Inl e)
    with Cons.prems one have "s' = s1" "r \<noteq> Inr ()" by (auto simp: async_simps)
    with m other show ?thesis by simp
  next
    case (Inr x)
    let ?s2 = "s1\<lparr>us_progress := us_progress s1 @ [(c + 1, n)]\<rparr>"
    from Inr Cons.prems one
    have "upload_parts file key u landed deps aborted n (c + 1) parts ?s2 = (r, s')"
      by (simp add: async_simps onProgress_def)
    note IH = Cons.IH [OF this]
    have "puts (us_world s') (pp_partNumber part) = puts (us_world s) (pp_partNumber part) + m"
      using IH Cons.prems(2) m(1) by auto
    moreover have "r1 = Inr ()" using Inr by simp
    ultimately show ?thesis
      using IH Cons.prems(2) m other by auto
  qed
qed simp

lemma attempts_error:
  "attempts file key u part deps aborted lastErr n s = (Inl e, s') \<Longrightarrow>
    aborted (us_world s') \<or> (\<exists>le. e = exhausted key part le \<and> (le \<noteq> None \<or> n = 0 \<and> le = lastErr))"
proof (induction n arbitrary: lastErr s)
  case (Suc n)
  from Suc.prems show ?case
  proof (cases rule: attempts_SucE)
    case (retry e' s1)
    from Suc.IH [OF retry(3)] show ?thesis by auto
  qed simp_all
qed auto

section \<open>Where an upload stops\<close>

text \<open>
  How the turn of a part ends an upload: every attempt failed and nobody had cancelled; or the signal
  was aborted, and the store was asked to abort the upload, with success or without.
\<close>

definition part_stops ::
  "jsstring \<Rightarrow> jsstring \<Rightarrow> ('w, 'blob) MultipartUploadDeps \<Rightarrow> 'w signal \<Rightarrow> PartPlan \<Rightarrow> unit outcome \<Rightarrow>
     storage \<Rightarrow> 'w upload_state \<Rightarrow> bool" where
  "part_stops key u deps aborted part r st s' \<longleftrightarrow>
     us_storage s' = st \<and> \<not> aborted (us_world s') \<and> (\<exists>lastErr. r = Inl (exhausted key part (Some lastErr)))
   \<or> r = Inl (UploadCancelledError key) \<and> (\<exists>w. aborted w \<and> abortMultipartUploadD deps key u w = (Inr (), us_world s'))
   \<or> us_storage s' = st \<and> (\<exists>e w. r = Inl e \<and> aborted w \<and> abortMultipartUploadD deps key u w = (Inl e, us_world s'))"

lemma cancel_stops:
  assumes "cancel key u deps s = (r, s')" and "aborted (us_world s)"
  shows "part_stops key u deps aborted part r (us_storage s) s' \<and> us_progress s' = us_progress s"
proof -
  obtain r1 s1 where p: "remote (abortMultipartUploadD deps key u) s = (r1, s1)" by force
  note fr = remote_frame [OF p]
  show ?thesis
  proof (cases r1)
    case (Inl e)
    with assms(1) p have "r = Inl e" "s' = s1" by (simp_all add: cancel_def async_simps)
    with fr Inl assms(2) show ?thesis by (auto simp: part_stops_def)
  next
    case (Inr x)
    with assms(1) p have "r = Inl (UploadCancelledError key)" "us_world s' = us_world s1" "us_progress s' = us_progress s1"
      by (auto simp: cancel_def async_simps clear_session_def)
    with fr Inr assms(2) show ?thesis by (auto simp: part_stops_def)
  qed
qed

lemma upload_one_stops:
  assumes "upload_one file key u landed deps aborted part s = (r, s')"
  shows "(r = Inr () \<and> us_storage s' = us_storage s \<or> part_stops key u deps aborted part r (us_storage s) s')
    \<and> us_progress s' = us_progress s"
proof (cases "aborted (us_world s) \<or> landed (pp_partNumber part) = Some (pp_end part - pp_start part)")
  case True
  then show ?thesis
    using assms cancel_stops [of key u deps s r s' aborted part]
    by (auto simp: upload_one_def split: if_splits)
next
  case False
  obtain r1 s1 where p: "uploadPartWithRetry file key u part deps aborted s = (r1, s1)" by force
  note att = p [unfolded uploadPartWithRetry_def]
  note fr = attempts_frame [OF att]
  show ?thesis
  proof (cases r1)
    case (Inl e)
    show ?thesis
    proof (cases "aborted (us_world s1)")
      case True
      with False assms p Inl have "cancel key u deps s1 = (r, s')" by (auto simp: upload_one_def async_simps)
      with cancel_stops [of key u deps s1 r s' aborted part] True fr show ?thesis by simp
    next
      case notAborted: False
      with False assms p Inl have "r = Inl e" "s' = s1" by (auto simp: upload_one_def async_simps)
      with attempts_error [OF att [unfolded Inl]] notAborted fr show ?thesis
        by (auto simp: part_stops_def PART_RETRY_ATTEMPTS_def)
    qed
  next
    case (Inr x)
    with False assms p fr show ?thesis by (auto simp: upload_one_def async_simps)
  qed
qed

lemma upload_parts_stop:
  "upload_parts file key u landed deps aborted n c parts s = (r, s') \<Longrightarrow>
    \<exists>k. us_progress s' = us_progress s @ map (\<lambda>i. (c + int i + 1, n)) [0..<k]
      \<and> (r = Inr () \<and> us_storage s' = us_storage s \<and> k = length parts
         \<or> k < length parts \<and> part_stops key u deps aborted (parts ! k) r (us_storage s) s')"
proof (induction parts arbitrary: c s)
  case (Cons part parts)
  obtain r1 s1 where p: "upload_one file key u landed deps aborted part s = (r1, s1)" by force
  note one = upload_one_stops [OF p]
  let ?s2 = "s1\<lparr>us_progress := us_progress s1 @ [(c + 1, n)]\<rparr>"
  show ?case
  proof (cases r1)
    case (Inl e)
    with Cons.prems p have "r = r1" "s' = s1" by (simp_all add: async_simps)
    with one Inl show ?thesis by (intro exI [of _ 0]) auto
  next
    case (Inr x)
    with Cons.prems p have rest:
      "upload_parts file key u landed deps aborted n (c + 1) parts ?s2 = (r, s')"
      by (simp add: async_simps onProgress_def)
    obtain k where k: "us_progress s' = us_progress ?s2 @ map (\<lambda>i. (c + 1 + int i + 1, n)) [0..<k]"
      "r = Inr () \<and> us_storage s' = us_storage ?s2 \<and> k = length parts
       \<or> k < length parts \<and> part_stops key u deps aborted (parts ! k) r (us_storage ?s2) s'"
      using Cons.IH [OF rest] by blast
    have "us_storage s1 = us_storage s" "us_progress s1 = us_progress s"
      using one Inr by (auto simp: part_stops_def)
    moreover have "(c + 1, n) # map (\<lambda>i. (c + 1 + int i + 1, n)) [0..<k] = map (\<lambda>i. (c + int i + 1, n)) [0..<Suc k]"
      by (simp add: upt_conv_Cons map_Suc_upt [symmetric] comp_def algebra_simps del: upt_Suc)
    ultimately show ?thesis using k by (intro exI [of _ "Suc k"]) auto
  qed
qed simp

end
