(* ===== verification/Upload_Path.thy ===== *)
theory Upload_Path
  imports Js_Strings
begin

text \<open>
  \<open>normalizeUploadPath\<close> of \<open>web/src/lib/uploadPath.ts\<close>, and its meaning: the non-empty segments
  of the trimmed input, each followed by one separator.
\<close>

definition normalizeUploadPath :: "jsstring \<Rightarrow> jsstring" where
  "normalizeUploadPath path =
     (let trimmed = strip_leading_slashes (trim path) in
      if trimmed = [] then []
      else let collapsed = collapse_slashes trimmed in
        if endsWith collapsed [slash] then collapsed else collapsed @ [slash])"

definition segments :: "jsstring \<Rightarrow> jsstring list" where
  "segments p = filter (\<lambda>s. s \<noteq> []) (split slash p)"

lemma segments_slash [simp]: "segments (slash # p) = segments p"
  by (simp add: segments_def)

lemma segments_Nil [simp]: "segments [] = []"
  by (simp add: segments_def)

lemma segments_seg: "slash \<notin> set x \<Longrightarrow> x \<noteq> [] \<Longrightarrow> segments (x @ slash # p) = x # segments p"
  by (simp add: segments_def split_append_sep)

lemma segments_last: "slash \<notin> set x \<Longrightarrow> x \<noteq> [] \<Longrightarrow> segments x = [x]"
  by (simp add: segments_def split_no_sep)

lemma segments_path_of:
  "(\<And>s. s \<in> set segs \<Longrightarrow> s \<noteq> [] \<and> slash \<notin> set s) \<Longrightarrow> segments (path_of segs) = segs"
  by (induction segs) (simp_all add: path_of_def segments_seg)

lemma segments_wf: "s \<in> set (segments p) \<Longrightarrow> s \<noteq> [] \<and> slash \<notin> set s"
  by (auto simp: segments_def dest: split_segments)

lemma segments_strip: "segments (strip_leading_slashes p) = segments p"
  by (induction p) (auto simp: strip_leading_slashes_def)

section \<open>The loop of the replacement\<close>

definition close :: "jsstring \<Rightarrow> jsstring" where
  "close s = (if s \<noteq> [] \<and> last s = slash then s else s @ [slash])"

lemma collapse_Nil_iff [simp]: "collapse_slashes s = [] \<longleftrightarrow> s = []"
  by (induction s rule: collapse_slashes.induct) auto

lemma close_Cons: "s \<noteq> [] \<Longrightarrow> close (c # s) = c # close s"
  by (simp add: close_def)

lemma segments_Cons:
  assumes "c \<noteq> slash"
  shows "segments (c # p) = (case split slash p of [] \<Rightarrow> [[c]]
    | y # ys \<Rightarrow> (c # y) # filter (\<lambda>s. s \<noteq> []) ys)"
  using assms by (simp add: segments_def split: list.splits)

lemma close_collapse:
  "close (collapse_slashes (c # s)) =
     (if c = slash then slash # path_of (segments s) else path_of (segments (c # s)))"
proof (induction s arbitrary: c)
  case Nil
  then show ?case by (simp add: close_def segments_def)
next
  case (Cons d s)
  show ?case
  proof (cases "d = slash")
    case True
    then show ?thesis
      using Cons.IH [of slash] by (auto simp: close_Cons segments_Cons segments_def [of s])
  next
    case False
    then show ?thesis
      using Cons.IH [of d] by (auto simp: close_Cons segments_Cons split: list.splits)
  qed
qed


lemma strip_leading_hd: "strip_leading_slashes p = c # s \<Longrightarrow> c \<noteq> slash"
  using hd_dropWhile [of "\<lambda>c. c = slash" p] by (simp add: strip_leading_slashes_def)

lemma normalizeUploadPath_segments: "normalizeUploadPath p = path_of (segments (trim p))"
proof (cases "strip_leading_slashes (trim p)")
  case Nil
  then have "segments (trim p) = []" by (metis segments_strip segments_Nil)
  with Nil show ?thesis by (simp add: normalizeUploadPath_def)
next
  case (Cons c s)
  have "normalizeUploadPath p = close (collapse_slashes (c # s))"
    by (simp add: normalizeUploadPath_def Cons close_def endsWith_single del: collapse_slashes.simps)
  also have "\<dots> = path_of (segments (c # s))"
    using close_collapse [of c s] strip_leading_hd [OF Cons] by simp
  finally show ?thesis by (metis Cons segments_strip)
qed

lemma path_of_last: "path_of segs \<noteq> [] \<Longrightarrow> last (path_of segs) = slash"
  by (induction segs) auto

lemma trim_closed:
  assumes "r \<noteq> []" and "last r = slash"
  shows "trim r = dropWhile is_space r" and "trim r \<noteq> []" and "last (trim r) = slash"
proof -
  have ns: "\<not> is_space slash" by (simp add: is_space_def slash_def)
  obtain p where r: "r = p @ [slash]" using assms by (metis append_butlast_last_id)
  have d: "dropWhile is_space r = dropWhile is_space p @ [slash]"
    unfolding r using ns by (induction p) simp_all
  then show "trim r = dropWhile is_space r" using ns by (simp add: trim_def)
  with d show "trim r \<noteq> []" and "last (trim r) = slash" by simp_all
qed

lemma length_path_of_segments: "length (path_of (segments q)) \<le> length q + 1"
  and length_path_of_segments_closed:
    "q \<noteq> [] \<Longrightarrow> last q = slash \<Longrightarrow> length (path_of (segments q)) \<le> length q"
proof -
  have *: "length (path_of (filter (\<lambda>s. s \<noteq> []) xs)) \<le> length (join [slash] xs) + 1" for xs
    by (induction "[slash]" xs rule: join.induct) auto
  from * [of "split slash q"] show "length (path_of (segments q)) \<le> length q + 1"
    by (simp add: segments_def)
  assume "q \<noteq> []" "last q = slash"
  then obtain p where q: "q = p @ [slash]" by (metis append_butlast_last_id)
  have "split slash (p @ [slash]) = split slash p @ [[]]"
    by (induction p) (auto split: list.splits)
  then have "segments q = segments p" by (simp add: q segments_def)
  with * [of "split slash p"] q show "length (path_of (segments q)) \<le> length q"
    by (simp add: segments_def)
qed

lemma normalizeUploadPath_fix_iff:
  assumes last: "r \<noteq> []" "last r = slash" and fix1: "path_of (segments r) = r"
  shows "normalizeUploadPath r = r \<longleftrightarrow> \<not> is_space (hd r)"
proof (cases "is_space (hd r)")
  case False
  then have "trim r = r" using trim_closed(1) [OF last] by (cases r) simp_all
  then show ?thesis using fix1 False normalizeUploadPath_segments [of r] by simp
next
  case True
  have "length (trim r) < length r"
    using True last(1) trim_closed(1) [OF last] length_dropWhile_le [of is_space "tl r"]
    by (cases r) simp_all
  moreover have "length (normalizeUploadPath r) \<le> length (trim r)"
    using length_path_of_segments_closed [OF trim_closed(2,3) [OF last]]
      normalizeUploadPath_segments [of r] by simp
  ultimately have "length (normalizeUploadPath r) < length r" by linarith
  then have "normalizeUploadPath r \<noteq> r" by force
  with True show ?thesis by simp
qed

lemma normalizeUploadPath_closed:
  assumes "normalizeUploadPath p \<noteq> []"
  shows "last (normalizeUploadPath p) = slash"
    and "path_of (segments (normalizeUploadPath p)) = normalizeUploadPath p"
  using assms path_of_last [of "segments (trim p)"] segments_path_of [of "segments (trim p)"]
    segments_wf [of _ "trim p"]
  by (simp_all add: normalizeUploadPath_segments)

text \<open>A child of a normalized directory, named without a separator.\<close>

lemma normalizeUploadPath_child:
  assumes "normalizeUploadPath path = path" and "name \<noteq> []" and "slash \<notin> set name"
  shows "normalizeUploadPath (path @ name @ [slash]) = path @ name @ [slash] \<longleftrightarrow>
    \<not> (path = [] \<and> is_space (hd name))"
proof -
  define segs where "segs = segments (trim path)"
  have wf: "\<And>s. s \<in> set segs \<Longrightarrow> s \<noteq> [] \<and> slash \<notin> set s"
    using segments_wf by (auto simp: segs_def)
  have path: "path = path_of segs"
    using assms(1) normalizeUploadPath_segments [of path] by (simp add: segs_def)
  have child: "path @ name @ [slash] = path_of (segs @ [name])"
    by (simp add: path path_of_def)
  have "path_of (segments (path @ name @ [slash])) = path @ name @ [slash]"
    unfolding child by (subst segments_path_of) (use wf assms(2,3) in auto)
  moreover have "path @ name @ [slash] \<noteq> []" and "last (path @ name @ [slash]) = slash" by simp_all
  ultimately have "normalizeUploadPath (path @ name @ [slash]) = path @ name @ [slash] \<longleftrightarrow>
      \<not> is_space (hd (path @ name @ [slash]))"
    by (rule normalizeUploadPath_fix_iff [rotated 2])
  moreover have "\<not> is_space (hd path)" if "path \<noteq> []"
    using normalizeUploadPath_fix_iff [of path] normalizeUploadPath_closed [of path] assms(1) that by simp
  ultimately show ?thesis using assms(2) by (cases path) auto
qed

section \<open>Properties\<close>

text \<open>
  C26. \<open>normalizeUploadPath\<close> keeps the segments and nothing else: the result is the non-empty
  segments of the trimmed input, in order, each followed by one separator. So it is empty or ends
  with a separator, starts with none, has no two in a row, and two inputs get the same prefix
  exactly if their trimmed texts have the same segments.
\<close>

theorem normalizeUploadPath_correct:
  "normalizeUploadPath p = path_of (segments (trim p))
    \<and> segments (normalizeUploadPath p) = segments (trim p)
    \<and> list_all (\<lambda>s. s \<noteq> [] \<and> slash \<notin> set s) (segments (normalizeUploadPath p))
    \<and> (normalizeUploadPath p = normalizeUploadPath q \<longleftrightarrow> segments (trim p) = segments (trim q))"
proof -
  have s: "segments (normalizeUploadPath r) = segments (trim r)" for r
    unfolding normalizeUploadPath_segments by (rule segments_path_of) (rule segments_wf)
  moreover have "list_all (\<lambda>s. s \<noteq> [] \<and> slash \<notin> set s) (segments (normalizeUploadPath p))"
    by (auto simp: list_all_iff dest: segments_wf)
  moreover have "normalizeUploadPath p = normalizeUploadPath q \<longleftrightarrow> segments (trim p) = segments (trim q)"
    by (metis s normalizeUploadPath_segments)
  ultimately show ?thesis by (simp add: normalizeUploadPath_segments)
qed

text \<open>
  Normalizing twice is normalizing once, exactly if the prefix does not start with white space.
  It can: the input \<open>/ a\<close> has the prefix of a folder whose name starts with a space, and normalizing
  that prefix again drops the space.
\<close>

theorem normalizeUploadPath_idem_iff:
  "normalizeUploadPath (normalizeUploadPath p) = normalizeUploadPath p \<longleftrightarrow>
     (case normalizeUploadPath p of [] \<Rightarrow> True | c # _ \<Rightarrow> \<not> is_space c)"
proof (cases "normalizeUploadPath p")
  case Nil
  then show ?thesis by (simp add: normalizeUploadPath_def trim_def strip_leading_slashes_def)
next
  case (Cons c s)
  then show ?thesis
    using normalizeUploadPath_fix_iff [of "normalizeUploadPath p"] normalizeUploadPath_closed [of p]
    by simp
qed

end
