(* ===== verification/Validators.thy ===== *)
theory Validators
  imports Json
begin

text \<open>
  The validators of \<open>web/src/server/impl.ts\<close> and of \<open>getFilePreviewStatuses\<close> in
  \<open>web/src/server/files.ts\<close>: each takes the untrusted input of a server function and either
  throws or returns typed data. The checks appear in the order of the source, so the first failing
  one decides the error. The locale \<open>input_validator\<close> is the contract all of them share: what is
  accepted is well formed, and well-formed data that the client sends arrives unchanged.
\<close>

section \<open>Typed inputs\<close>

datatype SortFieldInput = SF_key | SF_lastModified | SF_size | SF_takenAt

datatype SortOrderInput = SO_asc | SO_desc

fun sort_field_text :: "SortFieldInput \<Rightarrow> string" where
  "sort_field_text SF_key = ''key''"
| "sort_field_text SF_lastModified = ''lastModified''"
| "sort_field_text SF_size = ''size''"
| "sort_field_text SF_takenAt = ''takenAt''"

fun sort_order_text :: "SortOrderInput \<Rightarrow> string" where
  "sort_order_text SO_asc = ''asc''"
| "sort_order_text SO_desc = ''desc''"

definition SORT_FIELDS :: "SortFieldInput list" where
  "SORT_FIELDS = [SF_key, SF_lastModified, SF_size, SF_takenAt]"

definition SORT_ORDERS :: "SortOrderInput list" where
  "SORT_ORDERS = [SO_asc, SO_desc]"

record ListFilesInput =
  lfi_pageSize :: "int option"
  lfi_pageToken :: "jsstring option"
  lfi_query :: "jsstring option"
  lfi_contentType :: "jsstring option"
  lfi_sortField :: "SortFieldInput option"
  lfi_sortOrder :: "SortOrderInput option"

record SearchDirectoriesInput =
  sdi_pageSize :: "int option"
  sdi_pageToken :: "jsstring option"
  sdi_query :: "jsstring option"

record ListDirectoryInput =
  ldi_path :: "jsstring option"
  ldi_pageSize :: "int option"
  ldi_pageToken :: "jsstring option"
  ldi_sortField :: "SortFieldInput option"
  ldi_sortOrder :: "SortOrderInput option"

record MoveFileInput =
  mfi_id :: jsstring
  mfi_destinationKey :: jsstring

record CreateMultipartUploadInput =
  cmi_key :: jsstring
  cmi_contentType :: jsstring

record UploadPartUrlInput =
  upi_key :: jsstring
  upi_uploadId :: jsstring
  upi_partNumber :: int

record UploadIdInput =
  uii_key :: jsstring
  uii_uploadId :: jsstring

section \<open>Checks\<close>

text \<open>An optional page size: a positive integer.\<close>

definition check_pageSize :: "jsval \<Rightarrow> int option outcome" where
  "check_pageSize data =
     (case get_prop data ''pageSize'' of
        Undefined \<Rightarrow> Inr None
      | Num n \<Rightarrow> if \<not> isInteger n \<or> num_less n 1
                then Inl (Error (js ''pageSize must be a positive integer''))
                else Inr (Some (int_of_num n))
      | _ \<Rightarrow> Inl (Error (js ''pageSize must be a positive integer'')))"

text \<open>An optional string property.\<close>

definition check_optional_string :: "string \<Rightarrow> jsval \<Rightarrow> jsstring option outcome" where
  "check_optional_string name data =
     (case get_prop data name of
        Undefined \<Rightarrow> Inr None
      | Str s \<Rightarrow> Inr (Some s)
      | _ \<Rightarrow> Inl (Error (js (name @ '' must be a string''))))"

text \<open>\<open>SORT_FIELDS.includes(v)\<close> and \<open>SORT_ORDERS.includes(v)\<close>, with the member found.\<close>

definition sort_field_of :: "jsval \<Rightarrow> SortFieldInput option" where
  "sort_field_of v =
     (case v of Str s \<Rightarrow> find (\<lambda>f. js (sort_field_text f) = s) SORT_FIELDS | _ \<Rightarrow> None)"

definition sort_order_of :: "jsval \<Rightarrow> SortOrderInput option" where
  "sort_order_of v =
     (case v of Str s \<Rightarrow> find (\<lambda>f. js (sort_order_text f) = s) SORT_ORDERS | _ \<Rightarrow> None)"

definition check_sortField :: "jsval \<Rightarrow> SortFieldInput option outcome" where
  "check_sortField data =
     (let v = get_prop data ''sortField'' in
      if v = Undefined then Inr None
      else case sort_field_of v of
        None \<Rightarrow> Inl (Error (js ''sortField must be one of ''
                 @ join (js '', '') (map (js \<circ> sort_field_text) SORT_FIELDS)))
      | Some f \<Rightarrow> Inr (Some f))"

definition check_sortOrder :: "jsval \<Rightarrow> SortOrderInput option outcome" where
  "check_sortOrder data =
     (let v = get_prop data ''sortOrder'' in
      if v = Undefined then Inr None
      else case sort_order_of v of
        None \<Rightarrow> Inl (Error (js ''sortOrder must be one of ''
                 @ join (js '', '') (map (js \<circ> sort_order_text) SORT_ORDERS)))
      | Some f \<Rightarrow> Inr (Some f))"

text \<open>A required, non-empty string property.\<close>

definition check_nonempty_string :: "string \<Rightarrow> jsval \<Rightarrow> jsstring outcome" where
  "check_nonempty_string name data =
     (case get_prop data name of
        Str s \<Rightarrow> if s = [] then Inl (Error (js (name @ '' must be a non-empty string''))) else Inr s
      | _ \<Rightarrow> Inl (Error (js (name @ '' must be a non-empty string''))))"

text \<open>A required string of decimal digits.\<close>

definition check_id :: "jsval \<Rightarrow> jsstring outcome" where
  "check_id data =
     (case get_prop data ''id'' of
        Str s \<Rightarrow> if is_numeric s then Inr s else Inl (Error (js ''id must be a numeric string''))
      | _ \<Rightarrow> Inl (Error (js ''id must be a numeric string'')))"

definition check_partNumber :: "jsval \<Rightarrow> int outcome" where
  "check_partNumber data =
     (case get_prop data ''partNumber'' of
        Num n \<Rightarrow> if isInteger n then Inr (int_of_num n)
                else Inl (Error (js ''partNumber must be an integer''))
      | _ \<Rightarrow> Inl (Error (js ''partNumber must be an integer'')))"

section \<open>Validators\<close>

definition validateListFilesInput :: "jsval \<Rightarrow> ListFilesInput outcome" where
  "validateListFilesInput input =
     (let data = or_empty input in
      and_then (check_pageSize data) (\<lambda>pageSize.
      and_then (check_optional_string ''pageToken'' data) (\<lambda>pageToken.
      and_then (check_optional_string ''query'' data) (\<lambda>query.
      and_then (check_optional_string ''contentType'' data) (\<lambda>contentType.
      and_then (check_sortField data) (\<lambda>sortField.
      and_then (check_sortOrder data) (\<lambda>sortOrder.
        Inr \<lparr>lfi_pageSize = pageSize, lfi_pageToken = pageToken, lfi_query = query,
             lfi_contentType = contentType, lfi_sortField = sortField,
             lfi_sortOrder = sortOrder\<rparr>)))))))"

definition validateIdInput :: "jsval \<Rightarrow> jsstring outcome" where
  "validateIdInput input = check_id (or_empty input)"

definition validateSearchDirectoriesInput :: "jsval \<Rightarrow> SearchDirectoriesInput outcome" where
  "validateSearchDirectoriesInput input =
     (let data = or_empty input in
      and_then (check_pageSize data) (\<lambda>pageSize.
      and_then (check_optional_string ''pageToken'' data) (\<lambda>pageToken.
      and_then (check_optional_string ''query'' data) (\<lambda>query.
        Inr \<lparr>sdi_pageSize = pageSize, sdi_pageToken = pageToken, sdi_query = query\<rparr>))))"

definition validateKeyInput :: "jsval \<Rightarrow> jsstring outcome" where
  "validateKeyInput input = check_nonempty_string ''key'' (or_empty input)"

definition validateMoveFileInput :: "jsval \<Rightarrow> MoveFileInput outcome" where
  "validateMoveFileInput input =
     (let data = or_empty input in
      and_then (check_id data) (\<lambda>fid.
      and_then (check_nonempty_string ''destinationKey'' data) (\<lambda>destinationKey.
        Inr \<lparr>mfi_id = fid, mfi_destinationKey = destinationKey\<rparr>)))"

definition validateCreateMultipartUploadInput :: "jsval \<Rightarrow> CreateMultipartUploadInput outcome" where
  "validateCreateMultipartUploadInput input =
     (let data = or_empty input in
      and_then (check_nonempty_string ''key'' data) (\<lambda>key.
      and_then (check_nonempty_string ''contentType'' data) (\<lambda>contentType.
        Inr \<lparr>cmi_key = key, cmi_contentType = contentType\<rparr>)))"

definition validateUploadPartUrlInput :: "jsval \<Rightarrow> UploadPartUrlInput outcome" where
  "validateUploadPartUrlInput input =
     (let data = or_empty input in
      and_then (check_nonempty_string ''key'' data) (\<lambda>key.
      and_then (check_nonempty_string ''uploadId'' data) (\<lambda>uploadId.
      and_then (check_partNumber data) (\<lambda>partNumber.
        Inr \<lparr>upi_key = key, upi_uploadId = uploadId, upi_partNumber = partNumber\<rparr>))))"

definition validateUploadIdInput :: "jsval \<Rightarrow> UploadIdInput outcome" where
  "validateUploadIdInput input =
     (let data = or_empty input in
      and_then (check_nonempty_string ''key'' data) (\<lambda>key.
      and_then (check_nonempty_string ''uploadId'' data) (\<lambda>uploadId.
        Inr \<lparr>uii_key = key, uii_uploadId = uploadId\<rparr>)))"

definition validateListDirectoryInput :: "jsval \<Rightarrow> ListDirectoryInput outcome" where
  "validateListDirectoryInput input =
     (let data = or_empty input in
      and_then (check_optional_string ''path'' data) (\<lambda>path.
      and_then (check_pageSize data) (\<lambda>pageSize.
      and_then (check_optional_string ''pageToken'' data) (\<lambda>pageToken.
      and_then (check_sortField data) (\<lambda>sortField.
      and_then (check_sortOrder data) (\<lambda>sortOrder.
        Inr \<lparr>ldi_path = path, ldi_pageSize = pageSize, ldi_pageToken = pageToken,
             ldi_sortField = sortField, ldi_sortOrder = sortOrder\<rparr>))))))"

definition validatePathInput :: "jsval \<Rightarrow> jsstring outcome" where
  "validatePathInput input = check_nonempty_string ''path'' (or_empty input)"

fun string_of_val :: "jsval \<Rightarrow> jsstring outcome" where
  "string_of_val (Str s) = Inr s"
| "string_of_val _ = Inl (Error (js ''ids must be an array of strings''))"

definition validateIdsInput :: "jsval \<Rightarrow> jsstring list outcome" where
  "validateIdsInput input =
     (case get_prop (or_empty input) ''ids'' of
        Arr vs \<Rightarrow> traverse string_of_val vs
      | _ \<Rightarrow> Inl (Error (js ''ids must be an array of strings'')))"

section \<open>What the client sends\<close>

text \<open>The object literal a caller passes as \<open>data\<close>; an undefined property is absent.\<close>

definition opt_prop :: "string \<Rightarrow> ('a \<Rightarrow> jsval) \<Rightarrow> 'a option \<Rightarrow> (jsstring \<times> jsval) list" where
  "opt_prop name f x = (case x of None \<Rightarrow> [] | Some v \<Rightarrow> [(js name, f v)])"

definition num :: "int \<Rightarrow> jsval" where
  "num n = Num (Fin (of_int n))"

definition sort_field_val :: "SortFieldInput \<Rightarrow> jsval" where
  "sort_field_val f = Str (js (sort_field_text f))"

definition sort_order_val :: "SortOrderInput \<Rightarrow> jsval" where
  "sort_order_val f = Str (js (sort_order_text f))"

definition send_ListFilesInput :: "ListFilesInput \<Rightarrow> jsval" where
  "send_ListFilesInput d =
     Obj (opt_prop ''pageSize'' num (lfi_pageSize d) @ opt_prop ''pageToken'' Str (lfi_pageToken d)
        @ opt_prop ''query'' Str (lfi_query d) @ opt_prop ''contentType'' Str (lfi_contentType d)
        @ opt_prop ''sortField'' sort_field_val (lfi_sortField d)
        @ opt_prop ''sortOrder'' sort_order_val (lfi_sortOrder d))"

definition send_SearchDirectoriesInput :: "SearchDirectoriesInput \<Rightarrow> jsval" where
  "send_SearchDirectoriesInput d =
     Obj (opt_prop ''pageSize'' num (sdi_pageSize d) @ opt_prop ''pageToken'' Str (sdi_pageToken d)
        @ opt_prop ''query'' Str (sdi_query d))"

definition send_ListDirectoryInput :: "ListDirectoryInput \<Rightarrow> jsval" where
  "send_ListDirectoryInput d =
     Obj (opt_prop ''path'' Str (ldi_path d) @ opt_prop ''pageSize'' num (ldi_pageSize d)
        @ opt_prop ''pageToken'' Str (ldi_pageToken d)
        @ opt_prop ''sortField'' sort_field_val (ldi_sortField d)
        @ opt_prop ''sortOrder'' sort_order_val (ldi_sortOrder d))"

definition send_id :: "jsstring \<Rightarrow> jsval" where
  "send_id i = Obj [(js ''id'', Str i)]"

definition send_key :: "jsstring \<Rightarrow> jsval" where
  "send_key k = Obj [(js ''key'', Str k)]"

definition send_path :: "jsstring \<Rightarrow> jsval" where
  "send_path p = Obj [(js ''path'', Str p)]"

definition send_ids :: "jsstring list \<Rightarrow> jsval" where
  "send_ids is = Obj [(js ''ids'', Arr (map Str is))]"

definition send_MoveFileInput :: "MoveFileInput \<Rightarrow> jsval" where
  "send_MoveFileInput d =
     Obj ([(js ''id'', Str (mfi_id d))] @ [(js ''destinationKey'', Str (mfi_destinationKey d))])"

definition send_CreateMultipartUploadInput :: "CreateMultipartUploadInput \<Rightarrow> jsval" where
  "send_CreateMultipartUploadInput d =
     Obj ([(js ''key'', Str (cmi_key d))] @ [(js ''contentType'', Str (cmi_contentType d))])"

definition send_UploadPartUrlInput :: "UploadPartUrlInput \<Rightarrow> jsval" where
  "send_UploadPartUrlInput d =
     Obj ([(js ''key'', Str (upi_key d))] @ [(js ''uploadId'', Str (upi_uploadId d))]
        @ [(js ''partNumber'', num (upi_partNumber d))])"

definition send_UploadIdInput :: "UploadIdInput \<Rightarrow> jsval" where
  "send_UploadIdInput d =
     Obj ([(js ''key'', Str (uii_key d))] @ [(js ''uploadId'', Str (uii_uploadId d))])"

section \<open>Well-formed data\<close>

definition wf_pageSize :: "int option \<Rightarrow> bool" where
  "wf_pageSize n = (case n of None \<Rightarrow> True | Some k \<Rightarrow> 1 \<le> k)"

definition wf_MoveFileInput :: "MoveFileInput \<Rightarrow> bool" where
  "wf_MoveFileInput d \<longleftrightarrow> is_numeric (mfi_id d) \<and> mfi_destinationKey d \<noteq> []"

definition wf_CreateMultipartUploadInput :: "CreateMultipartUploadInput \<Rightarrow> bool" where
  "wf_CreateMultipartUploadInput d \<longleftrightarrow> cmi_key d \<noteq> [] \<and> cmi_contentType d \<noteq> []"

definition wf_UploadPartUrlInput :: "UploadPartUrlInput \<Rightarrow> bool" where
  "wf_UploadPartUrlInput d \<longleftrightarrow> upi_key d \<noteq> [] \<and> upi_uploadId d \<noteq> []"

definition wf_UploadIdInput :: "UploadIdInput \<Rightarrow> bool" where
  "wf_UploadIdInput d \<longleftrightarrow> uii_key d \<noteq> [] \<and> uii_uploadId d \<noteq> []"

section \<open>The contract of a validator\<close>

locale input_validator =
  fixes validate :: "jsval \<Rightarrow> 'd outcome"
    and wf :: "'d \<Rightarrow> bool"
    and send :: "'d \<Rightarrow> jsval"
  assumes accepted_wf: "validate v = Inr d \<Longrightarrow> wf d"
    and sent_accepted: "wf d \<Longrightarrow> validate (send d) = Inr d"
begin

lemma accepts_iff: "(\<exists>v. validate v = Inr d) \<longleftrightarrow> wf d"
  using accepted_wf sent_accepted by blast

lemma sent_iff: "validate (send d) = Inr d \<longleftrightarrow> wf d"
  using accepted_wf sent_accepted by blast

lemma revalidate: "validate v = Inr d \<Longrightarrow> validate (send d) = Inr d"
  using accepted_wf sent_accepted by blast

end

subsection \<open>The checks read back what was sent\<close>

lemma or_empty_Obj [simp]: "or_empty (Obj ps) = Obj ps"
  by (simp add: or_empty_def)

lemma js_Map_opt_prop:
  "js_Map (opt_prop name f x) = (case x of None \<Rightarrow> Map.empty | Some v \<Rightarrow> [js name \<mapsto> f v])"
  by (simp add: opt_prop_def split: option.splits)

lemma isInteger_of_int [simp]: "isInteger (Fin (of_int n))"
  and num_less_of_int [simp]: "num_less (Fin (of_int n)) m \<longleftrightarrow> n < m"
  and int_of_num_of_int [simp]: "int_of_num (Fin (of_int n)) = n"
  by simp_all

lemma sort_field_of_val [simp]: "sort_field_of (sort_field_val f) = Some f"
  by (cases f) (simp_all add: sort_field_of_def sort_field_val_def SORT_FIELDS_def)

lemma sort_order_of_val [simp]: "sort_order_of (sort_order_val f) = Some f"
  by (cases f) (simp_all add: sort_order_of_def sort_order_val_def SORT_ORDERS_def)

lemma sort_vals_defined [simp]: "sort_field_val f \<noteq> Undefined" "sort_order_val g \<noteq> Undefined"
  by (simp_all add: sort_field_val_def sort_order_val_def)

lemma check_pageSize_wf: "check_pageSize data = Inr n \<Longrightarrow> wf_pageSize n"
proof -
  assume "check_pageSize data = Inr n"
  moreover have "1 \<le> int_of_num k" if "isInteger k" "\<not> num_less k 1" for k
    using that by (cases k) (simp_all add: le_floor_iff)
  ultimately show ?thesis
    by (auto simp: check_pageSize_def wf_pageSize_def split: jsval.splits if_splits)
qed

lemma check_nonempty_string_wf: "check_nonempty_string k data = Inr s \<Longrightarrow> s \<noteq> []"
  by (auto simp: check_nonempty_string_def split: jsval.splits if_splits)

lemma check_id_wf: "check_id data = Inr s \<Longrightarrow> is_numeric s"
  by (auto simp: check_id_def split: jsval.splits if_splits)

lemmas sent_lookup = js_Map_append js_Map_Cons js_Map_opt_prop map_add_def

lemma check_sent_pageSize:
  "get_prop data ''pageSize'' = (case n of None \<Rightarrow> Undefined | Some k \<Rightarrow> num k) \<Longrightarrow> wf_pageSize n \<Longrightarrow>
    check_pageSize data = Inr n"
  by (auto simp: check_pageSize_def wf_pageSize_def num_def split: option.splits)

lemma check_sent_string:
  "get_prop data k = (case s of None \<Rightarrow> Undefined | Some t \<Rightarrow> Str t) \<Longrightarrow>
    check_optional_string k data = Inr s"
  by (auto simp: check_optional_string_def split: option.splits)

lemma check_sent_sortField:
  "get_prop data ''sortField'' = (case f of None \<Rightarrow> Undefined | Some g \<Rightarrow> sort_field_val g) \<Longrightarrow>
    check_sortField data = Inr f"
  by (auto simp: check_sortField_def split: option.splits)

lemma check_sent_sortOrder:
  "get_prop data ''sortOrder'' = (case f of None \<Rightarrow> Undefined | Some g \<Rightarrow> sort_order_val g) \<Longrightarrow>
    check_sortOrder data = Inr f"
  by (auto simp: check_sortOrder_def split: option.splits)

lemma check_sent_nonempty:
  "get_prop data k = Str s \<Longrightarrow> s \<noteq> [] \<Longrightarrow> check_nonempty_string k data = Inr s"
  by (simp add: check_nonempty_string_def)

lemma check_sent_id: "get_prop data ''id'' = Str s \<Longrightarrow> is_numeric s \<Longrightarrow> check_id data = Inr s"
  by (simp add: check_id_def)

lemma check_sent_partNumber: "get_prop data ''partNumber'' = num n \<Longrightarrow> check_partNumber data = Inr n"
  by (simp add: check_partNumber_def num_def)

lemmas check_sent = check_sent_pageSize check_sent_string check_sent_sortField check_sent_sortOrder

subsection \<open>The validators of the server functions\<close>

interpretation list_files: input_validator
  validateListFilesInput "\<lambda>d. wf_pageSize (lfi_pageSize d)" send_ListFilesInput
proof
  fix v d
  assume "validateListFilesInput v = Inr d"
  then show "wf_pageSize (lfi_pageSize d)"
    by (auto simp: validateListFilesInput_def Let_def and_then_Inr_iff dest: check_pageSize_wf)
next
  fix d :: ListFilesInput
  assume wf: "wf_pageSize (lfi_pageSize d)"
  define data where "data = send_ListFilesInput d"
  note D = data_def [unfolded send_ListFilesInput_def]
  have "check_pageSize data = Inr (lfi_pageSize d)"
    by (rule check_sent) (simp_all add: D sent_lookup wf split: option.splits)
  moreover have "check_optional_string ''pageToken'' data = Inr (lfi_pageToken d)"
    by (rule check_sent) (simp add: D sent_lookup split: option.splits)
  moreover have "check_optional_string ''query'' data = Inr (lfi_query d)"
    by (rule check_sent) (simp add: D sent_lookup split: option.splits)
  moreover have "check_optional_string ''contentType'' data = Inr (lfi_contentType d)"
    by (rule check_sent) (simp add: D sent_lookup split: option.splits)
  moreover have "check_sortField data = Inr (lfi_sortField d)"
    by (rule check_sent) (simp add: D sent_lookup split: option.splits)
  moreover have "check_sortOrder data = Inr (lfi_sortOrder d)"
    by (rule check_sent) (simp add: D sent_lookup split: option.splits)
  moreover have "or_empty data = data" by (simp add: D)
  ultimately show "validateListFilesInput (send_ListFilesInput d) = Inr d"
    by (simp add: validateListFilesInput_def data_def [symmetric])
qed

interpretation search_directories: input_validator
  validateSearchDirectoriesInput "\<lambda>d. wf_pageSize (sdi_pageSize d)" send_SearchDirectoriesInput
proof
  fix v d
  assume "validateSearchDirectoriesInput v = Inr d"
  then show "wf_pageSize (sdi_pageSize d)"
    by (auto simp: validateSearchDirectoriesInput_def Let_def and_then_Inr_iff
        dest: check_pageSize_wf)
next
  fix d :: SearchDirectoriesInput
  assume wf: "wf_pageSize (sdi_pageSize d)"
  define data where "data = send_SearchDirectoriesInput d"
  note D = data_def [unfolded send_SearchDirectoriesInput_def]
  have "check_pageSize data = Inr (sdi_pageSize d)"
    by (rule check_sent) (simp_all add: D sent_lookup wf split: option.splits)
  moreover have "check_optional_string ''pageToken'' data = Inr (sdi_pageToken d)"
    by (rule check_sent) (simp add: D sent_lookup split: option.splits)
  moreover have "check_optional_string ''query'' data = Inr (sdi_query d)"
    by (rule check_sent) (simp add: D sent_lookup split: option.splits)
  moreover have "or_empty data = data" by (simp add: D)
  ultimately show "validateSearchDirectoriesInput (send_SearchDirectoriesInput d) = Inr d"
    by (simp add: validateSearchDirectoriesInput_def data_def [symmetric])
qed

interpretation list_directory: input_validator
  validateListDirectoryInput "\<lambda>d. wf_pageSize (ldi_pageSize d)" send_ListDirectoryInput
proof
  fix v d
  assume "validateListDirectoryInput v = Inr d"
  then show "wf_pageSize (ldi_pageSize d)"
    by (auto simp: validateListDirectoryInput_def Let_def and_then_Inr_iff dest: check_pageSize_wf)
next
  fix d :: ListDirectoryInput
  assume wf: "wf_pageSize (ldi_pageSize d)"
  define data where "data = send_ListDirectoryInput d"
  note D = data_def [unfolded send_ListDirectoryInput_def]
  have "check_optional_string ''path'' data = Inr (ldi_path d)"
    by (rule check_sent) (simp add: D sent_lookup split: option.splits)
  moreover have "check_pageSize data = Inr (ldi_pageSize d)"
    by (rule check_sent) (simp_all add: D sent_lookup wf split: option.splits)
  moreover have "check_optional_string ''pageToken'' data = Inr (ldi_pageToken d)"
    by (rule check_sent) (simp add: D sent_lookup split: option.splits)
  moreover have "check_sortField data = Inr (ldi_sortField d)"
    by (rule check_sent) (simp add: D sent_lookup split: option.splits)
  moreover have "check_sortOrder data = Inr (ldi_sortOrder d)"
    by (rule check_sent) (simp add: D sent_lookup split: option.splits)
  moreover have "or_empty data = data" by (simp add: D)
  ultimately show "validateListDirectoryInput (send_ListDirectoryInput d) = Inr d"
    by (simp add: validateListDirectoryInput_def data_def [symmetric])
qed

interpretation id_input: input_validator validateIdInput is_numeric send_id
  by unfold_locales
    (simp_all add: validateIdInput_def check_id_wf send_id_def check_sent_id)

interpretation key_input: input_validator validateKeyInput "\<lambda>k. k \<noteq> []" send_key
  by unfold_locales
    (simp_all add: validateKeyInput_def check_nonempty_string_wf send_key_def check_sent_nonempty)

interpretation path_input: input_validator validatePathInput "\<lambda>p. p \<noteq> []" send_path
  by unfold_locales
    (simp_all add: validatePathInput_def check_nonempty_string_wf send_path_def check_sent_nonempty)

interpretation ids_input: input_validator validateIdsInput "\<lambda>_. True" send_ids
proof
  fix d :: "jsstring list"
  have "traverse string_of_val (map Str d) = Inr d"
    by (induction d) auto
  then show "validateIdsInput (send_ids d) = Inr d"
    by (simp add: validateIdsInput_def send_ids_def)
qed simp

interpretation move_input: input_validator validateMoveFileInput wf_MoveFileInput send_MoveFileInput
proof
  fix v d
  assume "validateMoveFileInput v = Inr d"
  then show "wf_MoveFileInput d"
    by (auto simp: validateMoveFileInput_def wf_MoveFileInput_def Let_def and_then_Inr_iff
        dest: check_id_wf check_nonempty_string_wf)
next
  fix d
  assume "wf_MoveFileInput d"
  then show "validateMoveFileInput (send_MoveFileInput d) = Inr d"
    by (simp add: validateMoveFileInput_def send_MoveFileInput_def wf_MoveFileInput_def
        sent_lookup check_sent_id check_sent_nonempty)
qed

interpretation create_input: input_validator
  validateCreateMultipartUploadInput wf_CreateMultipartUploadInput send_CreateMultipartUploadInput
proof
  fix v d
  assume "validateCreateMultipartUploadInput v = Inr d"
  then show "wf_CreateMultipartUploadInput d"
    by (auto simp: validateCreateMultipartUploadInput_def wf_CreateMultipartUploadInput_def Let_def
        and_then_Inr_iff dest: check_nonempty_string_wf)
next
  fix d
  assume "wf_CreateMultipartUploadInput d"
  then show "validateCreateMultipartUploadInput (send_CreateMultipartUploadInput d) = Inr d"
    by (simp add: validateCreateMultipartUploadInput_def send_CreateMultipartUploadInput_def
        wf_CreateMultipartUploadInput_def sent_lookup check_sent_nonempty)
qed

interpretation part_input: input_validator
  validateUploadPartUrlInput wf_UploadPartUrlInput send_UploadPartUrlInput
proof
  fix v d
  assume "validateUploadPartUrlInput v = Inr d"
  then show "wf_UploadPartUrlInput d"
    by (auto simp: validateUploadPartUrlInput_def wf_UploadPartUrlInput_def Let_def
        and_then_Inr_iff dest: check_nonempty_string_wf)
next
  fix d
  assume "wf_UploadPartUrlInput d"
  then show "validateUploadPartUrlInput (send_UploadPartUrlInput d) = Inr d"
    by (simp add: validateUploadPartUrlInput_def send_UploadPartUrlInput_def
        wf_UploadPartUrlInput_def sent_lookup check_sent_nonempty check_sent_partNumber)
qed

interpretation upload_input: input_validator
  validateUploadIdInput wf_UploadIdInput send_UploadIdInput
proof
  fix v d
  assume "validateUploadIdInput v = Inr d"
  then show "wf_UploadIdInput d"
    by (auto simp: validateUploadIdInput_def wf_UploadIdInput_def Let_def and_then_Inr_iff
        dest: check_nonempty_string_wf)
next
  fix d
  assume "wf_UploadIdInput d"
  then show "validateUploadIdInput (send_UploadIdInput d) = Inr d"
    by (simp add: validateUploadIdInput_def send_UploadIdInput_def wf_UploadIdInput_def
        sent_lookup check_sent_nonempty)
qed

end
