(* ===== verification/File_Filters.thy ===== *)
theory File_Filters
  imports Validators
begin

text \<open>
  The URL-backed filter state of \<open>web/src/lib/fileFilters.ts\<close>: one record per shape, its defaults,
  and the normalizers that read it from untrusted search parameters. The locale \<open>url_state\<close> states
  what a route relies on: any filter written to the URL, with the default values left out by the
  router, is read back unchanged, and reading never fails. It is interpreted for the three
  shapes.
\<close>

section \<open>Shapes and defaults\<close>

record BrowseFilters =
  bf_path :: jsstring
  bf_sort :: SortFieldInput
  bf_order :: SortOrderInput

record SearchFilters =
  qf_query :: jsstring
  qf_type :: jsstring
  qf_sort :: SortFieldInput
  qf_order :: SortOrderInput

record ListFilters =
  lf_sort :: SortFieldInput
  lf_order :: SortOrderInput

definition DEFAULT_BROWSE_FILTERS :: BrowseFilters where
  "DEFAULT_BROWSE_FILTERS = \<lparr>bf_path = [], bf_sort = SF_key, bf_order = SO_asc\<rparr>"

definition DEFAULT_SEARCH_FILTERS :: SearchFilters where
  "DEFAULT_SEARCH_FILTERS = \<lparr>qf_query = [], qf_type = [], qf_sort = SF_key, qf_order = SO_asc\<rparr>"

definition DEFAULT_LIST_FILTERS :: ListFilters where
  "DEFAULT_LIST_FILTERS = \<lparr>lf_sort = SF_lastModified, lf_order = SO_desc\<rparr>"

section \<open>Reading\<close>

definition parseSort :: "jsval \<Rightarrow> SortFieldInput" where
  "parseSort value =
     (case sort_field_of value of Some f \<Rightarrow> f | None \<Rightarrow> bf_sort DEFAULT_BROWSE_FILTERS)"

definition parseOrder :: "jsval \<Rightarrow> SortOrderInput" where
  "parseOrder value =
     (case sort_order_of value of Some f \<Rightarrow> f | None \<Rightarrow> bf_order DEFAULT_BROWSE_FILTERS)"

text \<open>\<open>typeof v === 'string' ? v : dflt\<close>\<close>

definition string_or :: "jsstring \<Rightarrow> jsval \<Rightarrow> jsstring" where
  "string_or dflt v = (case v of Str s \<Rightarrow> s | _ \<Rightarrow> dflt)"

definition normalizeBrowseFilters :: "jsval \<Rightarrow> BrowseFilters" where
  "normalizeBrowseFilters search =
     \<lparr>bf_path = string_or (bf_path DEFAULT_BROWSE_FILTERS) (get_prop search ''path''),
      bf_sort = parseSort (get_prop search ''sort''),
      bf_order = parseOrder (get_prop search ''order'')\<rparr>"

definition normalizeSearchFilters :: "jsval \<Rightarrow> SearchFilters" where
  "normalizeSearchFilters search =
     \<lparr>qf_query = string_or (qf_query DEFAULT_SEARCH_FILTERS) (get_prop search ''query''),
      qf_type = string_or (qf_type DEFAULT_SEARCH_FILTERS) (get_prop search ''type''),
      qf_sort = parseSort (get_prop search ''sort''),
      qf_order = parseOrder (get_prop search ''order'')\<rparr>"

definition normalizeListFilters :: "jsval \<Rightarrow> ListFilters" where
  "normalizeListFilters search =
     \<lparr>lf_sort = (case sort_field_of (get_prop search ''sort'') of
                   Some f \<Rightarrow> f | None \<Rightarrow> lf_sort DEFAULT_LIST_FILTERS),
      lf_order = (case sort_order_of (get_prop search ''order'') of
                   Some f \<Rightarrow> f | None \<Rightarrow> lf_order DEFAULT_LIST_FILTERS)\<rparr>"

section \<open>Writing\<close>

text \<open>The search parameters that \<open>navigate\<close> is given for a filter: its own properties.\<close>

type_synonym params = "(jsstring \<times> jsval) list"

definition browse_params :: "BrowseFilters \<Rightarrow> params" where
  "browse_params f =
     [(js ''path'', Str (bf_path f)), (js ''sort'', sort_field_val (bf_sort f)),
      (js ''order'', sort_order_val (bf_order f))]"

definition search_params :: "SearchFilters \<Rightarrow> params" where
  "search_params f =
     [(js ''query'', Str (qf_query f)), (js ''type'', Str (qf_type f)),
      (js ''sort'', sort_field_val (qf_sort f)), (js ''order'', sort_order_val (qf_order f))]"

definition list_params :: "ListFilters \<Rightarrow> params" where
  "list_params f =
     [(js ''sort'', sort_field_val (lf_sort f)), (js ''order'', sort_order_val (lf_order f))]"

text \<open>
  The router's \<open>stripSearchParams(dflt)\<close>, which is not under \<open>web/src\<close>, is documented to drop the
  parameters that have their default value and to keep the others.
\<close>

definition strips_defaults :: "params \<Rightarrow> (params \<Rightarrow> params) \<Rightarrow> bool" where
  "strips_defaults dflt strip \<longleftrightarrow>
     (\<forall>ps k. js_Map (strip ps) k = (if js_Map ps k = js_Map dflt k then None else js_Map ps k))"

definition drop_defaults :: "params \<Rightarrow> params \<Rightarrow> params" where
  "drop_defaults dflt ps = filter (\<lambda>(k, v). js_Map ps k \<noteq> js_Map dflt k) ps"

lemma drop_defaults_strips: "strips_defaults dflt (drop_defaults dflt)"
proof -
  have "map_of (filter (\<lambda>(k, v). P k) ps) k = (if P k then map_of ps k else None)"
    for P :: "jsstring \<Rightarrow> bool" and ps :: params and k
    by (induction ps) auto
  then show ?thesis
    by (simp add: strips_defaults_def drop_defaults_def js_Map_def rev_filter)
qed

locale url_state =
  fixes normalize :: "jsval \<Rightarrow> 'f"
    and params_of :: "'f \<Rightarrow> params"
    and dflt :: 'f
  assumes normalize_params: "normalize (Obj (params_of f)) = f"
    and missing_is_default:
      "(\<And>k. js_Map ps (js k) =
          (if js_Map (params_of f) (js k) = js_Map (params_of dflt) (js k) then None
           else js_Map (params_of f) (js k))) \<Longrightarrow>
        normalize (Obj ps) = f"
begin

text \<open>A filter survives the round trip through the URL.\<close>

lemma url_roundtrip:
  "strips_defaults (params_of dflt) strip \<Longrightarrow> normalize (Obj (strip (params_of f))) = f"
  by (rule missing_is_default) (simp add: strips_defaults_def)

text \<open>The bare route has the default filter, and no other filter has a bare URL.\<close>

lemma bare_url: "normalize (Obj []) = dflt"
  by (rule missing_is_default) simp

lemma normalize_idem: "normalize (Obj (params_of (normalize v))) = normalize v"
  by (rule normalize_params)

lemma params_inject: "params_of f = params_of g \<longleftrightarrow> f = g"
  by (metis normalize_params)

end

lemma string_or_Str [simp]: "string_or d (Str s) = s"
  and string_or_Undefined [simp]: "string_or d Undefined = d"
  by (simp_all add: string_or_def)

lemma sort_of_Undefined [simp]: "sort_field_of Undefined = None" "sort_order_of Undefined = None"
  by (simp_all add: sort_field_of_def sort_order_of_def)

lemma sort_vals_inject [simp]:
  "sort_field_val f = sort_field_val g \<longleftrightarrow> f = g" "sort_order_val a = sort_order_val b \<longleftrightarrow> a = b"
  by (metis option.inject sort_field_of_val, metis option.inject sort_order_of_val)

interpretation browse_url: url_state normalizeBrowseFilters browse_params DEFAULT_BROWSE_FILTERS
  by unfold_locales
    (auto simp: normalizeBrowseFilters_def browse_params_def DEFAULT_BROWSE_FILTERS_def
      parseSort_def parseOrder_def js_Map_Cons map_add_def)

interpretation search_url: url_state normalizeSearchFilters search_params DEFAULT_SEARCH_FILTERS
  by unfold_locales
    (auto simp: normalizeSearchFilters_def search_params_def DEFAULT_SEARCH_FILTERS_def
      DEFAULT_BROWSE_FILTERS_def parseSort_def parseOrder_def js_Map_Cons map_add_def)

interpretation list_url: url_state normalizeListFilters list_params DEFAULT_LIST_FILTERS
  by unfold_locales
    (auto simp: normalizeListFilters_def list_params_def DEFAULT_LIST_FILTERS_def
      js_Map_Cons map_add_def)

text \<open>
  URLs carry the filters: for each of the three routes, whatever filter a navigation writes, with
  the defaults left out by the router, the filter the route reads back from the URL is the same;
  and the bare URL is the default filter.
\<close>

theorem filters_url_roundtrip:
  assumes "strips_defaults (browse_params DEFAULT_BROWSE_FILTERS) stripB"
    and "strips_defaults (search_params DEFAULT_SEARCH_FILTERS) stripS"
    and "strips_defaults (list_params DEFAULT_LIST_FILTERS) stripL"
  shows "normalizeBrowseFilters (Obj (stripB (browse_params b))) = b
    \<and> normalizeSearchFilters (Obj (stripS (search_params s))) = s
    \<and> normalizeListFilters (Obj (stripL (list_params l))) = l
    \<and> normalizeBrowseFilters (Obj []) = DEFAULT_BROWSE_FILTERS
    \<and> normalizeSearchFilters (Obj []) = DEFAULT_SEARCH_FILTERS
    \<and> normalizeListFilters (Obj []) = DEFAULT_LIST_FILTERS"
  by (intro conjI browse_url.url_roundtrip search_url.url_roundtrip list_url.url_roundtrip
      browse_url.bare_url search_url.bare_url list_url.bare_url assms)

theorem filters_url_roundtrip_witness:
  "normalizeBrowseFilters (Obj (drop_defaults (browse_params DEFAULT_BROWSE_FILTERS)
      (browse_params \<lparr>bf_path = js ''docs/'', bf_sort = SF_key, bf_order = SO_desc\<rparr>))) =
    \<lparr>bf_path = js ''docs/'', bf_sort = SF_key, bf_order = SO_desc\<rparr>"
  using filters_url_roundtrip [OF drop_defaults_strips drop_defaults_strips drop_defaults_strips]
  by blast

end
