(* ===== verification/Query_Keys.thy ===== *)
theory Query_Keys
  imports File_Filters
begin

text \<open>
  The query keys under which the components cache what they loaded, and the keys they invalidate
  after a change. A key is a list of parts; \<open>invalidateQueries\<close> of the query library marks every
  cached query whose key starts with the given one. Which listings a mutation refreshes is a
  question about these lists.
\<close>

section \<open>Keys\<close>

datatype query_part = Part jsstring | Filters SearchFilters

type_synonym query_key = "query_part list"

text \<open>\<open>FileList.tsx\<close>, on the search page and on Recents.\<close>

definition files_key :: "SearchFilters \<Rightarrow> query_key" where
  "files_key filters = [Part (js ''files''), Filters filters]"

definition content_types_key :: query_key where
  "content_types_key = [Part (js ''contentTypes'')]"

text \<open>\<open>DirectoryList.tsx\<close>.\<close>

definition directory_key :: "jsstring \<Rightarrow> SortFieldInput \<Rightarrow> SortOrderInput \<Rightarrow> query_key" where
  "directory_key path field order =
     [Part (js ''directory''), Part path, Part (js (sort_field_text field)), Part (js (sort_order_text order))]"

definition directory_stats_key :: "jsstring \<Rightarrow> query_key" where
  "directory_stats_key path = [Part (js ''directory-stats''), Part path]"

text \<open>\<open>FolderTree.tsx\<close> and \<open>MoveFileDialog.tsx\<close>, which share the key.\<close>

definition folder_tree_key :: "jsstring \<Rightarrow> query_key" where
  "folder_tree_key path = [Part (js ''folder-tree''), Part path]"

text \<open>\<open>PhotoWall.tsx\<close>.\<close>

definition photos_key :: query_key where
  "photos_key = [Part (js ''photos'')]"

text \<open>\<open>routes/file.$id.tsx\<close>.\<close>

definition file_metadata_key :: "jsstring \<Rightarrow> query_key" where
  "file_metadata_key fid = [Part (js ''file-metadata''), Part fid]"

definition file_open_url_key :: "jsstring \<Rightarrow> query_key" where
  "file_open_url_key fid = [Part (js ''file-open-url''), Part fid]"

text \<open>\<open>SearchBar.tsx\<close>.\<close>

definition search_dropdown_key :: "jsstring \<Rightarrow> query_key" where
  "search_dropdown_key query = [Part (js ''search-dropdown''), Part query]"

definition search_folders_key :: "jsstring \<Rightarrow> query_key" where
  "search_folders_key query = [Part (js ''search-dropdown-folders''), Part query]"

section \<open>Invalidation\<close>

text \<open>The keys invalidated after a move, by the table and by the file page.\<close>

definition moved_keys :: "query_key list" where
  "moved_keys = [[Part (js ''files'')], [Part (js ''directory'')], [Part (js ''folder-tree'')]]"

text \<open>The prop \<open>invalidateKeys\<close> of the table, in \<open>FileList.tsx\<close> and in \<open>DirectoryList.tsx\<close>.\<close>

definition file_list_keys :: "query_key list" where
  "file_list_keys = [[Part (js ''files'')]]"

definition directory_list_keys :: "jsstring \<Rightarrow> query_key list" where
  "directory_list_keys path = [[Part (js ''directory''), Part path], [Part (js ''folder-tree'')]]"

text \<open>The keys invalidated after an upload and after the deletion of a folder.\<close>

definition directory_changed_keys :: "query_key list" where
  "directory_changed_keys = [[Part (js ''directory'')], [Part (js ''folder-tree'')]]"

text \<open>What the query library documents: a key invalidates the queries whose key it starts.\<close>

fun starts :: "query_key \<Rightarrow> query_key \<Rightarrow> bool" where
  "starts [] q = True"
| "starts (k # ks) [] = False"
| "starts (k # ks) (x # q) = (k = x \<and> starts ks q)"

definition invalidated :: "query_key list \<Rightarrow> query_key \<Rightarrow> bool" where
  "invalidated ks q = list_ex (\<lambda>k. starts k q) ks"

lemmas query_keys = files_key_def content_types_key_def directory_key_def directory_stats_key_def
  folder_tree_key_def photos_key_def file_metadata_key_def file_open_url_key_def
  search_dropdown_key_def search_folders_key_def moved_keys_def file_list_keys_def
  directory_list_keys_def directory_changed_keys_def

text \<open>
  What is refreshed: a move refreshes every cached listing of files, directories and tree folders; a
  delete in a listing refreshes that listing, whatever its sorting, and in browse mode the tree; an
  upload and a folder's deletion refresh all directories and the tree. None of them refreshes the
  photo wall, the search dropdown or the page of a file.
\<close>

theorem invalidation_coverage:
  "invalidated moved_keys (files_key f) \<and> invalidated moved_keys (directory_key p so od)
    \<and> invalidated moved_keys (folder_tree_key p)
    \<and> invalidated file_list_keys (files_key f)
    \<and> invalidated (directory_list_keys p) (folder_tree_key q)
    \<and> (invalidated (directory_list_keys p) (directory_key q so od) \<longleftrightarrow> q = p)
    \<and> invalidated directory_changed_keys (directory_key p so od)
    \<and> invalidated directory_changed_keys (folder_tree_key p)
    \<and> list_all (\<lambda>ks. \<not> invalidated ks photos_key \<and> \<not> invalidated ks (search_dropdown_key t)
        \<and> \<not> invalidated ks (file_metadata_key fid))
      [moved_keys, file_list_keys, directory_list_keys p, directory_changed_keys]"
  by (auto simp: invalidated_def query_keys)

end
