(* ===== verification/Path_Ui.thy ===== *)
theory Path_Ui
  imports Js_Strings
begin

text \<open>
  Paths as the components show them: the crumbs of \<open>Breadcrumbs.tsx\<close> and of the bar in
  \<open>MoveFileDialog.tsx\<close>, and the names of folders and files in \<open>FolderTree.tsx\<close>,
  \<open>MoveFileDialog.tsx\<close>, \<open>DirectoryList.tsx\<close> and \<open>file.$id.tsx\<close>.
\<close>

section \<open>Crumbs\<close>

record Crumb =
  cr_segment :: jsstring
  cr_path :: jsstring
  cr_clickable :: bool

definition crumb_segments :: "jsstring \<Rightarrow> jsstring list" where
  "crumb_segments path = (if path = [] then [] else split slash (strip_trailing_slash path))"

definition crumb :: "bool \<Rightarrow> jsstring list \<Rightarrow> nat \<Rightarrow> Crumb" where
  "crumb lastIsCurrent segments i =
     \<lparr>cr_segment = segments ! i,
      cr_path = join [slash] (slice segments 0 (Some (int i + 1))) @ [slash],
      cr_clickable = (i \<noteq> length segments - 1 \<or> \<not> lastIsCurrent)\<rparr>"

text \<open>The crumbs after Home, in order.\<close>

definition Breadcrumbs :: "jsstring \<Rightarrow> bool \<Rightarrow> Crumb list" where
  "Breadcrumbs path lastIsCurrent =
     map (crumb lastIsCurrent (crumb_segments path)) [0..<length (crumb_segments path)]"

text \<open>The move dialog drops empty segments and never links the last one.\<close>

definition dialog_segments :: "jsstring \<Rightarrow> jsstring list" where
  "dialog_segments viewPath = filter (\<lambda>s. s \<noteq> []) (split slash (strip_trailing_slash viewPath))"

definition dialog_crumbs :: "jsstring \<Rightarrow> Crumb list" where
  "dialog_crumbs viewPath =
     map (crumb True (dialog_segments viewPath)) [0..<length (dialog_segments viewPath)]"

section \<open>Names\<close>

text \<open>\<open>prefix.replace(/\/$/, '').split('/').pop()\<close>\<close>

definition folder_name :: "jsstring \<Rightarrow> jsstring" where
  "folder_name prefix = last (split slash (strip_trailing_slash prefix))"

text \<open>\<open>data.key.split('/').pop()\<close>\<close>

definition file_title :: "jsstring \<Rightarrow> jsstring" where
  "file_title key = last (split slash key)"

text \<open>The names of the children of the browsed directory.\<close>

definition basename :: "jsstring \<Rightarrow> jsstring \<Rightarrow> jsstring" where
  "basename path key = slice key (int (length path)) None"

definition dirName :: "jsstring \<Rightarrow> jsstring \<Rightarrow> jsstring" where
  "dirName path dir = strip_trailing_slash (basename path dir)"

section \<open>Facts\<close>

lemma crumb_path:
  "i < length segs \<Longrightarrow> cr_path (crumb b segs i) = join [slash] (take (Suc i) segs) @ [slash]"
proof -
  have "int i + 1 = int (Suc i)" by simp
  then show ?thesis by (simp only: crumb_def Crumb.simps slice_upto)
qed

lemma split_append: "split c (a @ c # b) = split c a @ split c b"
  by (induction a) (auto split: list.splits)

lemma last_split: "last (split slash key) = base_part key"
proof -
  have key: "key = dir_part key @ base_part key" by (simp add: dir_base_part)
  show ?thesis
  proof (cases "dir_part key" rule: rev_cases)
    case Nil
    with key base_part_no_slash [of key] show ?thesis by (metis append_Nil last.simps split_no_sep)
  next
    case (snoc d c)
    then have "c = slash" using dir_part_ends [of key] by simp
    have "last (split slash (d @ slash # n)) = n" if "slash \<notin> set n" for n
      using that by (simp add: split_append split_no_sep)
    with key snoc \<open>c = slash\<close> base_part_no_slash [of key] show ?thesis by (metis append.assoc append_Cons append_Nil)
  qed
qed

lemma crumb_segments_join:
  assumes "path \<noteq> []" and "last path = slash"
  shows "join [slash] (crumb_segments path) @ [slash] = path"
proof -
  have "crumb_segments path = split slash (butlast path)"
    using assms by (simp add: crumb_segments_def strip_trailing_slash_def)
  then show ?thesis using assms by (metis append_butlast_last_id join_split)
qed

lemma last_crumb_path:
  assumes "path \<noteq> []" and "last path = slash"
  shows "cr_path (last (Breadcrumbs path cur)) = path"
proof -
  have "crumb_segments path \<noteq> []" using assms by (simp add: crumb_segments_def)
  with crumb_segments_join [OF assms] show ?thesis by (simp add: Breadcrumbs_def last_map crumb_path)
qed

lemma crumb_segments_path_of:
  assumes "\<forall>s \<in> set names. slash \<notin> set s"
  shows "crumb_segments (path_of names) = names"
proof (cases "names = []")
  case False
  then have path: "path_of names = join [slash] names @ [slash]" by (simp add: join_path_of)
  then have "crumb_segments (path_of names) = split slash (join [slash] names)"
    by (simp add: crumb_segments_def strip_trailing_slash_def)
  with False assms show ?thesis by (simp add: split_join)
qed (simp add: crumb_segments_def)

text \<open>
  C33. The breadcrumbs of a directory are the directories on the way to it, no more and no fewer: one
  for each name of the path, in order, labelled with the name and leading to the directory of exactly
  the names up to it, whatever names recur; only the last may be inert, and it is exactly when it is
  the current place. At the root there is none.
\<close>

theorem Breadcrumbs_correct:
  assumes "\<forall>s \<in> set names. slash \<notin> set s"
  shows "Breadcrumbs (path_of names) lastIsCurrent =
    map (\<lambda>i. \<lparr>cr_segment = names ! i, cr_path = path_of (take (Suc i) names),
        cr_clickable = (Suc i \<noteq> length names \<or> \<not> lastIsCurrent)\<rparr>) [0..<length names]"
proof -
  have "crumb lastIsCurrent names i = \<lparr>cr_segment = names ! i, cr_path = path_of (take (Suc i) names),
      cr_clickable = (Suc i \<noteq> length names \<or> \<not> lastIsCurrent)\<rparr>" if i: "i < length names" for i
  proof -
    from i have "take (Suc i) names \<noteq> []" by auto
    from join_path_of [OF this] crumb_path [OF i, of lastIsCurrent]
    have "cr_path (crumb lastIsCurrent names i) = path_of (take (Suc i) names)" by simp
    then show ?thesis using i by (auto simp: crumb_def)
  qed
  with crumb_segments_path_of [OF assms] show ?thesis by (simp add: Breadcrumbs_def)
qed

theorem Breadcrumbs_correct_witness:
  "Breadcrumbs (js ''a/b/a/'') True = [\<lparr>cr_segment = js ''a'', cr_path = js ''a/'', cr_clickable = True\<rparr>,
     \<lparr>cr_segment = js ''b'', cr_path = js ''a/b/'', cr_clickable = True\<rparr>,
     \<lparr>cr_segment = js ''a'', cr_path = js ''a/b/a/'', cr_clickable = False\<rparr>]"
  using Breadcrumbs_correct [of "[js ''a'', js ''b'', js ''a'']" True]
  by (simp add: js_def slash_def upt_rec)

text \<open>
  One name per entry: a directory and a file directly inside the browsed directory show the same
  name in the listing, in the folder tree and in the move dialog, respectively on the file's page,
  and the parent path shown there is the browsed directory.
\<close>

theorem child_names:
  assumes "path = [] \<or> last path = slash" and "slash \<notin> set n"
  shows "dirName path (path @ n @ [slash]) = n \<and> folder_name (path @ n @ [slash]) = n
    \<and> basename path (path @ n) = n \<and> file_title (path @ n) = n \<and> dir_part (path @ n) = path"
proof -
  have strip: "strip_trailing_slash (q @ [slash]) = q" for q
    by (simp add: strip_trailing_slash_def)
  have "last (split slash (path @ n)) = n"
    using base_part_dir [OF assms] by (simp add: last_split)
  moreover have "path @ n @ [slash] = (path @ n) @ [slash]" by simp
  ultimately show ?thesis
    using dir_part_dir [OF assms] strip [of n] strip [of "path @ n"]
    by (simp add: dirName_def folder_name_def basename_def file_title_def)
qed

theorem child_names_witness:
  "dirName (js ''a/'') (js ''a/'' @ js ''b'' @ [slash]) = js ''b''
    \<and> folder_name (js ''a/'' @ js ''b'' @ [slash]) = js ''b''
    \<and> basename (js ''a/'') (js ''a/'' @ js ''b'') = js ''b'' \<and> file_title (js ''a/'' @ js ''b'') = js ''b''
    \<and> dir_part (js ''a/'' @ js ''b'') = js ''a/''"
  by (rule child_names) (simp_all add: js_def slash_def)

end
