(* ===== verification/Js_Dates.thy ===== *)
theory Js_Dates
  imports Js_Numbers
begin

text \<open>
  Dates, as far as the sources use them. A \<open>Date\<close> is its time value, milliseconds since the epoch
  in UTC, or \<open>None\<close> for an invalid date. The module gives \<open>toISOString\<close>, the reading of such a
  string by \<open>new Date(...)\<close>, and the en-US medium date of \<open>Intl.DateTimeFormat\<close>; days are
  turned into civil dates of the proleptic Gregorian calendar, in years that begin in March so
  that the leap day comes last.
\<close>

section \<open>Definitions\<close>

type_synonym Date = "int option"

definition ms_per_day :: int where
  "ms_per_day = 86400000"

definition max_time :: int where
  "max_time = 8640000000000000"

text \<open>\<open>TimeClip\<close>: a time value out of range makes the date invalid.\<close>

definition time_clip :: "int \<Rightarrow> Date" where
  "time_clip t = (if \<bar>t\<bar> \<le> max_time then Some t else None)"

text \<open>A day of a 400-year era that begins on 1 March: year of the era, day of the year.\<close>

definition year_of_era :: "int \<Rightarrow> int \<times> int" where
  "year_of_era doe =
     (let c = min 3 (doe div 36524); r1 = doe - 36524 * c;
          q = min 24 (r1 div 1461); r2 = r1 - 1461 * q;
          a = min 3 (r2 div 365)
      in (100 * c + 4 * q + a, r2 - 365 * a))"

text \<open>Month counted from March and day of the month.\<close>

definition month_of_year :: "int \<Rightarrow> int \<times> int" where
  "month_of_year doy = (let mp = (5 * doy + 2) div 153 in (mp, doy - (153 * mp + 2) div 5 + 1))"

text \<open>Year, month and day of the day number \<open>z\<close> (0 is 1 January 1970).\<close>

definition civil_from_days :: "int \<Rightarrow> int \<times> int \<times> int" where
  "civil_from_days z =
     (let z' = z + 719468;
          (yoe, doy) = year_of_era (z' mod 146097);
          (mp, d) = month_of_year doy;
          m = (if mp < 10 then mp + 3 else mp - 9);
          y = yoe + 400 * (z' div 146097) + (if m \<le> 2 then 1 else 0)
      in (y, m, d))"

text \<open>The day number of a civil date, the inverse on valid dates.\<close>

definition days_from_civil :: "int \<Rightarrow> int \<Rightarrow> int \<Rightarrow> int" where
  "days_from_civil y m d =
     (let y' = (if m \<le> 2 then y - 1 else y);
          yoe = y' mod 400;
          mp = (if m \<le> 2 then m + 9 else m - 3);
          doy = (153 * mp + 2) div 5 + d - 1
      in 146097 * (y' div 400) + 365 * yoe + yoe div 4 - yoe div 100 + doy - 719468)"

definition day_of :: "int \<Rightarrow> int" where
  "day_of t = t div ms_per_day"

text \<open>A number in decimal with leading zeros to at least \<open>w\<close> digits.\<close>

definition padded :: "nat \<Rightarrow> nat \<Rightarrow> jsstring" where
  "padded w n = replicate (w - length (dec n)) (digit 0) @ dec n"

definition iso_year :: "int \<Rightarrow> jsstring" where
  "iso_year y =
     (if 0 \<le> y \<and> y \<le> 9999 then padded 4 (nat y)
      else if y < 0 then js ''-'' @ padded 6 (nat (- y))
      else js ''+'' @ padded 6 (nat y))"

definition RangeError_time :: js_error where
  "RangeError_time = \<lparr>err_name = js ''RangeError'', err_message = js ''Invalid time value''\<rparr>"

fun toISOString :: "Date \<Rightarrow> jsstring outcome" where
  "toISOString None = Inl RangeError_time"
| "toISOString (Some t) =
     (let (y, m, d) = civil_from_days (day_of t); r = nat (t mod ms_per_day)
      in Inr (iso_year y @ js ''-'' @ padded 2 (nat m) @ js ''-'' @ padded 2 (nat d)
           @ js ''T'' @ padded 2 (r div 3600000) @ js '':'' @ padded 2 (r div 60000 mod 60)
           @ js '':'' @ padded 2 (r div 1000 mod 60) @ js ''.'' @ padded 3 (r mod 1000) @ js ''Z''))"

definition short_months :: "jsstring list" where
  "short_months = [js ''Jan'', js ''Feb'', js ''Mar'', js ''Apr'', js ''May'', js ''Jun'',
     js ''Jul'', js ''Aug'', js ''Sep'', js ''Oct'', js ''Nov'', js ''Dec'']"

text \<open>\<open>Intl.DateTimeFormat('en-US', {year: 'numeric', month: 'short', day: 'numeric',
  timeZone: 'UTC'})\<close>, for example \<open>Mar 28, 2026\<close>.\<close>

definition format_en_US :: "int \<Rightarrow> jsstring" where
  "format_en_US t =
     (let (y, m, d) = civil_from_days (day_of t)
      in short_months ! nat (m - 1) @ js '' '' @ dec (nat d) @ js '', ''
           @ dec (nat (if 0 < y then y else 1 - y)))"

text \<open>
  \<open>new Date(s)\<close> on a string: the complete UTC form that \<open>toISOString\<close> writes is read here; any
  other string goes to \<open>other\<close>, which stands for the remaining, partly implementation-defined
  formats.
\<close>

definition fixed_digits :: "nat \<Rightarrow> jsstring \<Rightarrow> (nat \<times> jsstring) option" where
  "fixed_digits w s =
     (if length (takeWhile is_digit (take w s)) = w
      then map_option (\<lambda>n. (n, drop w s)) (radix_value 10 0 (take w s)) else None)"

definition expect :: "char \<Rightarrow> jsstring \<Rightarrow> jsstring option" where
  "expect c s = (case s of x # r \<Rightarrow> if x = of_char c then Some r else None | [] \<Rightarrow> None)"

definition read_year :: "jsstring \<Rightarrow> (int \<times> jsstring) option" where
  "read_year s =
     (case s of
        [] \<Rightarrow> None
      | c # r \<Rightarrow>
          if c = of_char (CHR ''-'') then map_option (apfst (\<lambda>n. - int n)) (fixed_digits 6 r)
          else if c = of_char (CHR ''+'') then map_option (apfst int) (fixed_digits 6 r)
          else map_option (apfst int) (fixed_digits 4 s))"

definition field :: "nat \<Rightarrow> char \<Rightarrow> jsstring \<Rightarrow> (nat \<times> jsstring) option" where
  "field w c s = Option.bind (expect c s) (fixed_digits w)"

definition parse_iso :: "jsstring \<Rightarrow> int option" where
  "parse_iso s =
     Option.bind (read_year s) (\<lambda>(y, s1).
     Option.bind (field 2 (CHR ''-'') s1) (\<lambda>(m, s2).
     Option.bind (field 2 (CHR ''-'') s2) (\<lambda>(d, s3).
     Option.bind (field 2 (CHR ''T'') s3) (\<lambda>(h, s4).
     Option.bind (field 2 (CHR '':'') s4) (\<lambda>(mi, s5).
     Option.bind (field 2 (CHR '':'') s5) (\<lambda>(sec, s6).
     Option.bind (field 3 (CHR ''.'') s6) (\<lambda>(ms, s7).
       if s7 = js ''Z'' \<and> 1 \<le> m \<and> m \<le> 12 \<and> 1 \<le> d \<and> d \<le> 31 \<and> h < 24 \<and> mi < 60 \<and> sec < 60
       then Some (ms_per_day * days_from_civil y (int m) (int d)
              + int (3600000 * h + 60000 * mi + 1000 * sec + ms))
       else None)))))))"

definition Date_parse :: "(jsstring \<Rightarrow> Date) \<Rightarrow> jsstring \<Rightarrow> Date" where
  "Date_parse other s = (case parse_iso s of Some t \<Rightarrow> time_clip t | None \<Rightarrow> other s)"

section \<open>The calendar\<close>

lemma year_of_era_bounds:
  assumes "0 \<le> doe" "doe < 146097" "year_of_era doe = (yoe, doy)"
  shows "0 \<le> yoe \<and> yoe \<le> 399" and "0 \<le> doy \<and> doy \<le> 365"
    and "doe = 365 * yoe + yoe div 4 - yoe div 100 + doy"
proof -
  define c where "c = min 3 (doe div 36524)"
  define r1 where "r1 = doe - 36524 * c"
  define q where "q = min 24 (r1 div 1461)"
  define r2 where "r2 = r1 - 1461 * q"
  define a where "a = min 3 (r2 div 365)"
  have y: "yoe = 100 * c + (4 * q + a)" and d: "doy = r2 - 365 * a"
    using assms(3) by (auto simp: year_of_era_def Let_def c_def r1_def q_def r2_def a_def)
  have c: "0 \<le> c" "c \<le> 3" and r1: "0 \<le> r1" "r1 \<le> 36524"
    using assms(1,2) unfolding c_def r1_def by (auto simp: min_def)
  have q: "0 \<le> q" "q \<le> 24" and r2: "0 \<le> r2" "r2 \<le> 1460"
    using r1 unfolding q_def r2_def by (auto simp: min_def)
  have a: "0 \<le> a" "a \<le> 3" and doy: "0 \<le> doy" "doy \<le> 365"
    using r2 unfolding a_def d by (auto simp: min_def)
  show "0 \<le> yoe \<and> yoe \<le> 399" and "0 \<le> doy \<and> doy \<le> 365"
    using c q a doy y by auto
  have "yoe div 100 = c" using q a y by simp
  moreover have "yoe div 4 = 25 * c + q" using a y by (simp add: algebra_simps)
  ultimately show "doe = 365 * yoe + yoe div 4 - yoe div 100 + doy"
    using y d r1_def r2_def by simp
qed

lemma month_of_year_bounds:
  assumes "0 \<le> doy" "doy \<le> 365" "month_of_year doy = (mp, d)"
  shows "0 \<le> mp \<and> mp \<le> 11" and "1 \<le> d \<and> d \<le> 31" and "doy = (153 * mp + 2) div 5 + d - 1"
proof -
  have mp: "mp = (5 * doy + 2) div 153" and d: "d = doy - (153 * mp + 2) div 5 + 1"
    using assms(3) by (auto simp: month_of_year_def Let_def)
  show "0 \<le> mp \<and> mp \<le> 11" using assms(1,2) unfolding mp by auto
  have "153 * mp \<le> 5 * doy + 2" "5 * doy + 2 < 153 * mp + 153" unfolding mp by auto
  then show "1 \<le> d \<and> d \<le> 31" unfolding d by auto
  show "doy = (153 * mp + 2) div 5 + d - 1" using d by simp
qed

lemma civil_from_days_bounds:
  assumes "civil_from_days z = (y, m, d)"
  shows "1 \<le> m \<and> m \<le> 12" and "1 \<le> d \<and> d \<le> 31" and "days_from_civil y m d = z"
proof -
  define doe where "doe = (z + 719468) mod 146097"
  define era where "era = (z + 719468) div 146097"
  obtain yoe doy where yd: "year_of_era doe = (yoe, doy)" by (cases "year_of_era doe")
  obtain mp d' where md: "month_of_year doy = (mp, d')" by (cases "month_of_year doy")
  have doe: "0 \<le> doe" "doe < 146097" unfolding doe_def by auto
  note Y = year_of_era_bounds [OF doe yd]
  have "0 \<le> doy" "doy \<le> 365" using Y(2) by auto
  note M = month_of_year_bounds [OF this md]
  have m: "m = (if mp < 10 then mp + 3 else mp - 9)" and dd: "d = d'"
    and y: "y = yoe + 400 * era + (if m \<le> 2 then 1 else 0)"
    using assms yd md by (auto simp: civil_from_days_def Let_def doe_def era_def)
  show "1 \<le> m \<and> m \<le> 12" using m M(1) by auto
  show "1 \<le> d \<and> d \<le> 31" using dd M(2) by simp
  define y' where "y' = (if m \<le> 2 then y - 1 else y)"
  have y': "y' = yoe + 400 * era" using y by (simp add: y'_def)
  have "y' mod 400 = yoe" "y' div 400 = era" using Y(1) unfolding y' by auto
  moreover have "(if m \<le> 2 then m + 9 else m - 3) = mp" using m M(1) by auto
  ultimately have "days_from_civil y m d =
      146097 * era + 365 * yoe + yoe div 4 - yoe div 100 + doy - 719468"
    using M(3) dd by (simp add: days_from_civil_def Let_def y'_def [symmetric])
  also have "\<dots> = z"
    using Y(3) doe_def era_def mult_div_mod_eq [of 146097 "z + 719468"] by linarith
  finally show "days_from_civil y m d = z" .
qed

lemma civil_from_days_inject: "civil_from_days z = civil_from_days w \<longleftrightarrow> z = w"
proof
  assume eq: "civil_from_days z = civil_from_days w"
  obtain y m d where z: "civil_from_days z = (y, m, d)" by (cases "civil_from_days z")
  show "z = w"
    using civil_from_days_bounds(3) [OF z] civil_from_days_bounds(3) [OF trans [OF eq [symmetric] z]]
    by simp
qed simp

lemma civil_epoch: "civil_from_days 0 = (1970, 1, 1)"
  by code_simp

lemma civil_year_bound:
  assumes "civil_from_days z = (y, m, d)" and "\<bar>z\<bar> \<le> 100000000"
  shows "\<bar>y\<bar> < 1000000"
proof -
  define doe where "doe = (z + 719468) mod 146097"
  define era where "era = (z + 719468) div 146097"
  obtain yoe doy where yd: "year_of_era doe = (yoe, doy)" by (cases "year_of_era doe")
  have doe: "0 \<le> doe" "doe < 146097" unfolding doe_def by auto
  have y: "yoe + 400 * era \<le> y \<and> y \<le> yoe + 400 * era + 1"
    using assms(1) yd by (auto simp: civil_from_days_def Let_def doe_def era_def split: prod.splits)
  have e: "146097 * era \<le> z + 719468" "z + 719468 < 146097 * era + 146097"
    unfolding era_def by auto
  have "-700 \<le> era" "era \<le> 700" using assms(2) e by auto
  with y year_of_era_bounds(1) [OF doe yd] show ?thesis by auto
qed

text \<open>The first instant a protobuf timestamp may denote, 1 January of year 1.\<close>

definition min_timestamp_ms :: int where
  "min_timestamp_ms = -62135596800000"

lemma civil_year_positive:
  assumes "civil_from_days (day_of t) = (y, m, d)" and "min_timestamp_ms \<le> t"
  shows "0 < y"
proof -
  define z where "z = day_of t"
  have z: "0 \<le> z + 719162"
    using assms(2) unfolding z_def day_of_def ms_per_day_def min_timestamp_ms_def by auto
  define doe where "doe = (z + 719468) mod 146097"
  define era where "era = (z + 719468) div 146097"
  obtain yoe doy where yd: "year_of_era doe = (yoe, doy)" by (cases "year_of_era doe")
  have doe: "0 \<le> doe" "doe < 146097" unfolding doe_def by auto
  note Y = year_of_era_bounds [OF doe yd]
  have y: "y = yoe + 400 * era + (if m \<le> 2 then 1 else 0)"
    and m: "m = (if (5 * doy + 2) div 153 < 10 then (5 * doy + 2) div 153 + 3 else (5 * doy + 2) div 153 - 9)"
    using assms(1) yd
    by (auto simp: civil_from_days_def Let_def doe_def era_def z_def month_of_year_def)
  have "0 \<le> era" using z unfolding era_def by auto
  show ?thesis
  proof (cases "era = 0 \<and> yoe = 0")
    case True
    then have "306 \<le> doe"
      using z mult_div_mod_eq [of 146097 "z + 719468"] unfolding era_def doe_def by auto
    with True Y(3) have "306 \<le> doy" by simp
    then have "10 \<le> (5 * doy + 2) div 153" by auto
    moreover have "(5 * doy + 2) div 153 \<le> 11" using Y(2) by auto
    ultimately show ?thesis using True y m by auto
  qed (use \<open>0 \<le> era\<close> Y(1) y in auto)
qed

section \<open>The en-US date names the day\<close>

lemma dec_inject [simp]: "dec m = dec n \<longleftrightarrow> m = n"
  by (metis option.inject radix_value_dec)

lemma append_sep_eq:
  "c \<notin> set a \<Longrightarrow> c \<notin> set b \<Longrightarrow> a @ c # x = b @ c # y \<longleftrightarrow> a = b \<and> x = y"
proof (induction a arbitrary: b)
  case Nil
  then show ?case by (cases b) auto
next
  case (Cons u a)
  then show ?case by (cases b) auto
qed

lemma not_digit_notin_dec: "\<not> is_digit c \<Longrightarrow> c \<notin> set (dec n)"
  using dec_digits [of n] by (auto simp: list_all_iff)

lemma short_months_nth:
  assumes "1 \<le> m" "m \<le> 12"
  shows "length (short_months ! nat (m - 1)) = 3"
proof -
  have "short_months ! nat (m - 1) \<in> set short_months"
    using assms by (intro nth_mem) (simp add: short_months_def)
  then show ?thesis by (auto simp: short_months_def)
qed

lemma short_months_inject:
  assumes "1 \<le> m" "m \<le> 12" "1 \<le> n" "n \<le> 12"
    and "short_months ! nat (m - 1) = short_months ! nat (n - 1)"
  shows "m = n"
proof -
  have "distinct short_months" by (simp add: short_months_def)
  moreover have "nat (m - 1) < length short_months" "nat (n - 1) < length short_months"
    using assms(1-4) by (simp_all add: short_months_def)
  ultimately have "nat (m - 1) = nat (n - 1)"
    using assms(5) by (simp add: nth_eq_iff_index_eq)
  then show ?thesis using assms(1,3) by linarith
qed

lemma format_en_US_eq_iff:
  assumes "min_timestamp_ms \<le> t" and "min_timestamp_ms \<le> u"
  shows "format_en_US t = format_en_US u \<longleftrightarrow> day_of t = day_of u"
proof
  assume eq: "format_en_US t = format_en_US u"
  obtain y m d where t: "civil_from_days (day_of t) = (y, m, d)"
    by (cases "civil_from_days (day_of t)")
  obtain y' m' d' where u: "civil_from_days (day_of u) = (y', m', d')"
    by (cases "civil_from_days (day_of u)")
  note T = civil_from_days_bounds [OF t] and U = civil_from_days_bounds [OF u]
  have pos: "0 < y" "0 < y'"
    using civil_year_positive [OF t assms(1)] civil_year_positive [OF u assms(2)] by auto
  have comma: "js '', '' = of_char (CHR '','') # js '' ''" by (simp add: js_def)
  have "short_months ! nat (m - 1) @ js '' '' @ dec (nat d) @ js '', '' @ dec (nat y) =
      short_months ! nat (m' - 1) @ js '' '' @ dec (nat d') @ js '', '' @ dec (nat y')"
    using eq t u pos by (simp add: format_en_US_def)
  then have mm: "short_months ! nat (m - 1) = short_months ! nat (m' - 1)"
    and rest: "dec (nat d) @ of_char (CHR '','') # (js '' '' @ dec (nat y)) =
      dec (nat d') @ of_char (CHR '','') # (js '' '' @ dec (nat y'))"
    using T(1) U(1) by (simp_all add: append_eq_append_conv short_months_nth comma)
  have "(of_char (CHR '','') :: code_unit) \<notin> set (dec n)" for n
    by (rule not_digit_notin_dec) (simp add: is_digit_def)
  with rest have "nat d = nat d'" and "nat y = nat y'"
    by (simp_all add: append_sep_eq)
  moreover have "m = m'" using short_months_inject mm T(1) U(1) by blast
  ultimately have "(y, m, d) = (y', m', d')" using T(2) U(2) pos by auto
  then show "day_of t = day_of u" using t u civil_from_days_inject by metis
qed (simp add: format_en_US_def)

section \<open>Reading an ISO string back\<close>

lemma radix_value_zeros: "radix_value 10 0 (replicate k (digit 0) @ s) = radix_value 10 0 s"
  by (induction k) (simp_all add: digit_value_digit)

lemma length_dec: "0 < w \<Longrightarrow> n < 10 ^ w \<Longrightarrow> length (dec n) \<le> w"
proof (induction w arbitrary: n rule: nat_induct_non_zero)
  case (Suc w)
  then show ?case by (subst dec.simps) (simp add: less_mult_imp_div_less mult.commute)
qed (simp add: dec.simps)

lemma length_padded: "0 < w \<Longrightarrow> n < 10 ^ w \<Longrightarrow> length (padded w n) = w"
  by (simp add: padded_def length_dec)

lemma padded_digits: "list_all is_digit (padded w n)"
  using dec_digits [of n] by (auto simp: padded_def list_all_iff is_digit_digit)

lemma fixed_digits_padded:
  assumes "0 < w" "n < 10 ^ w"
  shows "fixed_digits w (padded w n @ s) = Some (n, s)"
proof -
  have "takeWhile is_digit (padded w n) = padded w n"
    using padded_digits [of w n] by (auto simp: takeWhile_eq_all_conv list_all_iff)
  then have "length (takeWhile is_digit (padded w n)) = w"
    using length_padded [OF assms] by (simp only:)
  then show ?thesis
    using length_padded [OF assms] radix_value_zeros [of "w - length (dec n)" "dec n"]
    by (simp add: fixed_digits_def radix_value_dec padded_def [symmetric])
qed

lemma field_padded:
  "0 < w \<Longrightarrow> n < 10 ^ w \<Longrightarrow> field w c (js [c] @ padded w n @ s) = Some (n, s)"
  by (simp add: field_def expect_def js_def fixed_digits_padded)

lemma read_year_iso: "\<bar>y\<bar> < 1000000 \<Longrightarrow> read_year (iso_year y @ s) = Some (y, s)"
proof -
  assume y: "\<bar>y\<bar> < 1000000"
  show ?thesis
  proof (cases "0 \<le> y \<and> y \<le> 9999")
    case True
    then have "length (padded 4 (nat y)) = 4" by (intro length_padded) auto
    then have "padded 4 (nat y) \<noteq> []" by auto
    then obtain c r where cr: "padded 4 (nat y) = c # r" by (cases "padded 4 (nat y)") auto
    then have "is_digit c" using padded_digits [of 4 "nat y"] by simp
    then have "c \<noteq> of_char (CHR ''-'')" "c \<noteq> of_char (CHR ''+'')" by (auto simp: is_digit_def)
    moreover have "fixed_digits 4 (c # r @ s) = Some (nat y, s)"
      using fixed_digits_padded [of 4 "nat y" s] True cr by (auto simp: nat_less_iff)
    ultimately show ?thesis using True cr by (simp add: read_year_def iso_year_def)
  next
    case False
    then show ?thesis
      using y fixed_digits_padded [of 6 "nat y" s] fixed_digits_padded [of 6 "nat (- y)" s]
      by (auto simp: read_year_def iso_year_def js_def)
  qed
qed

lemma Date_parse_toISOString:
  assumes "\<bar>t\<bar> \<le> max_time" and "toISOString (Some t) = Inr s"
  shows "Date_parse other s = Some t"
proof -
  define r where "r = nat (t mod ms_per_day)"
  have r: "r < 86400000" and r': "int r = t mod ms_per_day"
    by (auto simp: r_def ms_per_day_def nat_less_iff)
  obtain y m d where c: "civil_from_days (day_of t) = (y, m, d)"
    by (cases "civil_from_days (day_of t)")
  note B = civil_from_days_bounds [OF c]
  have "\<bar>day_of t\<bar> \<le> 100000000"
    using assms(1) by (auto simp: day_of_def ms_per_day_def max_time_def)
  note Y = civil_year_bound [OF c this]
  have s: "s = iso_year y @ js [CHR ''-''] @ padded 2 (nat m) @ js [CHR ''-''] @ padded 2 (nat d)
      @ js [CHR ''T''] @ padded 2 (r div 3600000) @ js [CHR '':''] @ padded 2 (r div 60000 mod 60)
      @ js [CHR '':''] @ padded 2 (r div 1000 mod 60) @ js [CHR ''.''] @ padded 3 (r mod 1000) @ js ''Z''"
    using assms(2) c by (simp add: r_def Let_def)
  have h: "r div 3600000 < 24" using r by (simp add: less_mult_imp_div_less)
  have split: "3600000 * (r div 3600000) + 60000 * (r div 60000 mod 60) + 1000 * (r div 1000 mod 60)
      + r mod 1000 = r"
  proof -
    have "60 * (r div 3600000) + r div 60000 mod 60 = r div 60000"
      using mult_div_mod_eq [of 60 "r div 60000"] by (simp add: div_mult2_eq [symmetric])
    moreover have "60 * (r div 60000) + r div 1000 mod 60 = r div 1000"
      using mult_div_mod_eq [of 60 "r div 1000"] by (simp add: div_mult2_eq [symmetric])
    moreover have "1000 * (r div 1000) + r mod 1000 = r"
      by (rule mult_div_mod_eq)
    ultimately show ?thesis by linarith
  qed
  have w: "nat m < 100" "nat d < 100" "r div 3600000 < 100" "r div 60000 mod 60 < 100"
    "r div 1000 mod 60 < 100" "Suc 0 \<le> nat m" "nat m \<le> 12" "Suc 0 \<le> nat d" "nat d \<le> 31"
    using B(1,2) h by (auto intro: less_trans [OF mod_less_divisor])
  have "parse_iso s = Some (ms_per_day * days_from_civil y m d + int r)"
    using B(1,2) h Y split w
    by (simp add: s parse_iso_def read_year_iso field_padded del: of_nat_add of_nat_mult)
  also have "ms_per_day * days_from_civil y m d + int r = t"
    using B(3) r' by (simp add: day_of_def)
  finally show ?thesis
    using assms(1) by (simp add: Date_parse_def time_clip_def)
qed

end
