(* ===== verification/Files_Pb.thy ===== *)
theory Files_Pb
  imports Js_Numbers
begin

text \<open>
  The messages of the files service, as the generated module
  \<open>web/src/gen/service/v1/files_pb.ts\<close> types them, one record per message and one field per
  property. An \<open>int64\<close> is a BigInt, hence an \<open>int\<close>; an \<open>int32\<close> is an integer-valued number,
  also an \<open>int\<close>; \<open>float\<close> and \<open>double\<close> are \<open>jsnum\<close>; a message field or an \<open>optional\<close> field
  may be undefined. \<open>FilesClient\<close> is \<open>Client<typeof FilesService>\<close>: one async function per
  unary call, over the state \<open>'s\<close> of the remote side.
\<close>

section \<open>Enumerations and the well-known timestamp\<close>

datatype PreviewStatus =
    PREVIEW_UNSPECIFIED
  | PREVIEW_NONE
  | PREVIEW_PENDING
  | PREVIEW_PROCESSING
  | PREVIEW_READY
  | PREVIEW_FAILED

text \<open>\<open>google.protobuf.Timestamp\<close>; the sources only pass it to \<open>timestampDate\<close>.\<close>

record Timestamp =
  ts_seconds :: int
  ts_nanos :: int

section \<open>Messages\<close>

record GetFilePreviewStatusesRequest =
  gfps_req_ids :: "int list"

record FilePreviewStatus =
  fps_id :: int
  fps_previewStatus :: PreviewStatus
  fps_previewUrl :: jsstring

record GetFilePreviewStatusesResponse =
  gfps_res_statuses :: "FilePreviewStatus list"

record GetDownloadURLRequest =
  gdu_req_ids :: "int list"

record DownloadURLSpec =
  dus_id :: int
  dus_url :: jsstring

record GetDownloadURLResponse =
  gdu_res_downloadUrls :: "DownloadURLSpec list"

record GetOpenURLRequest =
  gou_req_ids :: "int list"

record OpenURLSpec =
  ous_id :: int
  ous_url :: jsstring

record GetOpenURLResponse =
  gou_res_openUrls :: "OpenURLSpec list"

record GetPreviewURLRequest =
  gpu_req_ids :: "int list"

record PreviewURLSpec =
  pus_id :: int
  pus_url :: jsstring

record GetPreviewURLResponse =
  gpu_res_previewUrls :: "PreviewURLSpec list"

record GetFileInfoRequest =
  gfi_req_id :: int

record ExifMetadata =
  ex_imageType :: "jsstring option"
  ex_cameraMake :: "jsstring option"
  ex_cameraModel :: "jsstring option"
  ex_cameraSerial :: "jsstring option"
  ex_lensMake :: "jsstring option"
  ex_lensModel :: "jsstring option"
  ex_takenAt :: "Timestamp option"
  ex_iso :: "int option"
  ex_fNumber :: "jsnum option"
  ex_exposureTime :: "jsnum option"
  ex_focalLength :: "jsnum option"
  ex_focalLength35mm :: "jsnum option"
  ex_exposureProgram :: "int option"
  ex_meteringMode :: "int option"
  ex_flash :: "int option"
  ex_orientation :: "int option"
  ex_imageWidth :: "int option"
  ex_imageHeight :: "int option"
  ex_gpsLatitude :: "jsnum option"
  ex_gpsLongitude :: "jsnum option"
  ex_gpsAltitude :: "jsnum option"
  ex_gpsAt :: "Timestamp option"
  ex_software :: "jsstring option"
  ex_artist :: "jsstring option"
  ex_copyright :: "jsstring option"
  ex_imageDescription :: "jsstring option"
  ex_xmpTitle :: "jsstring option"
  ex_xmpDescription :: "jsstring option"
  ex_xmpCreator :: "jsstring option"
  ex_xmpLabel :: "jsstring option"
  ex_xmpRating :: "int option"
  ex_xmpKeywords :: "jsstring list"
  ex_xmpCreateDate :: "Timestamp option"
  ex_hasExif :: bool
  ex_hasXmp :: bool

record FileInfo =
  fi_id :: int
  fi_key :: jsstring
  fi_contentType :: jsstring
  fi_sizeBytes :: int
  fi_createdAt :: "Timestamp option"
  fi_updatedAt :: "Timestamp option"
  fi_previewKey :: jsstring
  fi_previewWidth :: int
  fi_previewHeight :: int
  fi_exif :: "ExifMetadata option"
  fi_previewStatus :: PreviewStatus

record GetFileInfoResponse =
  gfi_res_file :: "FileInfo option"

record DeleteFileRequest =
  df_req_id :: int

datatype DeleteFileResponse = DeleteFileResponse

record MoveFileRequest =
  mf_req_id :: int
  mf_req_destinationKey :: jsstring

record MoveFileResponse =
  mf_res_file :: "FileInfo option"

record GetUploadURLRequest =
  guu_req_key :: jsstring

record GetUploadURLResponse =
  guu_res_url :: jsstring

record CommitUploadRequest =
  cu_req_key :: jsstring

record CommitUploadResponse =
  cu_res_file :: "FileInfo option"

record CreateMultipartUploadRequest =
  cmu_req_key :: jsstring
  cmu_req_contentType :: jsstring

record CreateMultipartUploadResponse =
  cmu_res_uploadId :: jsstring

record GetUploadPartURLRequest =
  gupu_req_key :: jsstring
  gupu_req_uploadId :: jsstring
  gupu_req_partNumber :: int

record GetUploadPartURLResponse =
  gupu_res_url :: jsstring

record ListUploadedPartsRequest =
  lup_req_key :: jsstring
  lup_req_uploadId :: jsstring

record UploadedPart =
  up_partNumber :: int
  up_size :: int

record ListUploadedPartsResponse =
  lup_res_parts :: "UploadedPart list"

record CompleteMultipartUploadRequest =
  cpl_req_key :: jsstring
  cpl_req_uploadId :: jsstring

record CompleteMultipartUploadResponse =
  cpl_res_file :: "FileInfo option"

record AbortMultipartUploadRequest =
  abt_req_key :: jsstring
  abt_req_uploadId :: jsstring

datatype AbortMultipartUploadResponse = AbortMultipartUploadResponse

record GetDirectoryStatsRequest =
  gds_req_path :: jsstring

record GetDirectoryStatsResponse =
  gds_res_fileCount :: int
  gds_res_totalBytes :: int

record DeleteDirectoryRequest =
  dd_req_path :: jsstring

record DeleteDirectoryResponse =
  dd_res_deletedCount :: int

section \<open>The client\<close>

record 's FilesClient =
  fc_getDownloadURL :: "GetDownloadURLRequest \<Rightarrow> (GetDownloadURLResponse, 's) async"
  fc_getOpenURL :: "GetOpenURLRequest \<Rightarrow> (GetOpenURLResponse, 's) async"
  fc_getPreviewURL :: "GetPreviewURLRequest \<Rightarrow> (GetPreviewURLResponse, 's) async"
  fc_getFileInfo :: "GetFileInfoRequest \<Rightarrow> (GetFileInfoResponse, 's) async"
  fc_deleteFile :: "DeleteFileRequest \<Rightarrow> (DeleteFileResponse, 's) async"
  fc_moveFile :: "MoveFileRequest \<Rightarrow> (MoveFileResponse, 's) async"
  fc_getUploadURL :: "GetUploadURLRequest \<Rightarrow> (GetUploadURLResponse, 's) async"
  fc_commitUpload :: "CommitUploadRequest \<Rightarrow> (CommitUploadResponse, 's) async"
  fc_createMultipartUpload :: "CreateMultipartUploadRequest \<Rightarrow> (CreateMultipartUploadResponse, 's) async"
  fc_getUploadPartURL :: "GetUploadPartURLRequest \<Rightarrow> (GetUploadPartURLResponse, 's) async"
  fc_listUploadedParts :: "ListUploadedPartsRequest \<Rightarrow> (ListUploadedPartsResponse, 's) async"
  fc_completeMultipartUpload :: "CompleteMultipartUploadRequest \<Rightarrow> (CompleteMultipartUploadResponse, 's) async"
  fc_abortMultipartUpload :: "AbortMultipartUploadRequest \<Rightarrow> (AbortMultipartUploadResponse, 's) async"
  fc_getDirectoryStats :: "GetDirectoryStatsRequest \<Rightarrow> (GetDirectoryStatsResponse, 's) async"
  fc_deleteDirectory :: "DeleteDirectoryRequest \<Rightarrow> (DeleteDirectoryResponse, 's) async"
  fc_getFilePreviewStatuses :: "GetFilePreviewStatusesRequest \<Rightarrow> (GetFilePreviewStatusesResponse, 's) async"

end
