(* ===== verification/Search_Pb.thy ===== *)
theory Search_Pb
  imports Files_Pb
begin

text \<open>
  The messages of the search service, as the generated module
  \<open>web/src/gen/service/v1/search_pb.ts\<close> types them, with the conventions of \<open>Files_Pb\<close>.
\<close>

section \<open>Enumerations\<close>

datatype SortField =
    SORT_FIELD_UNSPECIFIED
  | SORT_FIELD_KEY
  | SORT_FIELD_LAST_MODIFIED
  | SORT_FIELD_SIZE
  | SORT_FIELD_TAKEN_AT

datatype SortOrder =
    SORT_ORDER_UNSPECIFIED
  | SORT_ORDER_ASC
  | SORT_ORDER_DESC

section \<open>Messages\<close>

record ListFilesRequest =
  lf_req_pageSize :: int
  lf_req_pageToken :: jsstring
  lf_req_query :: jsstring
  lf_req_contentType :: jsstring
  lf_req_sortField :: SortField
  lf_req_sortOrder :: SortOrder

record ListFilesResponse =
  lf_res_files :: "FileInfo list"
  lf_res_nextPageToken :: jsstring

record ListDirectoryRequest =
  ld_req_path :: jsstring
  ld_req_pageSize :: int
  ld_req_pageToken :: jsstring
  ld_req_sortField :: SortField
  ld_req_sortOrder :: SortOrder

record ListDirectoryResponse =
  ld_res_directories :: "jsstring list"
  ld_res_files :: "FileInfo list"
  ld_res_nextPageToken :: jsstring

datatype ListContentTypesRequest = ListContentTypesRequest

record ListContentTypesResponse =
  lct_res_categories :: "jsstring list"

record SearchDirectoriesRequest =
  sd_req_query :: jsstring
  sd_req_pageSize :: int
  sd_req_pageToken :: jsstring

record SearchDirectoriesResponse =
  sd_res_directories :: "jsstring list"
  sd_res_nextPageToken :: jsstring

section \<open>The client\<close>

record 's SearchClient =
  sc_listFiles :: "ListFilesRequest \<Rightarrow> (ListFilesResponse, 's) async"
  sc_listDirectory :: "ListDirectoryRequest \<Rightarrow> (ListDirectoryResponse, 's) async"
  sc_listContentTypes :: "ListContentTypesRequest \<Rightarrow> (ListContentTypesResponse, 's) async"
  sc_searchDirectories :: "SearchDirectoriesRequest \<Rightarrow> (SearchDirectoriesResponse, 's) async"

end
