(* ===== verification/Dto.thy ===== *)
theory Dto
  imports Js_Dates Search_Pb
begin

text \<open>
  The plain-JSON projections of \<open>web/src/server/impl.ts\<close>: the interfaces \<open>FileDto\<close>,
  \<open>ExifMetadataDto\<close> and \<open>FileMetadataDto\<close> and the functions that build them from protobuf
  messages. \<open>timestampDate\<close> belongs to the protobuf runtime and is a parameter; the
  \<open>toISOString\<close> of an invalid date throws, so each projection is an outcome.
  \<open>toFileDto_Inr_iff\<close> and its companions characterise when a projection throws and what it
  keeps; \<open>id_codec\<close> states what the clients of a textual id rely on.
\<close>

section \<open>Interfaces\<close>

record FileDto =
  fd_id :: jsstring
  fd_key :: jsstring
  fd_contentType :: jsstring
  fd_sizeBytes :: int
  fd_createdAt :: "jsstring option"
  fd_updatedAt :: "jsstring option"
  fd_takenAt :: "jsstring option"
  fd_previewUrl :: "jsstring option"
  fd_previewWidth :: "int option"
  fd_previewHeight :: "int option"
  fd_previewStatus :: PreviewStatus

record ExifMetadataDto =
  xd_imageType :: "jsstring option"
  xd_cameraMake :: "jsstring option"
  xd_cameraModel :: "jsstring option"
  xd_cameraSerial :: "jsstring option"
  xd_lensMake :: "jsstring option"
  xd_lensModel :: "jsstring option"
  xd_takenAt :: "jsstring option"
  xd_iso :: "int option"
  xd_fNumber :: "jsnum option"
  xd_exposureTime :: "jsnum option"
  xd_focalLength :: "jsnum option"
  xd_focalLength35mm :: "jsnum option"
  xd_exposureProgram :: "int option"
  xd_meteringMode :: "int option"
  xd_flash :: "int option"
  xd_orientation :: "int option"
  xd_imageWidth :: "int option"
  xd_imageHeight :: "int option"
  xd_gpsLatitude :: "jsnum option"
  xd_gpsLongitude :: "jsnum option"
  xd_gpsAltitude :: "jsnum option"
  xd_gpsAt :: "jsstring option"
  xd_software :: "jsstring option"
  xd_artist :: "jsstring option"
  xd_copyright :: "jsstring option"
  xd_imageDescription :: "jsstring option"
  xd_xmpTitle :: "jsstring option"
  xd_xmpDescription :: "jsstring option"
  xd_xmpCreator :: "jsstring option"
  xd_xmpLabel :: "jsstring option"
  xd_xmpRating :: "int option"
  xd_xmpKeywords :: "jsstring list"
  xd_xmpCreateDate :: "jsstring option"
  xd_hasExif :: bool
  xd_hasXmp :: bool

record FileMetadataDto =
  md_id :: jsstring
  md_key :: jsstring
  md_contentType :: jsstring
  md_sizeBytes :: int
  md_createdAt :: "jsstring option"
  md_updatedAt :: "jsstring option"
  md_exif :: "ExifMetadataDto option"

type_synonym timestamp_date = "Timestamp \<Rightarrow> Date"

section \<open>Projections\<close>

text \<open>The idiom \<open>ts ? timestampDate(ts).toISOString() : null\<close>.\<close>

fun iso_or_null :: "timestamp_date \<Rightarrow> Timestamp option \<Rightarrow> jsstring option outcome" where
  "iso_or_null timestampDate None = Inr None"
| "iso_or_null timestampDate (Some ts) = and_then (toISOString (timestampDate ts)) (\<lambda>s. Inr (Some s))"

definition toExifMetadataDto :: "timestamp_date \<Rightarrow> ExifMetadata \<Rightarrow> ExifMetadataDto outcome" where
  "toExifMetadataDto timestampDate exif =
     and_then (iso_or_null timestampDate (ex_takenAt exif)) (\<lambda>takenAt.
     and_then (iso_or_null timestampDate (ex_gpsAt exif)) (\<lambda>gpsAt.
     and_then (iso_or_null timestampDate (ex_xmpCreateDate exif)) (\<lambda>xmpCreateDate.
       Inr \<lparr>xd_imageType = ex_imageType exif,
          xd_cameraMake = ex_cameraMake exif,
          xd_cameraModel = ex_cameraModel exif,
          xd_cameraSerial = ex_cameraSerial exif,
          xd_lensMake = ex_lensMake exif,
          xd_lensModel = ex_lensModel exif,
          xd_takenAt = takenAt,
          xd_iso = ex_iso exif,
          xd_fNumber = ex_fNumber exif,
          xd_exposureTime = ex_exposureTime exif,
          xd_focalLength = ex_focalLength exif,
          xd_focalLength35mm = ex_focalLength35mm exif,
          xd_exposureProgram = ex_exposureProgram exif,
          xd_meteringMode = ex_meteringMode exif,
          xd_flash = ex_flash exif,
          xd_orientation = ex_orientation exif,
          xd_imageWidth = ex_imageWidth exif,
          xd_imageHeight = ex_imageHeight exif,
          xd_gpsLatitude = ex_gpsLatitude exif,
          xd_gpsLongitude = ex_gpsLongitude exif,
          xd_gpsAltitude = ex_gpsAltitude exif,
          xd_gpsAt = gpsAt,
          xd_software = ex_software exif,
          xd_artist = ex_artist exif,
          xd_copyright = ex_copyright exif,
          xd_imageDescription = ex_imageDescription exif,
          xd_xmpTitle = ex_xmpTitle exif,
          xd_xmpDescription = ex_xmpDescription exif,
          xd_xmpCreator = ex_xmpCreator exif,
          xd_xmpLabel = ex_xmpLabel exif,
          xd_xmpRating = ex_xmpRating exif,
          xd_xmpKeywords = ex_xmpKeywords exif,
          xd_xmpCreateDate = xmpCreateDate,
          xd_hasExif = ex_hasExif exif,
          xd_hasXmp = ex_hasXmp exif\<rparr>)))"

definition toFileMetadataDto :: "timestamp_date \<Rightarrow> FileInfo \<Rightarrow> FileMetadataDto outcome" where
  "toFileMetadataDto timestampDate file =
     and_then (iso_or_null timestampDate (fi_createdAt file)) (\<lambda>createdAt.
     and_then (iso_or_null timestampDate (fi_updatedAt file)) (\<lambda>updatedAt.
     and_then (case fi_exif file of None \<Rightarrow> Inr None
               | Some exif \<Rightarrow> and_then (toExifMetadataDto timestampDate exif) (\<lambda>d. Inr (Some d)))
       (\<lambda>exif.
       Inr \<lparr>md_id = bigint_toString (fi_id file),
            md_key = fi_key file,
            md_contentType = fi_contentType file,
            md_sizeBytes = Number (fi_sizeBytes file),
            md_createdAt = createdAt,
            md_updatedAt = updatedAt,
            md_exif = exif\<rparr>)))"

definition toFileDto :: "timestamp_date \<Rightarrow> FileInfo \<Rightarrow> FileDto outcome" where
  "toFileDto timestampDate file =
     (let hasPreview = fi_previewKey file \<noteq> [] in
      and_then (iso_or_null timestampDate (fi_createdAt file)) (\<lambda>createdAt.
      and_then (iso_or_null timestampDate (fi_updatedAt file)) (\<lambda>updatedAt.
      and_then (iso_or_null timestampDate (Option.bind (fi_exif file) ex_takenAt)) (\<lambda>takenAt.
        Inr \<lparr>fd_id = bigint_toString (fi_id file),
             fd_key = fi_key file,
             fd_contentType = fi_contentType file,
             fd_sizeBytes = Number (fi_sizeBytes file),
             fd_createdAt = createdAt,
             fd_updatedAt = updatedAt,
             fd_takenAt = takenAt,
             fd_previewUrl = None,
             fd_previewWidth = (if hasPreview then Some (fi_previewWidth file) else None),
             fd_previewHeight = (if hasPreview then Some (fi_previewHeight file) else None),
             fd_previewStatus = fi_previewStatus file\<rparr>))))"

text \<open>The timestamps a projection formats, and when they can be formatted.\<close>

definition timestamp_ok :: "timestamp_date \<Rightarrow> Timestamp option \<Rightarrow> bool" where
  "timestamp_ok timestampDate ts = (case ts of None \<Rightarrow> True | Some t \<Rightarrow> timestampDate t \<noteq> None)"

definition file_timestamps :: "FileInfo \<Rightarrow> Timestamp option list" where
  "file_timestamps file =
     [fi_createdAt file, fi_updatedAt file, Option.bind (fi_exif file) ex_takenAt]"

definition metadata_timestamps :: "FileInfo \<Rightarrow> Timestamp option list" where
  "metadata_timestamps file =
     fi_createdAt file # fi_updatedAt file #
     (case fi_exif file of None \<Rightarrow> []
      | Some x \<Rightarrow> [ex_takenAt x, ex_gpsAt x, ex_xmpCreateDate x])"

section \<open>Textual ids\<close>

text \<open>
  Ids cross the server-function boundary as text. What the handlers rely on is that reading the
  text of an id gives the id back; comparing and looking up by text is then comparing and looking
  up by id.
\<close>

locale id_codec =
  fixes enc :: "int \<Rightarrow> jsstring"
    and rd :: "jsstring \<Rightarrow> int outcome"
  assumes rd_enc: "rd (enc n) = Inr n"
begin

lemma enc_eq_iff: "enc m = enc n \<longleftrightarrow> m = n"
  by (metis rd_enc sum.inject(2))

lemma inj_enc: "inj enc"
  by (simp add: inj_def enc_eq_iff)

lemma find_by_text: "find (\<lambda>u. enc (uid u) = enc n) us = find (\<lambda>u. uid u = n) us"
  by (simp add: enc_eq_iff)

lemma lookup_by_text:
  "js_Map (map (\<lambda>p. (enc (pid p), val p)) ps) (enc n) = js_Map (map (\<lambda>p. (pid p, val p)) ps) n"
  by (rule js_Map_inj_key [OF inj_enc])

end

interpretation bigint_id: id_codec bigint_toString BigInt
  by unfold_locales (rule BigInt_toString)

section \<open>What the projections keep\<close>

lemma iso_or_null_Inl_iff:
  "iso_or_null td ts = Inl e \<longleftrightarrow> e = RangeError_time \<and> \<not> timestamp_ok td ts"
proof (cases ts)
  case (Some t)
  then show ?thesis by (cases "td t") (auto simp: timestamp_ok_def Let_def split: prod.splits)
qed (simp add: timestamp_ok_def)

lemma iso_or_null_Inr_ok: "iso_or_null td ts = Inr r \<Longrightarrow> timestamp_ok td ts"
  by (metis iso_or_null_Inl_iff sum.distinct(1))

lemma iso_or_null_ok: "timestamp_ok td ts \<Longrightarrow> \<exists>r. iso_or_null td ts = Inr r"
  by (metis iso_or_null_Inl_iff sum.exhaust)

lemma toFileDto_fields:
  assumes "toFileDto td f = Inr d"
  shows "fd_id d = bigint_toString (fi_id f)" and "fd_key d = fi_key f"
    and "fd_contentType d = fi_contentType f" and "fd_sizeBytes d = Number (fi_sizeBytes f)"
    and "fd_previewUrl d = None" and "fd_previewStatus d = fi_previewStatus f"
    and "fd_previewWidth d = (if fi_previewKey f \<noteq> [] then Some (fi_previewWidth f) else None)"
    and "fd_previewHeight d = (if fi_previewKey f \<noteq> [] then Some (fi_previewHeight f) else None)"
    and "iso_or_null td (fi_createdAt f) = Inr (fd_createdAt d)"
    and "iso_or_null td (fi_updatedAt f) = Inr (fd_updatedAt d)"
    and "iso_or_null td (Option.bind (fi_exif f) ex_takenAt) = Inr (fd_takenAt d)"
  using assms by (auto simp: toFileDto_def and_then_Inr_iff Let_def)

lemma toFileDto_Inl_iff:
  "toFileDto td f = Inl e \<longleftrightarrow>
     e = RangeError_time \<and> \<not> list_all (timestamp_ok td) (file_timestamps f)"
  by (auto simp: toFileDto_def Let_def and_then_Inl_iff iso_or_null_Inl_iff file_timestamps_def
      dest: iso_or_null_ok iso_or_null_Inr_ok)

lemma toFileDto_Inr_iff:
  "(\<exists>d. toFileDto td f = Inr d) \<longleftrightarrow> list_all (timestamp_ok td) (file_timestamps f)"
  by (metis sum.exhaust sum.distinct(1) toFileDto_Inl_iff)

lemma toExifMetadataDto_Inl_iff:
  "toExifMetadataDto td x = Inl e \<longleftrightarrow>
     e = RangeError_time \<and>
     \<not> list_all (timestamp_ok td) [ex_takenAt x, ex_gpsAt x, ex_xmpCreateDate x]"
  by (auto simp: toExifMetadataDto_def and_then_Inl_iff iso_or_null_Inl_iff
      dest: iso_or_null_ok iso_or_null_Inr_ok)

lemma toExifMetadataDto_ok:
  "list_all (timestamp_ok td) [ex_takenAt x, ex_gpsAt x, ex_xmpCreateDate x] \<Longrightarrow>
    \<exists>d. toExifMetadataDto td x = Inr d"
  by (metis sum.exhaust toExifMetadataDto_Inl_iff)

section \<open>Faithfulness of a listing entry\<close>

text \<open>Every \<open>Date\<close> object holds a time value within the range ECMAScript allows, or NaN.\<close>

definition valid_dates :: "timestamp_date \<Rightarrow> bool" where
  "valid_dates td \<longleftrightarrow> (\<forall>ts t. td ts = Some t \<longrightarrow> \<bar>t\<bar> \<le> max_time)"

lemma iso_or_null_parses:
  assumes "valid_dates td" and "iso_or_null td ts = Inr r"
  shows "map_option (Date_parse other) r = map_option td ts"
proof (cases ts)
  case (Some t)
  then obtain s where s: "toISOString (td t) = Inr s" "r = Some s"
    using assms(2) by (auto simp: and_then_Inr_iff)
  then obtain n where "td t = Some n" by (cases "td t") auto
  with s assms(1) Some show ?thesis
    by (simp add: valid_dates_def Date_parse_toISOString)
qed (use assms(2) in simp)

text \<open>
  C25. A listing entry is faithful to the message it projects: its id parses back to the file's id,
  key and content type are the file's, the size is within one part in \<open>2 ^ 53\<close> of the file's,
  each date text parses back to the instant of its timestamp, the preview status is the file's, and its
  preview's width and height are the file's if it has a preview, and absent otherwise. The URL is left to
  the preview lookup.
\<close>

theorem toFileDto_faithful:
  assumes "valid_dates td" and "toFileDto td f = Inr d"
  shows "BigInt (fd_id d) = Inr (fi_id f) \<and> fd_key d = fi_key f \<and> fd_contentType d = fi_contentType f
    \<and> 2 ^ 53 * \<bar>fd_sizeBytes d - fi_sizeBytes f\<bar> \<le> \<bar>fi_sizeBytes f\<bar>
    \<and> map_option (Date_parse other) (fd_createdAt d) = map_option td (fi_createdAt f)
    \<and> map_option (Date_parse other) (fd_updatedAt d) = map_option td (fi_updatedAt f)
    \<and> map_option (Date_parse other) (fd_takenAt d) = map_option td (Option.bind (fi_exif f) ex_takenAt)
    \<and> fd_previewStatus d = fi_previewStatus f \<and> fd_previewUrl d = None
    \<and> (if fi_previewKey f = [] then fd_previewWidth d = None \<and> fd_previewHeight d = None
        else fd_previewWidth d = Some (fi_previewWidth f) \<and> fd_previewHeight d = Some (fi_previewHeight f))"
  using toFileDto_fields [OF assms(2)] iso_or_null_parses [OF assms(1)]
    Number_abs_error [of "fi_sizeBytes f"]
  by (simp add: BigInt_toString)

text \<open>A file for concrete instances, and a reading of its timestamps.\<close>

definition sample_file :: "int \<Rightarrow> FileInfo" where
  "sample_file n =
     \<lparr>fi_id = n, fi_key = js ''a/b.jpg'', fi_contentType = js ''image/jpeg'', fi_sizeBytes = 5,
      fi_createdAt = Some \<lparr>ts_seconds = 0, ts_nanos = 0\<rparr>, fi_updatedAt = None,
      fi_previewKey = js ''p'', fi_previewWidth = 2, fi_previewHeight = 3, fi_exif = None,
      fi_previewStatus = PREVIEW_READY\<rparr>"

definition epoch :: timestamp_date where
  "epoch ts = Some 0"

lemma valid_dates_epoch: "valid_dates epoch"
  by (simp add: valid_dates_def epoch_def max_time_def)

lemma sample_file_timestamps: "list_all (timestamp_ok epoch) (file_timestamps (sample_file n))"
  by (simp add: file_timestamps_def sample_file_def timestamp_ok_def epoch_def)

theorem toFileDto_faithful_witness:
  "\<exists>d :: FileDto. BigInt (fd_id d) = Inr 7
    \<and> map_option (Date_parse (\<lambda>_. None)) (fd_createdAt d) = Some (Some 0)"
proof -
  obtain d where "toFileDto epoch (sample_file 7) = Inr d"
    using sample_file_timestamps [of 7] toFileDto_Inr_iff [of epoch "sample_file 7"] by blast
  from toFileDto_faithful [OF valid_dates_epoch this, of "\<lambda>_. None"]
  have "BigInt (fd_id d) = Inr 7
      \<and> map_option (Date_parse (\<lambda>_. None)) (fd_createdAt d) = Some (Some 0)"
    by (simp add: sample_file_def epoch_def)
  then show ?thesis by blast
qed

end
