(* ===== verification/Impl.thy ===== *)
theory Impl
  imports Dto Validators
begin

text \<open>
  The request handlers of \<open>web/src/server/impl.ts\<close>. Each takes the injected clients and typed
  input and is an async function over the state of the remote services; \<open>timestampDate\<close> is the
  protobuf runtime's conversion, a parameter. The lemmas give the result of each handler on every
  branch: which calls it makes, what it returns, which error it throws.
\<close>

section \<open>Sort parameters\<close>

fun SORT_FIELD_PB :: "SortFieldInput \<Rightarrow> SortField" where
  "SORT_FIELD_PB SF_key = SORT_FIELD_KEY"
| "SORT_FIELD_PB SF_lastModified = SORT_FIELD_LAST_MODIFIED"
| "SORT_FIELD_PB SF_size = SORT_FIELD_SIZE"
| "SORT_FIELD_PB SF_takenAt = SORT_FIELD_TAKEN_AT"

fun SORT_ORDER_PB :: "SortOrderInput \<Rightarrow> SortOrder" where
  "SORT_ORDER_PB SO_asc = SORT_ORDER_ASC"
| "SORT_ORDER_PB SO_desc = SORT_ORDER_DESC"

text \<open>\<open>x ?? d\<close>\<close>

definition or_default :: "'a option \<Rightarrow> 'a \<Rightarrow> 'a" where
  "or_default x d = (case x of None \<Rightarrow> d | Some v \<Rightarrow> v)"

section \<open>Results\<close>

record ListFilesResult =
  lfr_files :: "FileDto list"
  lfr_nextPageToken :: jsstring

record ListDirectoryResult =
  ldr_directories :: "jsstring list"
  ldr_files :: "FileDto list"
  ldr_nextPageToken :: jsstring

record SearchDirectoriesResult =
  sdr_directories :: "jsstring list"
  sdr_nextPageToken :: jsstring

record UploadedPartDto =
  upd_partNumber :: int
  upd_size :: int

record DirectoryStatsDto =
  dsd_fileCount :: int
  dsd_totalBytes :: int

record FilePreviewStatusDto =
  psd_id :: jsstring
  psd_previewStatus :: PreviewStatus
  psd_previewUrl :: "jsstring option"

section \<open>Listing\<close>

definition list_files_request :: "ListFilesInput \<Rightarrow> ListFilesRequest" where
  "list_files_request input =
     \<lparr>lf_req_pageSize = or_default (lfi_pageSize input) 0,
      lf_req_pageToken = or_default (lfi_pageToken input) [],
      lf_req_query = or_default (lfi_query input) [],
      lf_req_contentType = or_default (lfi_contentType input) [],
      lf_req_sortField = SORT_FIELD_PB (or_default (lfi_sortField input) SF_key),
      lf_req_sortOrder = SORT_ORDER_PB (or_default (lfi_sortOrder input) SO_asc)\<rparr>"

text \<open>The block that presigns previews, the same in both listing handlers.\<close>

definition preview_ids :: "FileInfo list \<Rightarrow> int list" where
  "preview_ids infos = map fi_id (filter (\<lambda>f. fi_previewKey f \<noteq> []) infos)"

definition preview_map :: "GetPreviewURLResponse \<Rightarrow> jsstring \<rightharpoonup> jsstring" where
  "preview_map res =
     js_Map (map (\<lambda>p. (bigint_toString (pus_id p), pus_url p)) (gpu_res_previewUrls res))"

definition resolve_previews ::
  "'s FilesClient \<Rightarrow> FileInfo list \<Rightarrow> FileDto list \<Rightarrow> (FileDto list, 's) async" where
  "resolve_previews files infos dtos =
     (let ids = preview_ids infos in
      if ids = [] then ret dtos
      else try_catch
        (await (fc_getPreviewURL files \<lparr>gpu_req_ids = ids\<rparr>) (\<lambda>previews.
           ret (map (\<lambda>dto. dto\<lparr>fd_previewUrl := preview_map previews (fd_id dto)\<rparr>) dtos)))
        (\<lambda>err. ret dtos))"

definition listFilesImpl ::
  "timestamp_date \<Rightarrow> 's SearchClient \<Rightarrow> 's FilesClient \<Rightarrow> ListFilesInput \<Rightarrow>
     (ListFilesResult, 's) async" where
  "listFilesImpl td search files input =
     await (sc_listFiles search (list_files_request input)) (\<lambda>res.
     await (lift (traverse (toFileDto td) (lf_res_files res))) (\<lambda>dtos.
     await (resolve_previews files (lf_res_files res) dtos) (\<lambda>dtos'.
       ret \<lparr>lfr_files = dtos', lfr_nextPageToken = lf_res_nextPageToken res\<rparr>)))"

definition listContentTypesImpl :: "'s SearchClient \<Rightarrow> (jsstring list, 's) async" where
  "listContentTypesImpl search =
     await (sc_listContentTypes search ListContentTypesRequest) (\<lambda>res.
       ret (lct_res_categories res))"

definition searchDirectoriesImpl ::
  "'s SearchClient \<Rightarrow> SearchDirectoriesInput \<Rightarrow> (SearchDirectoriesResult, 's) async" where
  "searchDirectoriesImpl search input =
     await (sc_searchDirectories search
        \<lparr>sd_req_query = or_default (sdi_query input) [],
         sd_req_pageSize = or_default (sdi_pageSize input) 0,
         sd_req_pageToken = or_default (sdi_pageToken input) []\<rparr>) (\<lambda>res.
       ret \<lparr>sdr_directories = sd_res_directories res, sdr_nextPageToken = sd_res_nextPageToken res\<rparr>)"

definition list_directory_request :: "ListDirectoryInput \<Rightarrow> ListDirectoryRequest" where
  "list_directory_request input =
     \<lparr>ld_req_path = or_default (ldi_path input) [],
      ld_req_pageSize = or_default (ldi_pageSize input) 0,
      ld_req_pageToken = or_default (ldi_pageToken input) [],
      ld_req_sortField = SORT_FIELD_PB (or_default (ldi_sortField input) SF_key),
      ld_req_sortOrder = SORT_ORDER_PB (or_default (ldi_sortOrder input) SO_asc)\<rparr>"

definition listDirectoryImpl ::
  "timestamp_date \<Rightarrow> 's SearchClient \<Rightarrow> 's FilesClient \<Rightarrow> ListDirectoryInput \<Rightarrow>
     (ListDirectoryResult, 's) async" where
  "listDirectoryImpl td search files input =
     await (sc_listDirectory search (list_directory_request input)) (\<lambda>res.
     await (lift (traverse (toFileDto td) (ld_res_files res))) (\<lambda>dtos.
     await (resolve_previews files (ld_res_files res) dtos) (\<lambda>dtos'.
       ret \<lparr>ldr_directories = ld_res_directories res, ldr_files = dtos',
            ldr_nextPageToken = ld_res_nextPageToken res\<rparr>)))"

section \<open>One file\<close>

definition getDownloadUrlImpl :: "'s FilesClient \<Rightarrow> jsstring \<Rightarrow> (jsstring, 's) async" where
  "getDownloadUrlImpl client fid =
     await (lift (BigInt fid)) (\<lambda>n.
     await (fc_getDownloadURL client \<lparr>gdu_req_ids = [n]\<rparr>) (\<lambda>res.
       case find (\<lambda>u. bigint_toString (dus_id u) = fid) (gdu_res_downloadUrls res) of
         None \<Rightarrow> throw (Error (js ''no download URL returned for file '' @ fid))
       | Some spec \<Rightarrow> ret (dus_url spec)))"

definition getOpenUrlImpl :: "'s FilesClient \<Rightarrow> jsstring \<Rightarrow> (jsstring, 's) async" where
  "getOpenUrlImpl client fid =
     await (lift (BigInt fid)) (\<lambda>n.
     await (fc_getOpenURL client \<lparr>gou_req_ids = [n]\<rparr>) (\<lambda>res.
       case find (\<lambda>u. bigint_toString (ous_id u) = fid) (gou_res_openUrls res) of
         None \<Rightarrow> throw (Error (js ''no open URL returned for file '' @ fid))
       | Some spec \<Rightarrow> ret (ous_url spec)))"

definition getFileMetadataImpl ::
  "timestamp_date \<Rightarrow> 's FilesClient \<Rightarrow> jsstring \<Rightarrow> (FileMetadataDto, 's) async" where
  "getFileMetadataImpl td client fid =
     await (lift (BigInt fid)) (\<lambda>n.
     await (fc_getFileInfo client \<lparr>gfi_req_id = n\<rparr>) (\<lambda>res.
       case gfi_res_file res of
         None \<Rightarrow> throw (Error (js ''no file returned for id '' @ fid))
       | Some file \<Rightarrow> lift (toFileMetadataDto td file)))"

definition deleteFileImpl :: "'s FilesClient \<Rightarrow> jsstring \<Rightarrow> (unit, 's) async" where
  "deleteFileImpl client fid =
     await (lift (BigInt fid)) (\<lambda>n.
     await (fc_deleteFile client \<lparr>df_req_id = n\<rparr>) (\<lambda>_. ret ()))"

definition moveFileImpl :: "'s FilesClient \<Rightarrow> jsstring \<Rightarrow> jsstring \<Rightarrow> (unit, 's) async" where
  "moveFileImpl client fid destinationKey =
     await (lift (BigInt fid)) (\<lambda>n.
     await (fc_moveFile client \<lparr>mf_req_id = n, mf_req_destinationKey = destinationKey\<rparr>)
       (\<lambda>_. ret ()))"

section \<open>Uploads\<close>

definition getUploadUrlImpl :: "'s FilesClient \<Rightarrow> jsstring \<Rightarrow> (jsstring, 's) async" where
  "getUploadUrlImpl client key =
     await (fc_getUploadURL client \<lparr>guu_req_key = key\<rparr>) (\<lambda>res. ret (guu_res_url res))"

definition commitUploadImpl ::
  "timestamp_date \<Rightarrow> 's FilesClient \<Rightarrow> jsstring \<Rightarrow> (FileDto, 's) async" where
  "commitUploadImpl td client key =
     await (fc_commitUpload client \<lparr>cu_req_key = key\<rparr>) (\<lambda>res.
       case cu_res_file res of
         None \<Rightarrow> throw (Error (js ''no file returned committing upload for key '' @ key))
       | Some file \<Rightarrow> lift (toFileDto td file))"

definition createMultipartUploadImpl ::
  "'s FilesClient \<Rightarrow> jsstring \<Rightarrow> jsstring \<Rightarrow> (jsstring, 's) async" where
  "createMultipartUploadImpl client key contentType =
     await (fc_createMultipartUpload client \<lparr>cmu_req_key = key, cmu_req_contentType = contentType\<rparr>)
       (\<lambda>res. ret (cmu_res_uploadId res))"

definition getUploadPartUrlImpl ::
  "'s FilesClient \<Rightarrow> jsstring \<Rightarrow> jsstring \<Rightarrow> int \<Rightarrow> (jsstring, 's) async" where
  "getUploadPartUrlImpl client key uploadId partNumber =
     await (fc_getUploadPartURL client
        \<lparr>gupu_req_key = key, gupu_req_uploadId = uploadId, gupu_req_partNumber = partNumber\<rparr>)
       (\<lambda>res. ret (gupu_res_url res))"

definition listUploadedPartsImpl ::
  "'s FilesClient \<Rightarrow> jsstring \<Rightarrow> jsstring \<Rightarrow> (UploadedPartDto list, 's) async" where
  "listUploadedPartsImpl client key uploadId =
     await (fc_listUploadedParts client \<lparr>lup_req_key = key, lup_req_uploadId = uploadId\<rparr>) (\<lambda>res.
       ret (map (\<lambda>p. \<lparr>upd_partNumber = up_partNumber p, upd_size = Number (up_size p)\<rparr>)
              (lup_res_parts res)))"

definition completeMultipartUploadImpl ::
  "timestamp_date \<Rightarrow> 's FilesClient \<Rightarrow> jsstring \<Rightarrow> jsstring \<Rightarrow> (FileDto, 's) async" where
  "completeMultipartUploadImpl td client key uploadId =
     await (fc_completeMultipartUpload client \<lparr>cpl_req_key = key, cpl_req_uploadId = uploadId\<rparr>) (\<lambda>res.
       case cpl_res_file res of
         None \<Rightarrow> throw (Error (js ''no file returned completing multipart upload for key '' @ key))
       | Some file \<Rightarrow> lift (toFileDto td file))"

definition abortMultipartUploadImpl ::
  "'s FilesClient \<Rightarrow> jsstring \<Rightarrow> jsstring \<Rightarrow> (unit, 's) async" where
  "abortMultipartUploadImpl client key uploadId =
     await (fc_abortMultipartUpload client \<lparr>abt_req_key = key, abt_req_uploadId = uploadId\<rparr>)
       (\<lambda>_. ret ())"

section \<open>Directories and statuses\<close>

definition getDirectoryStatsImpl :: "'s FilesClient \<Rightarrow> jsstring \<Rightarrow> (DirectoryStatsDto, 's) async" where
  "getDirectoryStatsImpl client path =
     await (fc_getDirectoryStats client \<lparr>gds_req_path = path\<rparr>) (\<lambda>res.
       ret \<lparr>dsd_fileCount = Number (gds_res_fileCount res),
            dsd_totalBytes = Number (gds_res_totalBytes res)\<rparr>)"

definition deleteDirectoryImpl :: "'s FilesClient \<Rightarrow> jsstring \<Rightarrow> (int, 's) async" where
  "deleteDirectoryImpl client path =
     await (fc_deleteDirectory client \<lparr>dd_req_path = path\<rparr>) (\<lambda>res.
       ret (Number (dd_res_deletedCount res)))"

definition getFilePreviewStatusesImpl ::
  "'s FilesClient \<Rightarrow> jsstring list \<Rightarrow> (FilePreviewStatusDto list, 's) async" where
  "getFilePreviewStatusesImpl client ids =
     await (lift (traverse BigInt ids)) (\<lambda>ns.
     await (fc_getFilePreviewStatuses client \<lparr>gfps_req_ids = ns\<rparr>) (\<lambda>res.
       ret (map (\<lambda>s. \<lparr>psd_id = bigint_toString (fps_id s),
                      psd_previewStatus = fps_previewStatus s,
                      psd_previewUrl = (if fps_previewUrl s = [] then None else Some (fps_previewUrl s))\<rparr>)
              (gfps_res_statuses res))))"

section \<open>Services that are down\<close>

text \<open>Clients of which every call rejects; concrete instances override single calls.\<close>

definition unavailable :: js_error where
  "unavailable = \<lparr>err_name = js ''ConnectError'', err_message = js ''[unavailable]''\<rparr>"

definition down_files_client :: "'s FilesClient" where
  "down_files_client =
     \<lparr>fc_getDownloadURL = (\<lambda>_. throw unavailable), fc_getOpenURL = (\<lambda>_. throw unavailable),
      fc_getPreviewURL = (\<lambda>_. throw unavailable), fc_getFileInfo = (\<lambda>_. throw unavailable),
      fc_deleteFile = (\<lambda>_. throw unavailable), fc_moveFile = (\<lambda>_. throw unavailable),
      fc_getUploadURL = (\<lambda>_. throw unavailable), fc_commitUpload = (\<lambda>_. throw unavailable),
      fc_createMultipartUpload = (\<lambda>_. throw unavailable),
      fc_getUploadPartURL = (\<lambda>_. throw unavailable),
      fc_listUploadedParts = (\<lambda>_. throw unavailable),
      fc_completeMultipartUpload = (\<lambda>_. throw unavailable),
      fc_abortMultipartUpload = (\<lambda>_. throw unavailable),
      fc_getDirectoryStats = (\<lambda>_. throw unavailable), fc_deleteDirectory = (\<lambda>_. throw unavailable),
      fc_getFilePreviewStatuses = (\<lambda>_. throw unavailable)\<rparr>"

definition down_search_client :: "'s SearchClient" where
  "down_search_client =
     \<lparr>sc_listFiles = (\<lambda>_. throw unavailable), sc_listDirectory = (\<lambda>_. throw unavailable),
      sc_listContentTypes = (\<lambda>_. throw unavailable),
      sc_searchDirectories = (\<lambda>_. throw unavailable)\<rparr>"

section \<open>Previews\<close>

text \<open>What a listing shows when no preview could be resolved.\<close>

definition without_preview :: "FileDto \<Rightarrow> FileDto" where
  "without_preview d = d\<lparr>fd_previewUrl := None\<rparr>"

definition preview_url_of :: "GetPreviewURLResponse \<Rightarrow> int \<rightharpoonup> jsstring" where
  "preview_url_of res = js_Map (map (\<lambda>p. (pus_id p, pus_url p)) (gpu_res_previewUrls res))"

lemma preview_map_text: "preview_map res (bigint_toString n) = preview_url_of res n"
  unfolding preview_map_def preview_url_of_def by (rule bigint_id.lookup_by_text)

lemma resolve_previews_run:
  "resolve_previews files infos dtos s =
     (if preview_ids infos = [] then (Inr dtos, s)
      else case fc_getPreviewURL files \<lparr>gpu_req_ids = preview_ids infos\<rparr> s of
        (Inl e, s') \<Rightarrow> (Inr dtos, s')
      | (Inr res, s') \<Rightarrow>
          (Inr (map (\<lambda>dto. dto\<lparr>fd_previewUrl := preview_map res (fd_id dto)\<rparr>) dtos), s'))"
  by (simp add: resolve_previews_def try_catch_def await_def ret_def split: prod.splits sum.splits)

lemma resolve_previews_Inr:
  obtains ds s' where "resolve_previews files infos dtos s = (Inr ds, s')"
    and "map without_preview ds = map without_preview dtos"
proof -
  obtain r s' where "fc_getPreviewURL files \<lparr>gpu_req_ids = preview_ids infos\<rparr> s = (r, s')"
    by force
  then have "\<exists>ds s'. resolve_previews files infos dtos s = (Inr ds, s')
      \<and> map without_preview ds = map without_preview dtos"
    by (cases r) (simp_all add: resolve_previews_run without_preview_def comp_def)
  with that show thesis by blast
qed

lemma traverse_toFileDto_ok:
  assumes "list_all (list_all (timestamp_ok td) \<circ> file_timestamps) fs"
  obtains dtos where "traverse (toFileDto td) fs = Inr dtos"
  using assms traverse_Inl_iff [of "toFileDto td" fs]
  by (cases "traverse (toFileDto td) fs") (auto simp: list_all_iff toFileDto_Inl_iff)

lemma traverse_toFileDto_plain:
  assumes "traverse (toFileDto td) fs = Inr dtos"
  shows "map without_preview dtos = dtos" and "map fd_id dtos = map (bigint_toString \<circ> fi_id) fs"
    and "map fd_key dtos = map fi_key fs"
proof -
  have rel: "list_all2 (\<lambda>f d. toFileDto td f = Inr d) fs dtos"
    using assms by (simp add: traverse_Inr_iff)
  then show "map without_preview dtos = dtos"
  proof (induction rule: list_all2_induct)
    case (Cons f fs d ds)
    then show ?case using toFileDto_fields(5) [of td f d] by (simp add: without_preview_def)
  qed simp
  from rel show "map fd_id dtos = map (bigint_toString \<circ> fi_id) fs"
    by (induction rule: list_all2_induct) (auto simp: toFileDto_fields)
  from rel show "map fd_key dtos = map fi_key fs"
    by (induction rule: list_all2_induct) (auto simp: toFileDto_fields)
qed

lemma resolve_previews_urls:
  assumes "traverse (toFileDto td) fs = Inr dtos"
    and "preview_ids fs \<noteq> []"
    and "fc_getPreviewURL files \<lparr>gpu_req_ids = preview_ids fs\<rparr> s = (Inr res, s')"
    and "resolve_previews files fs dtos s = (Inr ds, s'')"
  shows "map fd_previewUrl ds = map (preview_url_of res \<circ> fi_id) fs"
proof -
  have "ds = map (\<lambda>dto. dto\<lparr>fd_previewUrl := preview_map res (fd_id dto)\<rparr>) dtos"
    using assms(2-4) by (simp add: resolve_previews_run)
  then have "map fd_previewUrl ds = map (preview_map res) (map fd_id dtos)"
    by (simp add: comp_def)
  also have "\<dots> = map (preview_url_of res \<circ> fi_id) fs"
    by (simp add: traverse_toFileDto_plain(2) [OF assms(1)] preview_map_text)
  finally show ?thesis .
qed

section \<open>Listing handlers\<close>

lemma listFilesImpl_run:
  assumes "sc_listFiles search (list_files_request input) s = (Inr res, s1)"
    and "traverse (toFileDto td) (lf_res_files res) = Inr dtos"
    and "resolve_previews files (lf_res_files res) dtos s1 = (Inr ds, s2)"
  shows "listFilesImpl td search files input s =
    (Inr \<lparr>lfr_files = ds, lfr_nextPageToken = lf_res_nextPageToken res\<rparr>, s2)"
  using assms by (simp add: listFilesImpl_def async_simps)

lemma listDirectoryImpl_run:
  assumes "sc_listDirectory search (list_directory_request input) s = (Inr res, s1)"
    and "traverse (toFileDto td) (ld_res_files res) = Inr dtos"
    and "resolve_previews files (ld_res_files res) dtos s1 = (Inr ds, s2)"
  shows "listDirectoryImpl td search files input s =
    (Inr \<lparr>ldr_directories = ld_res_directories res, ldr_files = ds,
          ldr_nextPageToken = ld_res_nextPageToken res\<rparr>, s2)"
  using assms by (simp add: listDirectoryImpl_def async_simps)

text \<open>
  C22. A failing thumbnail lookup never fails a page: whenever the search service answers and the
  timestamps of its files can be formatted, \<open>listFilesImpl\<close> returns, with the files of the answer in
  order, their projections unchanged up to the preview URL, and the service's page token,
  whatever \<open>getPreviewURL\<close> does.
\<close>

theorem listFiles_survives_preview_failure:
  assumes "sc_listFiles search (list_files_request input) s = (Inr res, s1)"
    and "list_all (list_all (timestamp_ok td) \<circ> file_timestamps) (lf_res_files res)"
  shows "\<exists>ds s2. listFilesImpl td search files input s =
      (Inr \<lparr>lfr_files = ds, lfr_nextPageToken = lf_res_nextPageToken res\<rparr>, s2)
    \<and> traverse (toFileDto td) (lf_res_files res) = Inr (map without_preview ds)"
proof -
  obtain dtos where t: "traverse (toFileDto td) (lf_res_files res) = Inr dtos"
    using traverse_toFileDto_ok [OF assms(2)] .
  obtain ds s2 where "resolve_previews files (lf_res_files res) dtos s1 = (Inr ds, s2)"
    and "map without_preview ds = map without_preview dtos"
    by (rule resolve_previews_Inr)
  with listFilesImpl_run [OF assms(1) t] t traverse_toFileDto_plain(1) [OF t] show ?thesis
    by auto
qed

theorem listFiles_survives_preview_failure_witness:
  "\<exists>ds s2. listFilesImpl epoch
      (down_search_client\<lparr>sc_listFiles :=
         \<lambda>_ s. (Inr \<lparr>lf_res_files = [sample_file 7], lf_res_nextPageToken = []\<rparr>, s)\<rparr>)
      down_files_client
      \<lparr>lfi_pageSize = None, lfi_pageToken = None, lfi_query = None, lfi_contentType = None,
       lfi_sortField = None, lfi_sortOrder = None\<rparr> () =
      (Inr \<lparr>lfr_files = ds, lfr_nextPageToken = []\<rparr>, s2)
    \<and> traverse (toFileDto epoch) [sample_file 7] = Inr (map without_preview ds)"
  using listFiles_survives_preview_failure [of "down_search_client\<lparr>sc_listFiles :=
      \<lambda>_ s. (Inr \<lparr>lf_res_files = [sample_file 7], lf_res_nextPageToken = []\<rparr>, s)\<rparr>"
      "\<lparr>lfi_pageSize = None, lfi_pageToken = None, lfi_query = None, lfi_contentType = None,
       lfi_sortField = None, lfi_sortOrder = None\<rparr>" "()"
      "\<lparr>lf_res_files = [sample_file 7], lf_res_nextPageToken = []\<rparr>" "()" epoch down_files_client]
  by (simp add: sample_file_timestamps)

text \<open>
  C23. When the lookup answers, each file of the page carries exactly the URL the answer has for its
  id (the last one, should the answer repeat an id), and null when it has none.
\<close>

theorem listDirectory_preview_urls:
  assumes "sc_listDirectory search (list_directory_request input) s = (Inr res, s1)"
    and "list_all (list_all (timestamp_ok td) \<circ> file_timestamps) (ld_res_files res)"
    and "preview_ids (ld_res_files res) \<noteq> []"
    and "fc_getPreviewURL files \<lparr>gpu_req_ids = preview_ids (ld_res_files res)\<rparr> s1 = (Inr pr, s2)"
  shows "\<exists>r. listDirectoryImpl td search files input s = (Inr r, s2)
    \<and> ldr_directories r = ld_res_directories res
    \<and> map fd_id (ldr_files r) = map (bigint_toString \<circ> fi_id) (ld_res_files res)
    \<and> map fd_previewUrl (ldr_files r) = map (preview_url_of pr \<circ> fi_id) (ld_res_files res)"
proof -
  obtain dtos where t: "traverse (toFileDto td) (ld_res_files res) = Inr dtos"
    using traverse_toFileDto_ok [OF assms(2)] .
  define ds where "ds = map (\<lambda>dto. dto\<lparr>fd_previewUrl := preview_map pr (fd_id dto)\<rparr>) dtos"
  have r: "resolve_previews files (ld_res_files res) dtos s1 = (Inr ds, s2)"
    using assms(3,4) by (simp add: resolve_previews_run ds_def)
  have "map fd_id ds = map fd_id dtos" by (simp add: ds_def comp_def)
  then show ?thesis
    using listDirectoryImpl_run [OF assms(1) t r] resolve_previews_urls [OF t assms(3,4) r]
      traverse_toFileDto_plain(2) [OF t] by simp
qed

theorem listDirectory_preview_urls_witness:
  "\<exists>r. listDirectoryImpl epoch
      (down_search_client\<lparr>sc_listDirectory := \<lambda>_ s. (Inr \<lparr>ld_res_directories = [js ''a/''],
         ld_res_files = [sample_file 7], ld_res_nextPageToken = []\<rparr>, s)\<rparr>)
      (down_files_client\<lparr>fc_getPreviewURL := \<lambda>req s.
         (Inr \<lparr>gpu_res_previewUrls = map (\<lambda>i. \<lparr>pus_id = i, pus_url = js ''u''\<rparr>) (gpu_req_ids req)\<rparr>, s)\<rparr>)
      \<lparr>ldi_path = None, ldi_pageSize = None, ldi_pageToken = None, ldi_sortField = None,
       ldi_sortOrder = None\<rparr> () = (Inr r, ())
    \<and> map fd_previewUrl (ldr_files r) = [Some (js ''u'')]"
  using listDirectory_preview_urls [where res = "\<lparr>ld_res_directories = [js ''a/''],
      ld_res_files = [sample_file 7], ld_res_nextPageToken = []\<rparr>" and td = epoch and s = "()"
      and ?s1.0 = "()" and ?s2.0 = "()" and input = "\<lparr>ldi_path = None, ldi_pageSize = None,
      ldi_pageToken = None, ldi_sortField = None, ldi_sortOrder = None\<rparr>"
      and search = "down_search_client\<lparr>sc_listDirectory := \<lambda>_ s. (Inr \<lparr>ld_res_directories = [js ''a/''],
         ld_res_files = [sample_file 7], ld_res_nextPageToken = []\<rparr>, s)\<rparr>"
      and files = "down_files_client\<lparr>fc_getPreviewURL := \<lambda>req s.
         (Inr \<lparr>gpu_res_previewUrls = map (\<lambda>i. \<lparr>pus_id = i, pus_url = js ''u''\<rparr>) (gpu_req_ids req)\<rparr>, s)\<rparr>"
      and pr = "\<lparr>gpu_res_previewUrls = [\<lparr>pus_id = 7, pus_url = js ''u''\<rparr>]\<rparr>"]
  by (simp add: sample_file_timestamps preview_ids_def preview_url_of_def)
    (auto simp: sample_file_def preview_ids_def)

section \<open>URL handlers\<close>

lemma find_canonical:
  assumes "is_numeric fid" and "BigInt fid = Inr n"
  shows "find (\<lambda>u. bigint_toString (uid u) = fid) us =
    (if canonical_id fid then find (\<lambda>u. uid u = n) us else None)"
proof (cases "canonical_id fid")
  case True
  then have "bigint_toString n = fid" using canonical_id_iff [OF assms] by simp
  with True show ?thesis using bigint_id.find_by_text [of uid n us] by simp
next
  case False
  have "bigint_toString (uid u) \<noteq> fid" for u
  proof
    assume "bigint_toString (uid u) = fid"
    then have "uid u = n" using BigInt_toString [of "uid u"] assms(2) by simp
    with \<open>bigint_toString (uid u) = fid\<close> False canonical_id_iff [OF assms] show False by simp
  qed
  with False show ?thesis by (simp add: find_None_iff)
qed

text \<open>
  C24. \<open>getDownloadUrlImpl\<close> on an id the validator accepts: the service is asked for the number the
  text denotes, and the URL it returns for that number is the result; but the text must be the
  canonical decimal. With a superfluous leading zero the handler throws even when the service
  returned the URL, because the answer is matched by text.
\<close>

theorem getDownloadUrl_result:
  assumes "is_numeric fid" and "BigInt fid = Inr n"
    and "fc_getDownloadURL client \<lparr>gdu_req_ids = [n]\<rparr> s = (Inr res, s')"
  shows "getDownloadUrlImpl client fid s =
    (case find (\<lambda>u. dus_id u = n) (gdu_res_downloadUrls res) of
       Some u \<Rightarrow> if canonical_id fid then (Inr (dus_url u), s')
                 else (Inl (Error (js ''no download URL returned for file '' @ fid)), s')
     | None \<Rightarrow> (Inl (Error (js ''no download URL returned for file '' @ fid)), s'))"
  using assms
  by (simp add: getDownloadUrlImpl_def async_simps find_canonical split: option.splits)


theorem getDownloadUrl_result_witness:
  "getDownloadUrlImpl (down_files_client\<lparr>fc_getDownloadURL := \<lambda>_ s.
      (Inr \<lparr>gdu_res_downloadUrls = [\<lparr>dus_id = 7, dus_url = js ''u''\<rparr>]\<rparr>, s)\<rparr>) (js ''07'') () =
    (Inl (Error (js ''no download URL returned for file 07'')), ())"
proof -
  have "is_numeric (js ''07'')" and "BigInt (js ''07'') = Inr 7" and "\<not> canonical_id (js ''07'')"
    by code_simp+
  then show ?thesis
    using getDownloadUrl_result [of "js ''07''" 7 "down_files_client\<lparr>fc_getDownloadURL := \<lambda>_ s.
        (Inr \<lparr>gdu_res_downloadUrls = [\<lparr>dus_id = 7, dus_url = js ''u''\<rparr>]\<rparr>, s)\<rparr>" "()"
        "\<lparr>gdu_res_downloadUrls = [\<lparr>dus_id = 7, dus_url = js ''u''\<rparr>]\<rparr>" "()"]
    by (simp add: js_append [symmetric])
qed

end
