(* ===== verification/Browser.thy ===== *)
theory Browser
  imports Multipart Upload_Path Query_Keys Path_Ui Impl
begin

text \<open>
  The browse page of \<open>web/src/components/Browser.tsx\<close>: the upload of the chosen files, by a single PUT
  or by the multipart driver, the folder that is made by navigating into it, and the upload controls.
  The server functions it calls are a record of async functions over the world, \<open>fetch\<close> a function
  to the status of the response. The abort controllers are numbered: each run of the upload makes a
  new one, and \<open>aborted n\<close> reads the signal of the controller \<open>n\<close> from the world.
\<close>

section \<open>What the page uses\<close>

record 'blob File =
  file_like :: "'blob FileLike"
  file_type :: jsstring
  file_body :: 'blob

record 'blob put_request =
  pr_url :: jsstring
  pr_body :: 'blob
  pr_contentType :: "jsstring option"
  pr_signal :: bool

type_synonym ('blob, 'w) fetch = "'blob put_request \<Rightarrow> (int, 'w) async"

record 'w upload_calls =
  uc_createMultipartUpload :: "CreateMultipartUploadInput \<Rightarrow> (jsstring, 'w) async"
  uc_getUploadPartUrl :: "UploadPartUrlInput \<Rightarrow> (jsstring, 'w) async"
  uc_listUploadedParts :: "UploadIdInput \<Rightarrow> (UploadedPartDto list, 'w) async"
  uc_completeMultipartUpload :: "UploadIdInput \<Rightarrow> (FileDto, 'w) async"
  uc_abortMultipartUpload :: "UploadIdInput \<Rightarrow> (unit, 'w) async"
  uc_getUploadUrl :: "jsstring \<Rightarrow> (jsstring, 'w) async"
  uc_commitUpload :: "jsstring \<Rightarrow> (FileDto, 'w) async"

text \<open>\<open>res.ok\<close>\<close>

definition res_ok :: "int \<Rightarrow> bool" where
  "res_ok status \<longleftrightarrow> 200 \<le> status \<and> status \<le> 299"

definition put_part_by_fetch :: "('blob, 'w) fetch \<Rightarrow> jsstring \<Rightarrow> 'blob \<Rightarrow> (unit, 'w) async" where
  "put_part_by_fetch fetch url body =
     await (fetch \<lparr>pr_url = url, pr_body = body, pr_contentType = None, pr_signal = True\<rparr>) (\<lambda>status.
       if res_ok status then ret ()
       else throw (Error (js ''part upload failed: '' @ bigint_toString status)))"

definition multipartDeps :: "'w upload_calls \<Rightarrow> ('blob, 'w) fetch \<Rightarrow> ('w, 'blob) MultipartUploadDeps" where
  "multipartDeps calls fetch =
     \<lparr>createMultipartUploadD = (\<lambda>key contentType.
        uc_createMultipartUpload calls \<lparr>cmi_key = key, cmi_contentType = contentType\<rparr>),
      getUploadPartUrlD = (\<lambda>key uploadId partNumber.
        uc_getUploadPartUrl calls \<lparr>upi_key = key, upi_uploadId = uploadId, upi_partNumber = partNumber\<rparr>),
      listUploadedPartsD = (\<lambda>key uploadId.
        await (uc_listUploadedParts calls \<lparr>uii_key = key, uii_uploadId = uploadId\<rparr>) (\<lambda>parts.
          ret (map (\<lambda>p. \<lparr>upi_number = upd_partNumber p, upi_size = upd_size p\<rparr>) parts))),
      completeMultipartUploadD = (\<lambda>key uploadId.
        await (uc_completeMultipartUpload calls \<lparr>uii_key = key, uii_uploadId = uploadId\<rparr>) (\<lambda>_. ret ())),
      abortMultipartUploadD = (\<lambda>key uploadId.
        await (uc_abortMultipartUpload calls \<lparr>uii_key = key, uii_uploadId = uploadId\<rparr>) (\<lambda>_. ret ())),
      putPartD = put_part_by_fetch fetch\<rparr>"

section \<open>State\<close>

record 'w browser_state =
  bs_upload :: "'w upload_state"
  bs_uploadStatus :: "jsstring option"
  bs_statuses :: "jsstring option list"
  bs_controller :: nat
  bs_uploadError :: "js_error option"
  bs_invalidated :: "query_key list"

text \<open>\<open>bs_statuses\<close> are the arguments of the calls of \<open>setUploadStatus\<close>, in order.\<close>

definition setUploadStatus :: "jsstring option \<Rightarrow> 'w browser_state \<Rightarrow> 'w browser_state" where
  "setUploadStatus st s = s\<lparr>bs_uploadStatus := st, bs_statuses := bs_statuses s @ [st]\<rparr>"

definition on_upload :: "('a, 'w upload_state) async \<Rightarrow> ('a, 'w browser_state) async" where
  "on_upload m s = (case m (bs_upload s) of (r, u') \<Rightarrow> (r, s\<lparr>bs_upload := u'\<rparr>))"

section \<open>Uploading one file\<close>

definition content_type :: "'blob File \<Rightarrow> jsstring" where
  "content_type file = (if file_type file = [] then js ''application/octet-stream'' else file_type file)"

definition file_name :: "'blob File \<Rightarrow> jsstring" where
  "file_name file = fl_name (file_like file)"

definition progress_status :: "'blob File \<Rightarrow> int \<times> int \<Rightarrow> jsstring" where
  "progress_status file p =
     js ''Uploading '' @ file_name file @ js '': part '' @ bigint_toString (fst p) @ js ''/''
       @ bigint_toString (snd p)"

text \<open>
  A large file. The driver records its progress reports; the statuses they set follow the one set
  before, in the order of the reports.
\<close>

definition upload_large ::
  "'w upload_calls \<Rightarrow> ('blob, 'w) fetch \<Rightarrow> (nat \<Rightarrow> 'w signal) \<Rightarrow> jsstring \<Rightarrow> 'blob File \<Rightarrow>
     'w browser_state \<Rightarrow> (unit outcome \<times> 'w browser_state) option" where
  "upload_large calls fetch aborted key file s =
     (let s1 = setUploadStatus (Some (js ''Uploading '' @ file_name file @ ellipsis)) s in
      case uploadFileMultipart (file_like file) key (content_type file) (multipartDeps calls fetch)
             (Some (aborted (bs_controller s1))) (bs_upload s1) of
        None \<Rightarrow> None
      | Some (r, u') \<Rightarrow>
          let reports = drop (length (us_progress (bs_upload s1))) (us_progress u')
          in Some (r, foldl (\<lambda>t p. setUploadStatus (Some (progress_status file p)) t)
                        (s1\<lparr>bs_upload := u'\<rparr>) reports))"

definition put_whole ::
  "'w upload_calls \<Rightarrow> ('blob, 'w) fetch \<Rightarrow> jsstring \<Rightarrow> 'blob File \<Rightarrow> (unit, 'w) async" where
  "put_whole calls fetch key file =
     await (uc_getUploadUrl calls key) (\<lambda>url.
     await (fetch \<lparr>pr_url = url, pr_body = file_body file, pr_contentType = Some (content_type file),
                   pr_signal = False\<rparr>) (\<lambda>status.
       if res_ok status then await (uc_commitUpload calls key) (\<lambda>_. ret ())
       else throw (Error (js ''upload failed for '' @ file_name file @ js '': '' @ bigint_toString status))))"

definition upload_file ::
  "'w upload_calls \<Rightarrow> ('blob, 'w) fetch \<Rightarrow> (nat \<Rightarrow> 'w signal) \<Rightarrow> jsstring \<Rightarrow> 'blob File \<Rightarrow>
     'w browser_state \<Rightarrow> (unit outcome \<times> 'w browser_state) option" where
  "upload_file calls fetch aborted dir file s =
     (let key = dir @ file_name file in
      if MULTIPART_THRESHOLD_BYTES \<le> fl_size (file_like file)
      then upload_large calls fetch aborted key file s
      else Some (on_upload (remote (put_whole calls fetch key file)) s))"

section \<open>The upload mutation\<close>

fun upload_files ::
  "'w upload_calls \<Rightarrow> ('blob, 'w) fetch \<Rightarrow> (nat \<Rightarrow> 'w signal) \<Rightarrow> jsstring \<Rightarrow> 'blob File list \<Rightarrow>
     'w browser_state \<Rightarrow> (unit outcome \<times> 'w browser_state) option" where
  "upload_files calls fetch aborted dir [] s = Some (Inr (), s)"
| "upload_files calls fetch aborted dir (file # files) s =
     (case upload_file calls fetch aborted dir file s of
        None \<Rightarrow> None
      | Some (Inl e, s') \<Rightarrow> Some (Inl e, s')
      | Some (Inr _, s') \<Rightarrow> upload_files calls fetch aborted dir files s')"

definition run_upload ::
  "'w upload_calls \<Rightarrow> ('blob, 'w) fetch \<Rightarrow> (nat \<Rightarrow> 'w signal) \<Rightarrow> jsstring \<Rightarrow> 'blob File list \<Rightarrow>
     'w browser_state \<Rightarrow> 'w browser_state option" where
  "run_upload calls fetch aborted path files s =
     (case upload_files calls fetch aborted (normalizeUploadPath path) files
             (s\<lparr>bs_controller := Suc (bs_controller s), bs_uploadError := None\<rparr>) of
        None \<Rightarrow> None
      | Some (r, s') \<Rightarrow>
          let s'' = setUploadStatus None s' in
          Some (case r of
                  Inl e \<Rightarrow> s''\<lparr>bs_uploadError := Some e\<rparr>
                | Inr _ \<Rightarrow> s''\<lparr>bs_invalidated := bs_invalidated s'' @ directory_changed_keys\<rparr>))"

definition handleUploadChange ::
  "'w upload_calls \<Rightarrow> ('blob, 'w) fetch \<Rightarrow> (nat \<Rightarrow> 'w signal) \<Rightarrow> jsstring \<Rightarrow> 'blob File list option \<Rightarrow>
     'w browser_state \<Rightarrow> 'w browser_state option" where
  "handleUploadChange calls fetch aborted path files s =
     (case files of
        Some (f # fs) \<Rightarrow> run_upload calls fetch aborted path (f # fs) s
      | _ \<Rightarrow> Some s)"

section \<open>Navigation and new folders\<close>

definition handleNavigate :: "BrowseFilters \<Rightarrow> jsstring \<Rightarrow> BrowseFilters" where
  "handleNavigate filters next = filters\<lparr>bf_path := next\<rparr>"

datatype new_folder = No_folder | Folder_alert jsstring | Folder_filters BrowseFilters

text \<open>\<open>name\<close> is the answer of the prompt; null and the empty text are both falsy.\<close>

definition handleNewFolder :: "BrowseFilters \<Rightarrow> jsstring option \<Rightarrow> new_folder" where
  "handleNewFolder filters answer =
     (case answer of
        None \<Rightarrow> No_folder
      | Some name \<Rightarrow>
          if name = [] then No_folder
          else if slash \<in> set name then Folder_alert (js ''Folder name cannot contain \"/\"'')
          else Folder_filters (handleNavigate filters (bf_path filters @ name @ [slash])))"

section \<open>The controls\<close>

text \<open>\<open>lib/visuallyHidden.ts\<close>: the style of the file input, which hides it and keeps it in the render tree.\<close>

datatype css_value =
    Css_number int
  | Css_text jsstring

definition visuallyHiddenStyle :: "(jsstring \<times> css_value) list" where
  "visuallyHiddenStyle =
     [(js ''position'', Css_text (js ''absolute'')),
      (js ''width'', Css_number 1),
      (js ''height'', Css_number 1),
      (js ''padding'', Css_number 0),
      (js ''margin'', Css_number (- 1)),
      (js ''overflow'', Css_text (js ''hidden'')),
      (js ''clip'', Css_text (js ''rect(0,0,0,0)'')),
      (js ''whiteSpace'', Css_text (js ''nowrap'')),
      (js ''border'', Css_number 0)]"

record upload_controls =
  ul_input_style :: "(jsstring \<times> css_value) list"
  ul_label :: jsstring
  ul_enabled :: bool
  ul_status :: "jsstring option"
  ul_alert :: "jsstring option"

text \<open>The status is shown, with the cancel button, unless it is null or empty.\<close>

definition Browser_controls :: "bool \<Rightarrow> 'w browser_state \<Rightarrow> upload_controls" where
  "Browser_controls isPending s =
     \<lparr>ul_input_style = visuallyHiddenStyle,
      ul_label = (if isPending then js ''Uploading'' @ ellipsis else js ''Upload''),
      ul_enabled = (\<not> isPending),
      ul_status = (case bs_uploadStatus s of Some (c # t) \<Rightarrow> Some (c # t) | _ \<Rightarrow> None),
      ul_alert = map_option (\<lambda>e. js ''Upload failed: '' @ String_of_error e) (bs_uploadError s)\<rparr>"

text \<open>The input behind the button is never taken out of the render tree, where a click on it would do nothing.\<close>

lemma upload_input_rendered: "map_of (ul_input_style (Browser_controls isPending s)) (js ''display'') = None"
  by (simp add: Browser_controls_def visuallyHiddenStyle_def js_def)

section \<open>What an upload does\<close>

text \<open>A file that arrived: the calls that were made for it and their answers.\<close>

definition file_uploaded ::
  "'w upload_calls \<Rightarrow> ('blob, 'w) fetch \<Rightarrow> 'w signal \<Rightarrow> jsstring \<Rightarrow> 'blob File \<Rightarrow>
     'w upload_state \<Rightarrow> 'w upload_state \<Rightarrow> bool" where
  "file_uploaded calls fetch sig key file u u' \<longleftrightarrow>
     (if MULTIPART_THRESHOLD_BYTES \<le> fl_size (file_like file)
      then uploadFileMultipart (file_like file) key (content_type file) (multipartDeps calls fetch) (Some sig) u
             = Some (Inr (), u')
      else \<exists>url w1 status w2 d w3.
             uc_getUploadUrl calls key (us_world u) = (Inr url, w1)
             \<and> fetch \<lparr>pr_url = url, pr_body = file_body file, pr_contentType = Some (content_type file),
                       pr_signal = False\<rparr> w1 = (Inr status, w2)
             \<and> res_ok status \<and> uc_commitUpload calls key w2 = (Inr d, w3) \<and> u' = u\<lparr>us_world := w3\<rparr>)"

fun files_uploaded ::
  "'w upload_calls \<Rightarrow> ('blob, 'w) fetch \<Rightarrow> 'w signal \<Rightarrow> jsstring \<Rightarrow> 'blob File list \<Rightarrow>
     'w upload_state \<Rightarrow> 'w upload_state \<Rightarrow> bool" where
  "files_uploaded calls fetch sig dir [] u u' = (u' = u)"
| "files_uploaded calls fetch sig dir (f # fs) u u' =
     (\<exists>u1. file_uploaded calls fetch sig (dir @ file_name f) f u u1
        \<and> files_uploaded calls fetch sig dir fs u1 u')"

text \<open>What the loop leaves alone: everything but the upload state and the status.\<close>

definition same_frame :: "'w browser_state \<Rightarrow> 'w browser_state \<Rightarrow> bool" where
  "same_frame s s' \<longleftrightarrow> bs_controller s' = bs_controller s \<and> bs_uploadError s' = bs_uploadError s
     \<and> bs_invalidated s' = bs_invalidated s"

lemma same_frame_trans: "same_frame s t \<Longrightarrow> same_frame t u \<Longrightarrow> same_frame s u"
  by (simp add: same_frame_def)

lemma same_frame_refl [simp]: "same_frame s s"
  and same_frame_status [simp]: "same_frame s (setUploadStatus st s)"
  and status_upload [simp]: "bs_upload (setUploadStatus st s) = bs_upload s"
  and status_controller [simp]: "bs_controller (setUploadStatus st s) = bs_controller s"
  by (simp_all add: same_frame_def setUploadStatus_def)

lemma foldl_status:
  "bs_upload (foldl (\<lambda>t p. setUploadStatus (g p) t) s ps) = bs_upload s
    \<and> same_frame s (foldl (\<lambda>t p. setUploadStatus (g p) t) s ps)"
  by (induction ps arbitrary: s) (auto simp: same_frame_def setUploadStatus_def)

lemma upload_large_run:
  obtains r s' where "upload_large calls fetch aborted key file s = Some (r, s')"
    and "uploadFileMultipart (file_like file) key (content_type file) (multipartDeps calls fetch)
      (Some (aborted (bs_controller s))) (bs_upload s) = Some (r, bs_upload s')"
    and "same_frame s s'"
proof -
  let ?run = "uploadFileMultipart (file_like file) key (content_type file) (multipartDeps calls fetch)
      (Some (aborted (bs_controller s))) (bs_upload s)"
  obtain r u where run: "?run = Some (r, u)"
    by (simp add: uploadFileMultipart_returns) (metis surj_pair)
  let ?s1 = "(setUploadStatus (Some (js ''Uploading '' @ file_name file @ ellipsis)) s)\<lparr>bs_upload := u\<rparr>"
  let ?s' = "foldl (\<lambda>t p. setUploadStatus (Some (progress_status file p)) t) ?s1
      (drop (length (us_progress (bs_upload s))) (us_progress u))"
  have u: "bs_upload ?s' = u" and frame: "same_frame ?s1 ?s'"
    using foldl_status [of "\<lambda>p. Some (progress_status file p)" ?s1] by simp_all
  show thesis
  proof (rule that)
    show "upload_large calls fetch aborted key file s = Some (r, ?s')"
      by (simp add: upload_large_def run)
    show "?run = Some (r, bs_upload ?s')" unfolding u by (rule run)
    show "same_frame s ?s'"
      by (rule same_frame_trans [OF _ frame]) (simp add: same_frame_def setUploadStatus_def)
  qed
qed

lemma put_whole_Inr:
  assumes "put_whole calls fetch key file w = (Inr x, w')"
  shows "\<exists>url w1 status w2 d. uc_getUploadUrl calls key w = (Inr url, w1)
    \<and> fetch \<lparr>pr_url = url, pr_body = file_body file, pr_contentType = Some (content_type file),
              pr_signal = False\<rparr> w1 = (Inr status, w2)
    \<and> res_ok status \<and> uc_commitUpload calls key w2 = (Inr d, w')"
  using assms unfolding put_whole_def
  by (auto elim!: await_InrE split: if_splits)

lemma upload_file_run:
  obtains r s' where "upload_file calls fetch aborted dir file s = Some (r, s')" and "same_frame s s'"
    and "r = Inr () \<Longrightarrow> file_uploaded calls fetch (aborted (bs_controller s)) (dir @ file_name file) file
      (bs_upload s) (bs_upload s')"
proof (cases "MULTIPART_THRESHOLD_BYTES \<le> fl_size (file_like file)")
  case True
  obtain r s' where "upload_large calls fetch aborted (dir @ file_name file) file s = Some (r, s')"
    and "uploadFileMultipart (file_like file) (dir @ file_name file) (content_type file)
      (multipartDeps calls fetch) (Some (aborted (bs_controller s))) (bs_upload s) = Some (r, bs_upload s')"
    and "same_frame s s'"
    by (rule upload_large_run)
  with True show thesis by (intro that [of r s']) (simp_all add: upload_file_def file_uploaded_def)
next
  case False
  let ?key = "dir @ file_name file"
  obtain r w' where put: "put_whole calls fetch ?key file (us_world (bs_upload s)) = (r, w')"
    by force
  let ?s' = "s\<lparr>bs_upload := (bs_upload s)\<lparr>us_world := w'\<rparr>\<rparr>"
  have "upload_file calls fetch aborted dir file s = Some (r, ?s')"
    using False put by (simp add: upload_file_def on_upload_def remote_def)
  moreover have "same_frame s ?s'" by (simp add: same_frame_def)
  moreover have "file_uploaded calls fetch (aborted (bs_controller s)) ?key file (bs_upload s) (bs_upload ?s')"
    if "r = Inr ()"
    using False put_whole_Inr [OF put [unfolded that]] by (auto simp: file_uploaded_def)
  ultimately show thesis by (rule that)
qed

lemma upload_files_run:
  "\<exists>r s'. upload_files calls fetch aborted dir files s = Some (r, s') \<and> same_frame s s'
    \<and> (r = Inr () \<and> files_uploaded calls fetch (aborted (bs_controller s)) dir files (bs_upload s) (bs_upload s')
      \<or> (\<exists>pre f post e s1. files = pre @ f # post \<and> r = Inl e
          \<and> files_uploaded calls fetch (aborted (bs_controller s)) dir pre (bs_upload s) (bs_upload s1)
          \<and> upload_file calls fetch aborted dir f s1 = Some (Inl e, s')))"
proof (induction files arbitrary: s)
  case (Cons f fs)
  let ?sig = "aborted (bs_controller s)"
  obtain r s1 where f: "upload_file calls fetch aborted dir f s = Some (r, s1)" "same_frame s s1"
    "r = Inr () \<Longrightarrow> file_uploaded calls fetch ?sig (dir @ file_name f) f (bs_upload s) (bs_upload s1)"
    using upload_file_run by metis
  show ?case
  proof (cases r)
    case (Inl e)
    with f have "upload_files calls fetch aborted dir (f # fs) s = Some (Inl e, s1)" by simp
    moreover have "f # fs = [] @ f # fs" by simp
    ultimately show ?thesis using f(1,2) Inl by fastforce
  next
    case (Inr x)
    then have up: "file_uploaded calls fetch ?sig (dir @ file_name f) f (bs_upload s) (bs_upload s1)"
      using f(3) by simp
    obtain r' s' where rest: "upload_files calls fetch aborted dir fs s1 = Some (r', s')" "same_frame s1 s'"
      and out: "r' = Inr () \<and> files_uploaded calls fetch (aborted (bs_controller s1)) dir fs (bs_upload s1) (bs_upload s')
        \<or> (\<exists>pre g post e s2. fs = pre @ g # post \<and> r' = Inl e
            \<and> files_uploaded calls fetch (aborted (bs_controller s1)) dir pre (bs_upload s1) (bs_upload s2)
            \<and> upload_file calls fetch aborted dir g s2 = Some (Inl e, s'))"
      using Cons.IH [of s1] by blast
    have same: "aborted (bs_controller s1) = ?sig" using f(2) by (simp add: same_frame_def)
    have run: "upload_files calls fetch aborted dir (f # fs) s = Some (r', s')" "same_frame s s'"
      using f(1,2) Inr rest same_frame_trans by (simp, blast)
    from out show ?thesis
    proof (elim disjE exE conjE)
      assume "r' = Inr ()" and "files_uploaded calls fetch (aborted (bs_controller s1)) dir fs (bs_upload s1) (bs_upload s')"
      with run up same show ?thesis by auto
    next
      fix pre g post e s2
      assume "fs = pre @ g # post" "r' = Inl e"
        and "files_uploaded calls fetch (aborted (bs_controller s1)) dir pre (bs_upload s1) (bs_upload s2)"
        and "upload_file calls fetch aborted dir g s2 = Some (Inl e, s')"
      moreover from this up same
      have "files_uploaded calls fetch ?sig dir (f # pre) (bs_upload s) (bs_upload s2)" by auto
      moreover have "f # fs = (f # pre) @ g # post" using \<open>fs = pre @ g # post\<close> by simp
      ultimately show ?thesis using run by blast
    qed
  qed
qed simp

section \<open>Properties\<close>

text \<open>
  C7. An upload of any number of files always settles and clears its status. Either every file arrived
  under the normalized path and its own name, in order, small files by one PUT that the store
  accepted and a commit, large ones by the multipart driver, and the caches of directories are
  invalidated; or the files before some file arrived, that file's upload threw the error that is
  shown, the files after it were not touched, and no cache is invalidated.
\<close>

theorem upload_mutation_outcome:
  "\<exists>s'. run_upload calls fetch aborted path files s = Some s' \<and> bs_uploadStatus s' = None
    \<and> (bs_uploadError s' = None
        \<and> bs_invalidated s' = bs_invalidated s @ directory_changed_keys
        \<and> files_uploaded calls fetch (aborted (Suc (bs_controller s))) (normalizeUploadPath path) files
            (bs_upload s) (bs_upload s')
      \<or> (\<exists>pre f post e s1 s2. files = pre @ f # post \<and> bs_uploadError s' = Some e
        \<and> bs_invalidated s' = bs_invalidated s
        \<and> files_uploaded calls fetch (aborted (Suc (bs_controller s))) (normalizeUploadPath path) pre
            (bs_upload s) (bs_upload s1)
        \<and> upload_file calls fetch aborted (normalizeUploadPath path) f s1 = Some (Inl e, s2)
        \<and> bs_upload s' = bs_upload s2))"
proof -
  let ?s0 = "s\<lparr>bs_controller := Suc (bs_controller s), bs_uploadError := None\<rparr>"
  let ?dir = "normalizeUploadPath path" and ?sig = "aborted (Suc (bs_controller s))"
  obtain r s1 where run: "upload_files calls fetch aborted ?dir files ?s0 = Some (r, s1)"
    and frame: "same_frame ?s0 s1"
    and out: "r = Inr () \<and> files_uploaded calls fetch ?sig ?dir files (bs_upload s) (bs_upload s1)
      \<or> (\<exists>pre f post e t. files = pre @ f # post \<and> r = Inl e
          \<and> files_uploaded calls fetch ?sig ?dir pre (bs_upload s) (bs_upload t)
          \<and> upload_file calls fetch aborted ?dir f t = Some (Inl e, s1))"
    using upload_files_run [of calls fetch aborted ?dir files ?s0] by simp blast
  have keep: "bs_uploadError s1 = None" "bs_invalidated s1 = bs_invalidated s"
    using frame by (simp_all add: same_frame_def)
  from out show ?thesis
  proof (elim disjE exE conjE)
    assume "r = Inr ()" and "files_uploaded calls fetch ?sig ?dir files (bs_upload s) (bs_upload s1)"
    with run keep show ?thesis by (simp add: run_upload_def setUploadStatus_def)
  next
    fix pre f post e t
    assume *: "files = pre @ f # post" "r = Inl e"
      "files_uploaded calls fetch ?sig ?dir pre (bs_upload s) (bs_upload t)"
      "upload_file calls fetch aborted ?dir f t = Some (Inl e, s1)"
    let ?s' = "(setUploadStatus None s1)\<lparr>bs_uploadError := Some e\<rparr>"
    have "run_upload calls fetch aborted path files s = Some ?s'"
      using run *(2) by (simp add: run_upload_def)
    moreover have "bs_uploadStatus ?s' = None" "bs_invalidated ?s' = bs_invalidated s"
      "bs_upload ?s' = bs_upload s1" "bs_uploadError ?s' = Some e"
      using keep by (simp_all add: setUploadStatus_def)
    ultimately show ?thesis using * by metis
  qed
qed

text \<open>
  C21. A folder made by navigating into it is the folder that uploads go to, except at the root: there a
  name that starts with white space is shown as it was typed, but an upload drops the white space and
  so lands in another folder.
\<close>

theorem new_folder_uploads:
  assumes "normalizeUploadPath (bf_path filters) = bf_path filters"
    and "handleNewFolder filters (Some name) = Folder_filters filters'"
  shows "bf_path filters' = bf_path filters @ name @ [slash] \<and> name \<noteq> [] \<and> slash \<notin> set name
    \<and> (normalizeUploadPath (bf_path filters') = bf_path filters' \<longleftrightarrow>
        \<not> (bf_path filters = [] \<and> is_space (hd name)))"
proof -
  have name: "name \<noteq> []" "slash \<notin> set name" and path: "bf_path filters' = bf_path filters @ name @ [slash]"
    using assms(2) by (auto simp: handleNewFolder_def handleNavigate_def split: if_splits)
  show ?thesis using normalizeUploadPath_child [OF assms(1) name] name path by simp
qed

theorem new_folder_uploads_witness:
  "normalizeUploadPath (js '' a/'') \<noteq> js '' a/''"
proof -
  have new: "handleNewFolder DEFAULT_BROWSE_FILTERS (Some (js '' a'')) =
      Folder_filters (DEFAULT_BROWSE_FILTERS\<lparr>bf_path := js '' a/''\<rparr>)"
    by (simp add: handleNewFolder_def handleNavigate_def DEFAULT_BROWSE_FILTERS_def js_def slash_def)
  have root: "normalizeUploadPath (bf_path DEFAULT_BROWSE_FILTERS) = bf_path DEFAULT_BROWSE_FILTERS"
    by (simp add: DEFAULT_BROWSE_FILTERS_def normalizeUploadPath_def trim_def strip_leading_slashes_def)
  have "bf_path DEFAULT_BROWSE_FILTERS = [] \<and> is_space (hd (js '' a''))"
    by (simp add: DEFAULT_BROWSE_FILTERS_def js_def is_space_def)
  then have "normalizeUploadPath (bf_path (DEFAULT_BROWSE_FILTERS\<lparr>bf_path := js '' a/''\<rparr>)) \<noteq>
      bf_path (DEFAULT_BROWSE_FILTERS\<lparr>bf_path := js '' a/''\<rparr>)"
    using new_folder_uploads [OF root new] by blast
  then show ?thesis by simp
qed

end
