(* ===== verification/Multipart_Store.thy ===== *)
theory Multipart_Store
  imports Multipart
begin

text \<open>
  The resumable upload against a multipart store. \<open>stores_parts\<close> is what such a store documents of
  the calls the driver makes; nothing is assumed about when they fail. The invariant \<open>sound\<close> says
  that a session on record for this file only has parts of this file. It survives every attempt,
  so that after any number of failed, cancelled or interrupted attempts the one that succeeds completes
  the exact bytes of the file. It also has the ways an upload can settle, and how often it sends a part.
\<close>

section \<open>What a multipart store documents\<close>

text \<open>The parts stored for a key and an upload id, by part number.\<close>

type_synonym ('w, 'blob) parts_view = "'w \<Rightarrow> jsstring \<Rightarrow> jsstring \<Rightarrow> int \<rightharpoonup> 'blob"

definition with_upload ::
  "(jsstring \<Rightarrow> jsstring \<Rightarrow> int \<rightharpoonup> 'blob) \<Rightarrow> jsstring \<Rightarrow> jsstring \<Rightarrow> (int \<rightharpoonup> 'blob) \<Rightarrow>
     jsstring \<Rightarrow> jsstring \<Rightarrow> int \<rightharpoonup> 'blob" where
  "with_upload st k u m = st(k := (st k)(u := m))"

definition put_part ::
  "(jsstring \<Rightarrow> jsstring \<Rightarrow> int \<rightharpoonup> 'blob) \<Rightarrow> jsstring \<Rightarrow> jsstring \<Rightarrow> int \<Rightarrow> 'blob \<Rightarrow>
     jsstring \<Rightarrow> jsstring \<Rightarrow> int \<rightharpoonup> 'blob" where
  "put_part st k u n b = with_upload st k u ((st k u)(n \<mapsto> b))"

lemma with_upload_same [simp]: "with_upload st k u m k u = m"
  and with_upload_other [simp]: "k' \<noteq> k \<or> u' \<noteq> u \<Longrightarrow> with_upload st k u m k' u' = st k' u'"
  by (auto simp: with_upload_def)

lemma with_upload_twice [simp]: "with_upload (with_upload st k u m) k u m' = with_upload st k u m'"
  by (simp add: with_upload_def)

lemma put_part_same [simp]: "put_part st k u n b k u = (st k u)(n \<mapsto> b)"
  by (simp only: put_part_def with_upload_same)

lemma put_part_other: "k' \<noteq> k \<or> u' \<noteq> u \<Longrightarrow> put_part st k u n b k' u' = st k' u'"
  by (simp only: put_part_def with_upload_other)

lemma put_part_twice [simp]: "put_part (put_part st k u n b) k u n b = put_part st k u n b"
  by (simp add: put_part_def with_upload_def)

lemma with_upload_put [simp]: "with_upload (put_part st k u n b) k u m = with_upload st k u m"
  by (simp add: put_part_def)

text \<open>A new upload id has no parts.\<close>

definition create_law :: "('w, 'blob) MultipartUploadDeps \<Rightarrow> ('w, 'blob) parts_view \<Rightarrow> bool" where
  "create_law deps stored \<longleftrightarrow>
     (\<forall>k c w e w'. createMultipartUploadD deps k c w = (Inl e, w') \<longrightarrow> stored w' = stored w)
   \<and> (\<forall>k c w u w'. createMultipartUploadD deps k c w = (Inr u, w') \<longrightarrow>
        stored w' = with_upload (stored w) k u Map.empty)"

text \<open>A part URL names its key, upload id and part number.\<close>

definition url_law ::
  "('w, 'blob) MultipartUploadDeps \<Rightarrow> ('w, 'blob) parts_view \<Rightarrow>
     (jsstring \<rightharpoonup> jsstring \<times> jsstring \<times> int) \<Rightarrow> bool" where
  "url_law deps stored target \<longleftrightarrow>
     (\<forall>k u n w r w'. getUploadPartUrlD deps k u n w = (r, w') \<longrightarrow>
        stored w' = stored w \<and> (\<forall>url. r = Inr url \<longrightarrow> target url = Some (k, u, n)))"

text \<open>A PUT that succeeds replaces that part by the body; one that fails did so or did nothing.\<close>

definition put_law ::
  "('w, 'blob) MultipartUploadDeps \<Rightarrow> ('w, 'blob) parts_view \<Rightarrow>
     (jsstring \<rightharpoonup> jsstring \<times> jsstring \<times> int) \<Rightarrow> bool" where
  "put_law deps stored target \<longleftrightarrow>
     (\<forall>url b w r w' k u n. putPartD deps url b w = (r, w') \<longrightarrow> target url = Some (k, u, n) \<longrightarrow>
        stored w' = put_part (stored w) k u n b
        \<or> (\<exists>e. r = Inl e) \<and> stored w' = stored w)"

text \<open>Listing returns the sizes of the stored parts.\<close>

definition list_law ::
  "('w, 'blob) MultipartUploadDeps \<Rightarrow> ('blob \<Rightarrow> int) \<Rightarrow> ('w, 'blob) parts_view \<Rightarrow> bool" where
  "list_law deps blobSize stored \<longleftrightarrow>
     (\<forall>k u w r w'. listUploadedPartsD deps k u w = (r, w') \<longrightarrow>
        stored w' = stored w
        \<and> (\<forall>ps. r = Inr ps \<longrightarrow>
             js_Map (map (\<lambda>p. (upi_number p, upi_size p)) ps) = map_option blobSize \<circ> stored w k u))"

text \<open>
  A completion that fails may have been carried out all the same, when its answer was lost: the parts
  are gone then, or nothing changed. Aborting likewise removes the parts or changes nothing.
\<close>

definition close_law :: "('w, 'blob) MultipartUploadDeps \<Rightarrow> ('w, 'blob) parts_view \<Rightarrow> bool" where
  "close_law deps stored \<longleftrightarrow>
     (\<forall>k u w e w'. completeMultipartUploadD deps k u w = (Inl e, w') \<longrightarrow>
        stored w' = stored w \<or> stored w' = with_upload (stored w) k u Map.empty)
   \<and> (\<forall>k u w r w'. abortMultipartUploadD deps k u w = (r, w') \<longrightarrow>
        stored w' = stored w \<or> stored w' = with_upload (stored w) k u Map.empty)"

definition stores_parts ::
  "('w, 'blob) MultipartUploadDeps \<Rightarrow> ('blob \<Rightarrow> int) \<Rightarrow> ('w, 'blob) parts_view \<Rightarrow>
     (jsstring \<rightharpoonup> jsstring \<times> jsstring \<times> int) \<Rightarrow> bool" where
  "stores_parts deps blobSize stored target \<longleftrightarrow>
     create_law deps stored \<and> url_law deps stored target \<and> put_law deps stored target
     \<and> list_law deps blobSize stored \<and> close_law deps stored"

section \<open>One part\<close>

lemma put_once_stored:
  assumes "url_law deps stored target" and "put_law deps stored target"
    and "put_once file key u part deps s = (r, s')"
  shows "stored (us_world s') = put_part (stored (us_world s)) key u (pp_partNumber part)
        (fl_slice file (pp_start part) (pp_end part))
    \<or> (\<exists>e. r = Inl e) \<and> stored (us_world s') = stored (us_world s)"
  using assms(3)
proof (cases rule: put_onceE)
  case (no_url e)
  with assms(1) show ?thesis by (auto simp: url_law_def)
next
  case (sent url w)
  with assms(1) have "stored w = stored (us_world s)" "target url = Some (key, u, pp_partNumber part)"
    by (auto simp: url_law_def)
  moreover from this assms(2) sent(2)
  have "stored (us_world s') = put_part (stored w) key u (pp_partNumber part)
        (fl_slice file (pp_start part) (pp_end part))
    \<or> (\<exists>e. r = Inl e) \<and> stored (us_world s') = stored w"
    unfolding put_law_def by blast
  ultimately show ?thesis by simp
qed

lemma attempts_stored:
  assumes "url_law deps stored target" and "put_law deps stored target"
  shows "attempts file key u part deps aborted lastErr n s = (r, s') \<Longrightarrow>
    stored (us_world s') = put_part (stored (us_world s)) key u (pp_partNumber part)
        (fl_slice file (pp_start part) (pp_end part))
    \<or> (\<exists>e. r = Inl e) \<and> stored (us_world s') = stored (us_world s)"
proof (induction n arbitrary: lastErr s)
  case (Suc n)
  from Suc.prems show ?case
  proof (cases rule: attempts_SucE)
    case ok
    show ?thesis using put_once_stored [OF assms ok(1)] by (simp only: ok(2))
  next
    case (stop e)
    show ?thesis using put_once_stored [OF assms stop(1)] by (simp only: stop(2))
  next
    case (retry e s1)
    from Suc.IH [OF retry(3)] put_once_stored [OF assms retry(1)] show ?thesis by auto
  qed
qed simp

section \<open>All parts\<close>

text \<open>
  What the upload id \<open>u\<close> holds for \<open>key\<close>, part by part: each stored part has a planned number, and
  where its size is the planned one it is that range of the file.
\<close>

definition own_parts ::
  "('blob \<Rightarrow> int) \<Rightarrow> 'blob FileLike \<Rightarrow> PartPlan list \<Rightarrow> (int \<rightharpoonup> 'blob) \<Rightarrow> bool" where
  "own_parts blobSize file parts m \<longleftrightarrow>
     (\<forall>n b. m n = Some b \<longrightarrow>
        (\<exists>p \<in> set parts. pp_partNumber p = n
           \<and> (blobSize b = pp_end p - pp_start p \<longrightarrow> b = fl_slice file (pp_start p) (pp_end p))))"

lemma own_parts_empty [simp]: "own_parts blobSize file parts Map.empty"
  by (simp add: own_parts_def)

lemma own_parts_put:
  "own_parts blobSize file parts m \<Longrightarrow> p \<in> set parts \<Longrightarrow>
    own_parts blobSize file parts (m(pp_partNumber p \<mapsto> fl_slice file (pp_start p) (pp_end p)))"
  by (auto simp: own_parts_def)

text \<open>The effect of one turn: the part is put, or nothing, or the upload is emptied by a cancellation.\<close>

lemma cancel_stored:
  assumes "close_law deps stored" and "cancel key u deps s = (r, s')"
  shows "(\<exists>e. r = Inl e) \<and> (stored (us_world s') = stored (us_world s)
    \<or> stored (us_world s') = with_upload (stored (us_world s)) key u Map.empty)"
proof -
  obtain r1 s1 where p: "remote (abortMultipartUploadD deps key u) s = (r1, s1)" by force
  have "us_world s' = us_world s1 \<and> (\<exists>e. r = Inl e)"
    using assms(2) p by (cases r1) (auto simp: cancel_def async_simps clear_session_def)
  moreover have "stored (us_world s1) = stored (us_world s)
    \<or> stored (us_world s1) = with_upload (stored (us_world s)) key u Map.empty"
    using assms(1) remote_frame(3) [OF p] unfolding close_law_def by blast
  ultimately show ?thesis by metis
qed

lemma upload_one_stored:
  assumes "stores_parts deps blobSize stored target"
    and "upload_one file key u landed deps aborted part s = (r, s')"
  shows "stored (us_world s') = put_part (stored (us_world s)) key u (pp_partNumber part)
        (fl_slice file (pp_start part) (pp_end part))
    \<or> stored (us_world s') = stored (us_world s)
        \<and> (r = Inr () \<longrightarrow> landed (pp_partNumber part) = Some (pp_end part - pp_start part))
    \<or> (\<exists>e. r = Inl e) \<and> stored (us_world s') = with_upload (stored (us_world s)) key u Map.empty"
proof (cases "aborted (us_world s) \<or> landed (pp_partNumber part) = Some (pp_end part - pp_start part)")
  case True
  have cl: "close_law deps stored" using assms(1) by (simp add: stores_parts_def)
  show ?thesis
  proof (cases "aborted (us_world s)")
    case True
    then have "cancel key u deps s = (r, s')" using assms(2) by (simp add: upload_one_def)
    from cancel_stored [OF cl this] show ?thesis by auto
  next
    case False
    with True assms(2) show ?thesis by (simp add: upload_one_def)
  qed
next
  case False
  have cl: "close_law deps stored" using assms(1) by (simp add: stores_parts_def)
  obtain r1 s1 where p: "uploadPartWithRetry file key u part deps aborted s = (r1, s1)" by force
  have st: "stored (us_world s1) = put_part (stored (us_world s)) key u (pp_partNumber part)
        (fl_slice file (pp_start part) (pp_end part))
    \<or> (\<exists>e. r1 = Inl e) \<and> stored (us_world s1) = stored (us_world s)"
    using attempts_stored [of deps stored target] assms(1) p
    unfolding stores_parts_def uploadPartWithRetry_def by blast
  show ?thesis
  proof (cases r1)
    case (Inr x)
    with False assms(2) p have "r = Inr () \<and> s' = s1" by (auto simp: upload_one_def async_simps)
    with st Inr show ?thesis by blast
  next
    case (Inl e)
    show ?thesis
    proof (cases "aborted (us_world s1)")
      case True
      with False assms(2) p Inl have "cancel key u deps s1 = (r, s')"
        by (auto simp: upload_one_def async_simps)
      from cancel_stored [OF cl this] st show ?thesis by auto
    next
      case no: False
      with False assms(2) p Inl have "r = Inl e \<and> s' = s1"
        by (auto simp: upload_one_def async_simps)
      with st show ?thesis by auto
    qed
  qed
qed

lemma upload_parts_own:
  assumes "stores_parts deps blobSize stored target"
  shows "upload_parts file key u landed deps aborted n c ps s = (r, s') \<Longrightarrow> set ps \<subseteq> set parts \<Longrightarrow>
    own_parts blobSize file parts (stored (us_world s) key u) \<Longrightarrow>
    own_parts blobSize file parts (stored (us_world s') key u)"
proof (induction ps arbitrary: c s)
  case (Cons p ps)
  obtain r1 s1 where one: "upload_one file key u landed deps aborted p s = (r1, s1)" by force
  have own: "own_parts blobSize file parts (stored (us_world s1) key u)"
    using upload_one_stored [OF assms one] Cons.prems(2,3) by (auto intro: own_parts_put)
  show ?case
  proof (cases r1)
    case (Inl e)
    with Cons.prems(1) one own show ?thesis by (auto simp: async_simps)
  next
    case (Inr x)
    let ?s2 = "s1\<lparr>us_progress := us_progress s1 @ [(c + 1, n)]\<rparr>"
    from Inr Cons.prems(1) one
    have "upload_parts file key u landed deps aborted n (c + 1) ps ?s2 = (r, s')"
      by (simp add: async_simps onProgress_def)
    from Cons.IH [OF this] Cons.prems(2) own show ?thesis by simp
  qed
qed simp

lemma upload_parts_put:
  assumes "stores_parts deps blobSize stored target"
  shows "upload_parts file key u landed deps aborted n c ps s = (Inr (), s') \<Longrightarrow>
    distinct (map pp_partNumber ps) \<Longrightarrow>
    (\<forall>i. i \<notin> pp_partNumber ` set ps \<longrightarrow> stored (us_world s') key u i = stored (us_world s) key u i)
    \<and> (\<forall>p \<in> set ps.
         stored (us_world s') key u (pp_partNumber p) = Some (fl_slice file (pp_start p) (pp_end p))
         \<or> landed (pp_partNumber p) = Some (pp_end p - pp_start p)
           \<and> stored (us_world s') key u (pp_partNumber p) = stored (us_world s) key u (pp_partNumber p))"
proof (induction ps arbitrary: c s)
  case (Cons p ps)
  obtain r1 s1 where one: "upload_one file key u landed deps aborted p s = (r1, s1)" by force
  with Cons.prems(1) obtain x where r1: "r1 = Inr x" by (cases r1) (simp_all add: async_simps)
  let ?s2 = "s1\<lparr>us_progress := us_progress s1 @ [(c + 1, n)]\<rparr>"
  from r1 Cons.prems(1) one
  have rest: "upload_parts file key u landed deps aborted n (c + 1) ps ?s2 = (Inr (), s')"
    by (simp add: async_simps onProgress_def)
  have st: "stored (us_world s1) key u = (stored (us_world s) key u)
        (pp_partNumber p \<mapsto> fl_slice file (pp_start p) (pp_end p))
    \<or> stored (us_world s1) key u = stored (us_world s) key u
        \<and> landed (pp_partNumber p) = Some (pp_end p - pp_start p)"
    using upload_one_stored [OF assms one] r1 by auto
  have fresh: "pp_partNumber p \<notin> pp_partNumber ` set ps" and d: "distinct (map pp_partNumber ps)"
    using Cons.prems(2) by auto
  note IH = Cons.IH [OF rest d]
  have "stored (us_world s') key u i = stored (us_world s) key u i"
    if "i \<notin> pp_partNumber ` set (p # ps)" for i
    using IH st that by auto
  moreover have "stored (us_world s') key u (pp_partNumber p) = stored (us_world s1) key u (pp_partNumber p)"
    using IH fresh by auto
  moreover have "stored (us_world s1) key u (pp_partNumber q) = stored (us_world s) key u (pp_partNumber q)"
    if "q \<in> set ps" for q
  proof -
    have "pp_partNumber q \<noteq> pp_partNumber p" using fresh that by (metis imageI)
    with st show ?thesis by auto
  qed
  ultimately show ?case using IH st by auto
qed simp

lemma map_of_part:
  "distinct (map pp_partNumber ps) \<Longrightarrow> p \<in> set ps \<Longrightarrow>
    map_of (map (\<lambda>p. (pp_partNumber p, f p)) ps) (pp_partNumber p) = Some (f p)"
  by (intro map_of_is_SomeI) (auto simp: comp_def)

text \<open>With parts of the file only, a planned size is enough to know a part.\<close>

lemma upload_parts_complete:
  assumes "stores_parts deps blobSize stored target"
    and "upload_parts file key u landed deps aborted n c parts s = (Inr (), s')"
    and "distinct (map pp_partNumber parts)"
    and "own_parts blobSize file parts (stored (us_world s) key u)"
    and "\<And>i k. landed i = Some k \<Longrightarrow> \<exists>b. stored (us_world s) key u i = Some b \<and> blobSize b = k"
  shows "stored (us_world s') key u =
    map_of (map (\<lambda>p. (pp_partNumber p, fl_slice file (pp_start p) (pp_end p))) parts)"
proof
  fix i
  note put = upload_parts_put [OF assms(1-3)]
  have own: "own_parts blobSize file parts (stored (us_world s') key u)"
    using upload_parts_own [OF assms(1,2) subset_refl assms(4)] .
  have uniq: "p = q" if "p \<in> set parts" "q \<in> set parts" "pp_partNumber p = pp_partNumber q" for p q
    using that assms(3) by (auto simp: distinct_map dest: inj_onD)
  have "stored (us_world s') key u (pp_partNumber p) = Some (fl_slice file (pp_start p) (pp_end p))"
    if "p \<in> set parts" for p
  proof -
    have "\<exists>b. stored (us_world s) key u (pp_partNumber p) = Some b \<and> b = fl_slice file (pp_start p) (pp_end p)"
      if landed: "landed (pp_partNumber p) = Some (pp_end p - pp_start p)"
      using assms(5) [OF landed] assms(4) uniq [OF \<open>p \<in> set parts\<close>]
      unfolding own_parts_def by metis
    with put that show ?thesis by auto
  qed
  moreover have "stored (us_world s') key u i = None" if "i \<notin> pp_partNumber ` set parts"
    using own that unfolding own_parts_def by (metis imageI not_Some_eq)
  moreover note map_of_part [OF assms(3), of _ "\<lambda>p. fl_slice file (pp_start p) (pp_end p)"]
  moreover have "map_of (map (\<lambda>p. (pp_partNumber p, fl_slice file (pp_start p) (pp_end p))) parts) i = None"
    if "i \<notin> pp_partNumber ` set parts"
    using that by (simp add: map_of_eq_None_iff image_image)
  ultimately show "stored (us_world s') key u i =
      map_of (map (\<lambda>p. (pp_partNumber p, fl_slice file (pp_start p) (pp_end p))) parts) i"
    by (cases "i \<in> pp_partNumber ` set parts") auto
qed

section \<open>The invariant of a session\<close>

definition sound ::
  "('blob \<Rightarrow> int) \<Rightarrow> ('w, 'blob) parts_view \<Rightarrow> 'blob FileLike \<Rightarrow> jsstring \<Rightarrow> 'w upload_state \<Rightarrow> bool" where
  "sound blobSize stored file key s \<longleftrightarrow>
     (\<forall>sess. loadSession key (us_storage s) = Some sess \<longrightarrow>
        ss_fingerprint sess = fileFingerprint file \<longrightarrow>
        own_parts blobSize file (plan (fl_size file) PART_SIZE_BYTES)
          (stored (us_world s) key (ss_uploadId sess)))"

lemma soundI:
  assumes "\<And>sess. loadSession key (us_storage s) = Some sess \<Longrightarrow>
    ss_fingerprint sess = fileFingerprint file \<Longrightarrow>
    own_parts blobSize file (plan (fl_size file) PART_SIZE_BYTES)
      (stored (us_world s) key (ss_uploadId sess))"
  shows "sound blobSize stored file key s"
  using assms by (simp add: sound_def)

lemma createUpload_sound:
  assumes "stores_parts deps blobSize stored target" and "createUpload g key ct deps s = (r, s')"
    and "sound blobSize stored file key s"
  shows "sound blobSize stored file key s'
    \<and> (\<forall>u landed. r = Inr (u, landed) \<longrightarrow> stored (us_world s') key u = Map.empty \<and> landed = Map.empty)"
  using assms(2)
proof (cases rule: createUploadE)
  case (none e)
  then have "stored (us_world s') = stored (us_world s)"
    using assms(1) by (auto simp: stores_parts_def create_law_def)
  with none assms(3) show ?thesis by (simp add: sound_def)
next
  case (made u r1)
  have st: "stored (us_world s') = with_upload (stored (us_world s)) key u Map.empty"
    using assms(1) made(1) by (simp add: stores_parts_def create_law_def)
  have "own_parts blobSize file (plan (fl_size file) PART_SIZE_BYTES)
      (stored (us_world s') key (ss_uploadId sess))"
    if "loadSession key (us_storage s') = Some sess" "ss_fingerprint sess = fileFingerprint file" for sess
  proof (cases "ss_uploadId sess = u")
    case False
    then have "loadSession key (us_storage s) = Some sess"
      using sessions.load_after_save [OF made(2)] that(1)
      by (cases r1) (auto split: if_splits)
    with assms(3) that(2) False st show ?thesis by (simp add: sound_def)
  qed (simp add: st)
  with made(3) st show ?thesis by (cases r1) (auto intro: soundI)
qed

lemma sound_world:
  "sound blobSize stored file key s \<Longrightarrow> us_storage t = us_storage s \<Longrightarrow>
    stored (us_world t) = stored (us_world s) \<Longrightarrow> sound blobSize stored file key t"
  by (simp add: sound_def)

lemma resume_sound:
  assumes "stores_parts deps blobSize stored target"
    and "resumeOrCreateUpload file key ct deps s = (r, s')"
    and "sound blobSize stored file key s"
  shows "sound blobSize stored file key s'
    \<and> (\<forall>u landed. r = Inr (u, landed) \<longrightarrow>
         own_parts blobSize file (plan (fl_size file) PART_SIZE_BYTES) (stored (us_world s') key u)
         \<and> (\<forall>i k. landed i = Some k \<longrightarrow> (\<exists>b. stored (us_world s') key u i = Some b \<and> blobSize b = k)))"
  using assms(2)
proof (cases rule: resumeE)
  case (resumed sess parts)
  have l: "stored (us_world s') = stored (us_world s)"
    "js_Map (map (\<lambda>p. (upi_number p, upi_size p)) parts) =
      map_option blobSize \<circ> stored (us_world s) key (ss_uploadId sess)"
    using assms(1) resumed(3) by (auto simp: stores_parts_def list_law_def)
  have "own_parts blobSize file (plan (fl_size file) PART_SIZE_BYTES)
      (stored (us_world s') key (ss_uploadId sess))"
    using assms(3) resumed(1,2) l(1) by (simp add: sound_def)
  with sound_world [OF assms(3) resumed(5) l(1)] resumed(4) l show ?thesis by auto
next
  case (stale sess e t)
  have "stored (us_world t) = stored (us_world s)"
    using assms(1) stale(3) by (auto simp: stores_parts_def list_law_def)
  from createUpload_sound [OF assms(1) stale(6) sound_world [OF assms(3) stale(4) this]]
  show ?thesis by auto
next
  case fresh
  from createUpload_sound [OF assms(1) fresh assms(3)] show ?thesis by auto
qed

text \<open>After a start, the session on record is that of this upload, or there is none.\<close>

lemma resume_session_cases:
  assumes "resumeOrCreateUpload file key ct deps s = (Inr (u, landed), s')"
    and "loadSession key (us_storage s') = Some sess"
  shows "sess = \<lparr>ss_uploadId = u, ss_fingerprint = fileFingerprint file\<rparr>"
proof (cases "us_storage s")
  case (Some ws)
  with resume_session [OF assms(1)] assms(2) show ?thesis by simp
next
  case None
  have no: "us_storage s' = None" if "createUpload file key ct deps t = (Inr (u, landed), s')"
    "us_storage t = None" for t
    using that(1)
  proof (cases rule: createUploadE)
    case (made u' r1)
    with that(2) show ?thesis by (simp add: saveSession_def)
  qed simp
  from assms(1) have "us_storage s' = None"
    by (cases rule: resumeE) (use None no in auto)
  with assms(2) show ?thesis by (simp add: loadSession_def)
qed

lemma upload_keeps_sound:
  assumes "stores_parts deps blobSize stored target"
    and "sound blobSize stored file key s"
    and "uploadFileMultipart file key ct deps signal s = Some (r, s')"
  shows "sound blobSize stored file key s'"
proof -
  let ?parts = "plan (fl_size file) PART_SIZE_BYTES"
  define aborted where "aborted = (case signal of None \<Rightarrow> NEVER_ABORTS | Some sg \<Rightarrow> sg)"
  have run: "upload_with_plan file key ct deps aborted ?parts s = (r, s')"
    using assms(3) by (simp add: uploadFileMultipart_returns aborted_def)
  have after: "sound blobSize stored file key t"
    if rs: "resumeOrCreateUpload file key ct deps s = (Inr (u, landed), s1)"
      and up: "upload_parts file key u landed deps aborted n c ?parts s1 = (r1, s2)"
      and t: "us_storage t = us_storage s2" "stored (us_world t) = stored (us_world s2)
        \<or> stored (us_world t) = with_upload (stored (us_world s2)) key u Map.empty"
    for u landed s1 n c r1 s2 t
  proof (rule soundI)
    fix sess assume sess: "loadSession key (us_storage t) = Some sess"
    with upload_parts_outcome [OF up] t(1) have "loadSession key (us_storage s1) = Some sess"
      by (auto simp: cancelled_def)
    then have "sess = \<lparr>ss_uploadId = u, ss_fingerprint = fileFingerprint file\<rparr>"
      by (rule resume_session_cases [OF rs])
    with upload_parts_own [OF assms(1) up subset_refl] resume_sound [OF assms(1) rs assms(2)] t(2)
    show "own_parts blobSize file ?parts (stored (us_world t) key (ss_uploadId sess))" by auto
  qed
  from run show ?thesis
  proof (cases rule: upload_with_planE)
    case (not_started e)
    with resume_sound [OF assms(1) _ assms(2)] show ?thesis by blast
  next
    case (stopped u landed s1 e)
    then show ?thesis by (intro after) auto
  next
    case (incomplete u landed s1 s2 e)
    moreover have "stored (us_world s') = stored (us_world s2)
        \<or> stored (us_world s') = with_upload (stored (us_world s2)) key u Map.empty"
      using assms(1) incomplete(3) by (auto simp: stores_parts_def close_law_def)
    ultimately show ?thesis by (intro after)
  next
    case (complete u landed s1 s2)
    then show ?thesis by (intro soundI) (simp add: sessions.load_clear)
  qed
qed

lemma other_upload_keeps_sound:
  assumes "stores_parts deps blobSize stored target"
    and "sound blobSize stored file key s"
    and "fileFingerprint g \<noteq> fileFingerprint file"
    and "uploadFileMultipart g key ct deps signal s = Some (r, s')"
  shows "sound blobSize stored file key s'"
proof -
  define aborted where "aborted = (case signal of None \<Rightarrow> NEVER_ABORTS | Some sg \<Rightarrow> sg)"
  have run: "upload_with_plan g key ct deps aborted (plan (fl_size g) PART_SIZE_BYTES) s = (r, s')"
    using assms(4) by (simp add: uploadFileMultipart_returns aborted_def)
  have foreign: "sound blobSize stored file key t"
    if rs: "resumeOrCreateUpload g key ct deps s = (Inr (u, landed), s1)"
      and t: "loadSession key (us_storage t) = None \<or> us_storage t = us_storage s1"
    for u landed s1 t
    using t resume_session_cases [OF rs] assms(3) by (intro soundI) fastforce
  from run show ?thesis
  proof (cases rule: upload_with_planE)
    case (not_started e)
    from not_started(1) show ?thesis
    proof (cases rule: resumeE)
      case (stale sess e' t)
      have "stored (us_world t) = stored (us_world s)"
        using assms(1) stale(3) by (auto simp: stores_parts_def list_law_def)
      from createUpload_sound [OF assms(1) stale(6) sound_world [OF assms(2) stale(4) this]]
      show ?thesis by blast
    next
      case fresh
      with createUpload_sound [OF assms(1) fresh assms(2)] show ?thesis by blast
    qed simp
  next
    case (stopped u landed s1 e)
    with foreign [OF stopped(1)] upload_parts_outcome [OF stopped(2)] show ?thesis
      by (auto simp: cancelled_def)
  next
    case (incomplete u landed s1 s2 e)
    with foreign [OF incomplete(1)] upload_parts_outcome [OF incomplete(2)] show ?thesis
      by (auto simp: cancelled_def)
  next
    case (complete u landed s1 s2)
    then show ?thesis by (intro soundI) (simp add: sessions.load_clear)
  qed
qed

section \<open>Histories\<close>

text \<open>
  Attempts to upload a file to one key, in any number and order, with any signals. Between them the
  world may move on, as long as the session record of the key stays and the store keeps or drops
  whole uploads; files with other fingerprints may be uploaded to the key as well.
\<close>

inductive history ::
  "('w, 'blob) MultipartUploadDeps \<Rightarrow> ('w, 'blob) parts_view \<Rightarrow> 'blob FileLike \<Rightarrow> jsstring \<Rightarrow>
     'w upload_state \<Rightarrow> 'w upload_state \<Rightarrow> bool"
  for deps stored f key s where
  start: "history deps stored f key s s"
| attempt: "history deps stored f key s t \<Longrightarrow>
    uploadFileMultipart f key ct deps signal t = Some (r, t') \<Longrightarrow>
    history deps stored f key s t'"
| other: "history deps stored f key s t \<Longrightarrow> fileFingerprint g \<noteq> fileFingerprint f \<Longrightarrow>
    uploadFileMultipart g key ct deps signal t = Some (r, t') \<Longrightarrow>
    history deps stored f key s t'"
| elsewhere: "history deps stored f key s t \<Longrightarrow>
    loadSession key (us_storage t') = loadSession key (us_storage t) \<Longrightarrow>
    (\<And>u. stored (us_world t') key u = stored (us_world t) key u \<or>
      stored (us_world t') key u = Map.empty) \<Longrightarrow>
    history deps stored f key s t'"

lemma history_sound:
  assumes "stores_parts deps blobSize stored target"
  shows "history deps stored file key s t \<Longrightarrow> sound blobSize stored file key s \<Longrightarrow>
    sound blobSize stored file key t"
proof (induction rule: history.induct)
  case (attempt t ct signal r t')
  then show ?case using upload_keeps_sound [OF assms] by blast
next
  case (other t g ct signal r t')
  then show ?case using other_upload_keeps_sound [OF assms] by blast
next
  case (elsewhere t t')
  show ?case
  proof (rule soundI)
    fix sess
    assume "loadSession key (us_storage t') = Some sess" "ss_fingerprint sess = fileFingerprint file"
    with elsewhere.IH [OF elsewhere.prems] elsewhere.hyps(2)
    have "own_parts blobSize file (plan (fl_size file) PART_SIZE_BYTES)
        (stored (us_world t) key (ss_uploadId sess))"
      by (simp add: sound_def)
    with elsewhere.hyps(3) [of "ss_uploadId sess"]
    show "own_parts blobSize file (plan (fl_size file) PART_SIZE_BYTES)
        (stored (us_world t') key (ss_uploadId sess))"
      by auto
  qed
qed

text \<open>The object that completing an upload creates: its parts in the order of their numbers.\<close>

definition assembled :: "(int \<rightharpoonup> 'a list) \<Rightarrow> 'a list" where
  "assembled m = concat (map (the \<circ> m) (sorted_list_of_set (dom m)))"

lemma plan_numbers: "map pp_partNumber (plan n p) = map (\<lambda>i. int i + 1) [0..<part_count n p]"
  by (simp add: plan_def part_at_def comp_def)

lemma assembled_plan:
  "assembled (map_of (map (\<lambda>p. (pp_partNumber p, f p)) (plan n k))) = concat (map f (plan n k))"
proof -
  let ?ps = "plan n k"
  have sorted: "sorted_wrt (<) (map pp_partNumber ?ps)"
    unfolding plan_numbers sorted_wrt_map
    by (rule sorted_wrt_mono_rel [OF _ sorted_wrt_upt]) simp
  then have distinct: "distinct (map pp_partNumber ?ps)" by (simp add: strict_sorted_iff)
  have "sorted_list_of_set (dom (map_of (map (\<lambda>p. (pp_partNumber p, f p)) ?ps))) =
      sorted_list_of_set (set (map pp_partNumber ?ps))"
    by (simp add: dom_map_of_conv_image_fst image_image)
  also have "\<dots> = map pp_partNumber ?ps"
    using sorted by (metis sorted_list_of_set.idem_if_sorted_distinct strict_sorted_iff)
  finally have "assembled (map_of (map (\<lambda>p. (pp_partNumber p, f p)) ?ps)) =
      concat (map (\<lambda>p. the (map_of (map (\<lambda>p. (pp_partNumber p, f p)) ?ps) (pp_partNumber p))) ?ps)"
    by (simp add: assembled_def comp_def)
  also have "\<dots> = concat (map f ?ps)"
    using map_of_part [OF distinct, of _ f] by (simp cong: map_cong)
  finally show ?thesis .
qed

section \<open>Properties\<close>

text \<open>When every part has had its turn, the upload in use has the parts of the file and no others.\<close>

lemma parts_in_place:
  assumes "stores_parts deps blobSize stored target"
    and "sound blobSize stored file key s"
    and "resumeOrCreateUpload file key ct deps s = (Inr (u, landed), s1)"
    and "upload_parts file key u landed deps aborted n c (plan (fl_size file) PART_SIZE_BYTES) s1 = (Inr (), s2)"
  shows "stored (us_world s2) key u = map_of (map (\<lambda>p. (pp_partNumber p, fl_slice file (pp_start p) (pp_end p)))
      (plan (fl_size file) PART_SIZE_BYTES))"
proof -
  have "distinct (map pp_partNumber (plan (fl_size file) PART_SIZE_BYTES))"
    by (auto simp: plan_numbers distinct_map inj_on_def)
  with upload_parts_complete [OF assms(1,4)] resume_sound [OF assms(1,3,2)] show ?thesis by auto
qed

lemma upload_success_parts:
  assumes "stores_parts deps blobSize stored target"
    and "sound blobSize stored file key s"
    and "uploadFileMultipart file key ct deps signal s = Some (Inr (), s')"
  obtains u w where "completeMultipartUploadD deps key u w = (Inr (), us_world s')"
    and "stored w key u = map_of (map (\<lambda>p. (pp_partNumber p, fl_slice file (pp_start p) (pp_end p)))
      (plan (fl_size file) PART_SIZE_BYTES))"
proof -
  define aborted where "aborted = (case signal of None \<Rightarrow> NEVER_ABORTS | Some sg \<Rightarrow> sg)"
  have "upload_with_plan file key ct deps aborted (plan (fl_size file) PART_SIZE_BYTES) s = (Inr (), s')"
    using assms(3) by (simp add: uploadFileMultipart_returns aborted_def)
  then show thesis
    by (cases rule: upload_with_planE) (auto intro: that parts_in_place [OF assms(1,2)])
qed

lemma completed_bytes:
  assumes "stores_parts deps (int \<circ> length) stored target"
    and "fl_size file = int (length bytes)"
    and "fl_slice file = (\<lambda>a b. slice bytes a (Some b))"
    and "loadSession key (us_storage s0) = None"
    and "history deps stored file key s0 s"
    and "uploadFileMultipart file key ct deps signal s = Some (Inr (), s')"
  obtains u w where "completeMultipartUploadD deps key u w = (Inr (), us_world s')"
    and "assembled (stored w key u) = bytes"
proof -
  have "sound (int \<circ> length) stored file key s0" using assms(4) by (simp add: sound_def)
  then have "sound (int \<circ> length) stored file key s" by (rule history_sound [OF assms(1,5)])
  then obtain u w where c: "completeMultipartUploadD deps key u w = (Inr (), us_world s')"
    and "stored w key u = map_of (map (\<lambda>p. (pp_partNumber p, fl_slice file (pp_start p) (pp_end p)))
      (plan (fl_size file) PART_SIZE_BYTES))"
    using upload_success_parts [OF assms(1) _ assms(6)] by metis
  then have "assembled (stored w key u) = bytes"
    using plan_covers [of PART_SIZE_BYTES bytes]
    by (simp add: assembled_plan assms(2,3) PART_SIZE_BYTES_def)
  with c that show thesis by blast
qed

text \<open>
  C3. A resumable upload is exact: start with no session on record for the key, make any number of
  attempts with any failures, retries, cancellations and resumptions in between, uploading other
  files to the key too. When an attempt succeeds, the parts it completed, put together in the order
  of their numbers, are the bytes of the file.
\<close>

theorem resumable_upload_exact:
  assumes "stores_parts deps (int \<circ> length) stored target"
    and "fl_size file = int (length bytes)"
    and "fl_slice file = (\<lambda>a b. slice bytes a (Some b))"
    and "loadSession key (us_storage s0) = None"
    and "history deps stored file key s0 s"
    and "uploadFileMultipart file key ct deps signal s = Some (Inr (), s')"
  shows "\<exists>u w. completeMultipartUploadD deps key u w = (Inr (), us_world s')
    \<and> assembled (stored w key u) = bytes"
  using completed_bytes [OF assms] by blast

text \<open>
  A store with one key and one upload id, whose state is the list of the parts put so far, the newest
  first.
\<close>

type_synonym shelf = "(int \<times> string) list"

definition shelf_deps :: "(shelf, string) MultipartUploadDeps" where
  "shelf_deps =
     \<lparr>createMultipartUploadD = (\<lambda>k c w. if k = js ''k'' then (Inr (js ''u''), []) else (Inl (Error []), w)),
      getUploadPartUrlD = (\<lambda>k u n w. if k = js ''k'' \<and> u = js ''u'' then (Inr (bigint_toString n), w)
        else (Inl (Error []), w)),
      listUploadedPartsD = (\<lambda>k u w. if k = js ''k'' \<and> u = js ''u''
        then (Inr (rev (map (\<lambda>(n, b). \<lparr>upi_number = n, upi_size = int (length b)\<rparr>) w)), w)
        else (Inr [], w)),
      completeMultipartUploadD = (\<lambda>k u w. (Inr (), w)),
      abortMultipartUploadD = (\<lambda>k u w. if k = js ''k'' \<and> u = js ''u'' then (Inr (), []) else (Inr (), w)),
      putPartD = (\<lambda>url b w. case BigInt url of Inr n \<Rightarrow> (Inr (), (n, b) # w) | Inl e \<Rightarrow> (Inl e, w))\<rparr>"

definition shelf_view :: "(shelf, string) parts_view" where
  "shelf_view w k u = (if k = js ''k'' \<and> u = js ''u'' then map_of w else Map.empty)"

definition shelf_target :: "jsstring \<rightharpoonup> jsstring \<times> jsstring \<times> int" where
  "shelf_target url = (case BigInt url of Inr n \<Rightarrow> Some (js ''k'', js ''u'', n) | Inl _ \<Rightarrow> None)"

lemma shelf_stores: "stores_parts shelf_deps (int \<circ> length) shelf_view shelf_target"
proof -
  have "shelf_view [] = with_upload (shelf_view w) (js ''k'') (js ''u'') Map.empty" for w
    by (auto simp: shelf_view_def with_upload_def fun_eq_iff)
  moreover have "shelf_view ((n, b) # w) = put_part (shelf_view w) (js ''k'') (js ''u'') n b" for n b w
    by (auto simp: shelf_view_def put_part_def with_upload_def fun_eq_iff)
  moreover have "js_Map (map (\<lambda>p. (upi_number p, upi_size p))
      (rev (map (\<lambda>(n, b). \<lparr>upi_number = n, upi_size = int (length b)\<rparr>) w))) =
    map_option (int \<circ> length) \<circ> map_of w" for w :: shelf
    by (induction w) (auto simp: js_Map_def rev_map [symmetric])
  ultimately show ?thesis
    by (auto simp: stores_parts_def create_law_def url_law_def put_law_def list_law_def close_law_def
        shelf_deps_def shelf_target_def BigInt_toString shelf_view_def [of _ k u for k u] comp_def
        split: if_splits sum.splits)
qed

definition abc_file :: "string FileLike" where
  "abc_file = \<lparr>fl_name = js ''f'', fl_size = 3, fl_lastModified = 0,
     fl_slice = (\<lambda>a b. slice ''abc'' a (Some b))\<rparr>"

definition fresh_tab :: "shelf upload_state" where
  "fresh_tab = \<lparr>us_world = [], us_storage = Some \<lparr>ws_items = Map.empty, ws_fits = (\<lambda>_. True)\<rparr>,
     us_progress = []\<rparr>"

lemma plan_abc: "plan 3 PART_SIZE_BYTES = [\<lparr>pp_partNumber = 1, pp_start = 0, pp_end = 3\<rparr>]"
  by (simp add: plan_def part_count_def part_at_def PART_SIZE_BYTES_def)

lemma fresh_tab_resume:
  "\<exists>s1. resumeOrCreateUpload abc_file (js ''k'') (js ''t'') shelf_deps fresh_tab =
      (Inr (js ''u'', Map.empty), s1) \<and> us_world s1 = []"
  by (simp add: resumeOrCreateUpload_def fresh_tab_def loadSession_def createUpload_def await_def
      remote_def shelf_deps_def save_session_def saveSession_def setItem_def ret_def)

lemma fresh_tab_upload:
  "\<exists>s'. uploadFileMultipart abc_file (js ''k'') (js ''t'') shelf_deps None fresh_tab = Some (Inr (), s')
    \<and> us_world s' = [(1, ''abc'')]"
proof -
  obtain s1 where rs: "resumeOrCreateUpload abc_file (js ''k'') (js ''t'') shelf_deps fresh_tab =
      (Inr (js ''u'', Map.empty), s1)" and w: "us_world s1 = []"
    using fresh_tab_resume by blast
  have "slice ''abc'' 0 (Some 3) = ''abc''" by (simp add: slice_def)
  with rs w show ?thesis
    by (simp add: uploadFileMultipart_returns upload_with_plan_def async_simps abc_file_def plan_abc
        upload_one_def NEVER_ABORTS_def uploadPartWithRetry_def PART_RETRY_ATTEMPTS_def
        eval_nat_numeral put_once_def try_catch_def await_def remote_def shelf_deps_def
        BigInt_toString onProgress_def clear_session_def ret_def)
qed

theorem resumable_upload_exact_witness:
  "\<exists>s'. uploadFileMultipart abc_file (js ''k'') (js ''t'') shelf_deps None fresh_tab = Some (Inr (), s')
    \<and> (\<exists>u w. completeMultipartUploadD shelf_deps (js ''k'') u w = (Inr (), us_world s')
        \<and> assembled (shelf_view w (js ''k'') u) = ''abc'')"
proof -
  obtain s' where run:
    "uploadFileMultipart abc_file (js ''k'') (js ''t'') shelf_deps None fresh_tab = Some (Inr (), s')"
    using fresh_tab_upload by blast
  have "loadSession (js ''k'') (us_storage fresh_tab) = None"
    by (simp add: fresh_tab_def loadSession_def)
  from resumable_upload_exact [OF shelf_stores _ _ this history.start run, of "''abc''"] run
  show ?thesis by (auto simp: abc_file_def)
qed

text \<open>How starting an upload can fail: no upload was created, or its session could not be stored.\<close>

definition not_started ::
  "'blob FileLike \<Rightarrow> jsstring \<Rightarrow> jsstring \<Rightarrow> ('w, 'blob) MultipartUploadDeps \<Rightarrow> js_error \<Rightarrow> storage \<Rightarrow>
     'w upload_state \<Rightarrow> bool" where
  "not_started file key ct deps e st s' \<longleftrightarrow> us_storage s' = st
     \<and> (\<exists>w. createMultipartUploadD deps key ct w = (Inl e, us_world s')
          \<or> (\<exists>u. createMultipartUploadD deps key ct w = (Inr u, us_world s')
               \<and> fst (saveSession key \<lparr>ss_uploadId = u, ss_fingerprint = fileFingerprint file\<rparr> st) = Inl e))"

lemma createUpload_fails:
  assumes "createUpload file key ct deps s = (Inl e, s')"
  shows "not_started file key ct deps e (us_storage s) s'"
  using assms
proof (cases rule: createUploadE)
  case (none e')
  then show ?thesis by (auto simp: not_started_def)
next
  case (made u r1)
  then have "r1 = Inl e" by (cases r1) simp_all
  with made saveSession_fails have "us_storage s' = us_storage s" by blast
  with made \<open>r1 = Inl e\<close> show ?thesis by (force simp: not_started_def)
qed

lemma resume_fails:
  assumes "resumeOrCreateUpload file key ct deps s = (Inl e, s')"
  shows "not_started file key ct deps e (us_storage s) s'"
  using assms
proof (cases rule: resumeE)
  case (stale sess e' t)
  with createUpload_fails [OF stale(6)] show ?thesis by simp
qed (use createUpload_fails in auto)

lemma resume_progress: "resumeOrCreateUpload file key ct deps s = (r, s') \<Longrightarrow> us_progress s' = us_progress s"
  by (erule resumeE; (erule createUploadE)?; simp)

text \<open>
  C5. Every upload settles, whatever the dependencies do, and in one of these ways, having reported its
  progress from the first part to some part. It completes: every part was reported, the last call is
  \<open>completeMultipartUpload\<close>, and the session is cleared. It could not start: no upload was created, or the
  session could not be stored, and the storage is as it was. It is cancelled: the signal was aborted,
  and the store was asked to abort this very upload and did so. Or it fails, with the session of this
  upload and this file on record for a later attempt, if there is a storage: because every attempt at
  the part after those reported failed while nobody had cancelled, because aborting a cancelled
  upload failed, or because completing it failed when every part was reported.
\<close>

theorem uploadFileMultipart_outcomes:
  assumes "aborted = (case signal of None \<Rightarrow> NEVER_ABORTS | Some sg \<Rightarrow> sg)"
  shows "\<exists>r s' k. uploadFileMultipart file key ct deps signal s = Some (r, s')
    \<and> us_progress s' = us_progress s @
        map (\<lambda>i. (int i + 1, int (part_count (fl_size file) PART_SIZE_BYTES))) [0..<k]
    \<and> ((\<exists>e. resumeOrCreateUpload file key ct deps s = (Inl e, s') \<and> r = Inl e \<and> k = 0
          \<and> not_started file key ct deps e (us_storage s) s')
     \<or> (\<exists>u landed s1. resumeOrCreateUpload file key ct deps s = (Inr (u, landed), s1)
          \<and> (r = Inr () \<and> k = part_count (fl_size file) PART_SIZE_BYTES
               \<and> loadSession key (us_storage s') = None
               \<and> (\<exists>w. completeMultipartUploadD deps key u w = (Inr (), us_world s'))
           \<or> r = Inl (UploadCancelledError key) \<and> k < part_count (fl_size file) PART_SIZE_BYTES
               \<and> (\<exists>w. aborted w \<and> abortMultipartUploadD deps key u w = (Inr (), us_world s'))
           \<or> (\<exists>e. r = Inl e
               \<and> (us_storage s \<noteq> None \<longrightarrow> loadSession key (us_storage s') =
                    Some \<lparr>ss_uploadId = u, ss_fingerprint = fileFingerprint file\<rparr>)
               \<and> (k < part_count (fl_size file) PART_SIZE_BYTES \<and> \<not> aborted (us_world s')
                    \<and> (\<exists>lastErr. e = exhausted key (plan (fl_size file) PART_SIZE_BYTES ! k) (Some lastErr))
                  \<or> k < part_count (fl_size file) PART_SIZE_BYTES
                    \<and> (\<exists>w. aborted w \<and> abortMultipartUploadD deps key u w = (Inl e, us_world s'))
                  \<or> k = part_count (fl_size file) PART_SIZE_BYTES
                    \<and> (\<exists>w. completeMultipartUploadD deps key u w = (Inl e, us_world s')))))))"
proof -
  let ?parts = "plan (fl_size file) PART_SIZE_BYTES"
  obtain r s' where run: "upload_with_plan file key ct deps aborted ?parts s = (r, s')" by force
  have result: "uploadFileMultipart file key ct deps signal s = Some (r, s')"
    using run by (simp add: uploadFileMultipart_returns assms [symmetric])
  from run show ?thesis
  proof (cases rule: upload_with_planE)
    case (not_started e)
    with resume_fails [OF not_started(1)] resume_progress [OF not_started(1)] result show ?thesis
      by (intro exI [of _ r] exI [of _ s'] exI [of _ 0]) auto
  next
    case (stopped u landed s1 e)
    obtain k where k: "us_progress s' = us_progress s1 @ map (\<lambda>i. (int i + 1, int (length ?parts))) [0..<k]"
      "k < length ?parts" "part_stops key u deps aborted (?parts ! k) r (us_storage s1) s'"
      using upload_parts_stop [OF stopped(2)] stopped(3) by auto
    from k(3) have "r = Inl (UploadCancelledError key) \<and> (\<exists>w. aborted w \<and> abortMultipartUploadD deps key u w = (Inr (), us_world s'))
        \<or> us_storage s' = us_storage s1 \<and> (\<exists>e. r = Inl e \<and> (\<not> aborted (us_world s') \<and> (\<exists>le. e = exhausted key (?parts ! k) (Some le))
            \<or> (\<exists>w. aborted w \<and> abortMultipartUploadD deps key u w = (Inl e, us_world s'))))"
      by (auto simp: part_stops_def)
    with k(1,2) resume_progress [OF stopped(1)] resume_session [OF stopped(1)] stopped(1) result show ?thesis
      by (intro exI [of _ r] exI [of _ s'] exI [of _ k]) (auto simp: plan_length)
  next
    case (incomplete u landed s1 s2 e)
    with upload_parts_stop [OF incomplete(2)]
    have "us_progress s2 = us_progress s1 @ map (\<lambda>i. (int i + 1, int (length ?parts))) [0..<length ?parts]"
      and "us_storage s' = us_storage s1"
      by (auto simp: part_stops_def)
    with incomplete resume_progress [OF incomplete(1)] resume_session [OF incomplete(1)] result show ?thesis
      by (intro exI [of _ r] exI [of _ s'] exI [of _ "length ?parts"]) (auto simp: plan_length)
  next
    case (complete u landed s1 s2)
    with upload_parts_stop [OF complete(2)]
    have "us_progress s' = us_progress s1 @ map (\<lambda>i. (int i + 1, int (length ?parts))) [0..<length ?parts]"
      by (auto simp: part_stops_def)
    with complete resume_progress [OF complete(1)] result show ?thesis
      by (intro exI [of _ r] exI [of _ s'] exI [of _ "length ?parts"]) (auto simp: plan_length sessions.load_clear)
  qed
qed

theorem uploadFileMultipart_outcomes_witness:
  "\<exists>s' k. uploadFileMultipart abc_file (js ''k'') (js ''t'') shelf_deps (Some (\<lambda>_. True)) fresh_tab =
      Some (Inl (UploadCancelledError (js ''k'')), s')
    \<and> us_progress s' = us_progress fresh_tab @ map (\<lambda>i. (int i + 1, 1)) [0..<k]"
proof -
  obtain s1 where rs: "resumeOrCreateUpload abc_file (js ''k'') (js ''t'') shelf_deps fresh_tab =
      (Inr (js ''u'', Map.empty), s1)"
    using fresh_tab_resume by blast
  obtain s' where run: "uploadFileMultipart abc_file (js ''k'') (js ''t'') shelf_deps (Some (\<lambda>_. True)) fresh_tab =
      Some (Inl (UploadCancelledError (js ''k'')), s')"
    using rs
    by (simp add: uploadFileMultipart_returns upload_with_plan_def async_simps abc_file_def plan_abc
        upload_one_def cancel_def remote_def shelf_deps_def clear_session_def await_def throw_def)
  have one: "part_count (fl_size abc_file) PART_SIZE_BYTES = 1"
    by (simp add: abc_file_def part_count_def PART_SIZE_BYTES_def)
  show ?thesis
    using uploadFileMultipart_outcomes [of "\<lambda>_. True" "Some (\<lambda>_. True)" abc_file "js ''k''" "js ''t''" shelf_deps fresh_tab]
      run one
    by auto
qed

text \<open>A cancelled upload leaves no session behind, once the store has aborted it.\<close>

lemma cancelled_clears_session:
  assumes "cancel key u deps s = (Inl (UploadCancelledError key), s')"
    and "fst (abortMultipartUploadD deps key u (us_world s)) = Inr ()"
  shows "loadSession key (us_storage s') = None"
  using assms
  by (auto simp: cancel_def await_def throw_def remote_def clear_session_def sessions.load_clear split: prod.splits)

text \<open>
  C30. No part is sent more often than the retry budget allows, and none that has already landed: in an
  upload attempt each part whose planned size the store did not report is PUT at most three times, and,
  if the attempt succeeds, at least once; a part the store reported with its planned size is not PUT
  at all, and neither is anything that is no part of the plan.
\<close>

theorem upload_put_bound:
  assumes "counts_puts deps part_of puts"
    and "resumeOrCreateUpload file key ct deps s = (Inr (u, landed), s1)"
    and "uploadFileMultipart file key ct deps signal s = Some (r, s')"
  shows "(\<forall>p \<in> set (plan (fl_size file) PART_SIZE_BYTES).
      if missing landed p
      then puts (us_world s') (pp_partNumber p) \<le> puts (us_world s1) (pp_partNumber p) + 3
        \<and> (r = Inr () \<longrightarrow> puts (us_world s1) (pp_partNumber p) < puts (us_world s') (pp_partNumber p))
      else puts (us_world s') (pp_partNumber p) = puts (us_world s1) (pp_partNumber p))
    \<and> (\<forall>n. n \<notin> pp_partNumber ` set (plan (fl_size file) PART_SIZE_BYTES) \<longrightarrow>
        puts (us_world s') n = puts (us_world s1) n)"
proof -
  let ?parts = "plan (fl_size file) PART_SIZE_BYTES"
  define aborted where "aborted = (case signal of None \<Rightarrow> NEVER_ABORTS | Some sg \<Rightarrow> sg)"
  have run: "upload_with_plan file key ct deps aborted ?parts s = (r, s')"
    using assms(3) by (simp add: uploadFileMultipart_returns aborted_def)
  have close: "puts w' = puts w" if "completeMultipartUploadD deps key u w = (r2, w')" for r2 w w'
    using assms(1) that unfolding counts_puts_def by (metis snd_conv)
  have "distinct (map pp_partNumber ?parts)"
    by (auto simp: plan_numbers distinct_map inj_on_def)
  note count = upload_parts_count [OF assms(1) _ this, unfolded PART_RETRY_ATTEMPTS_def]
  have "\<exists>s2 r2. upload_parts file key u landed deps aborted (int (length ?parts)) 0 ?parts s1 = (r2, s2)
      \<and> puts (us_world s') = puts (us_world s2) \<and> (r = Inr () \<longrightarrow> r2 = Inr ())"
    using run
  proof (cases rule: upload_with_planE)
    case (incomplete u' l' t s2 e)
    with assms(2) close show ?thesis by fastforce
  next
    case (complete u' l' t s2)
    with assms(2) close show ?thesis by fastforce
  qed (use assms(2) in auto)
  then obtain s2 r2 where s2: "upload_parts file key u landed deps aborted (int (length ?parts)) 0 ?parts s1 = (r2, s2)"
    "puts (us_world s') = puts (us_world s2)" "r = Inr () \<longrightarrow> r2 = Inr ()"
    by blast
  show ?thesis using count [OF s2(1)] s2(2,3) by (auto split: if_splits)
qed

text \<open>A store that refuses every part, and counts the refusals by part, whose number is the URL.\<close>

definition refusing_deps :: "(int \<Rightarrow> nat, string) MultipartUploadDeps" where
  "refusing_deps =
     \<lparr>createMultipartUploadD = (\<lambda>k c w. (Inr (js ''u''), w)),
      getUploadPartUrlD = (\<lambda>k u n w. (Inr (bigint_toString n), w)),
      listUploadedPartsD = (\<lambda>k u w. (Inr [], w)),
      completeMultipartUploadD = (\<lambda>k u w. (Inr (), w)),
      abortMultipartUploadD = (\<lambda>k u w. (Inr (), w)),
      putPartD = (\<lambda>url b w. (Inl (Error (js ''no'')),
        case BigInt url of Inr n \<Rightarrow> w(n := w n + 1) | Inl _ \<Rightarrow> w))\<rparr>"

definition refused_tab :: "(int \<Rightarrow> nat) upload_state" where
  "refused_tab = \<lparr>us_world = (\<lambda>_. 0), us_storage = None, us_progress = []\<rparr>"

lemma refused_part:
  "uploadPartWithRetry abc_file k u part refusing_deps (\<lambda>_. False) refused_tab =
    (Inl (exhausted k part (Some (Error (js ''no'')))), refused_tab\<lparr>us_world := (\<lambda>_. 0)(pp_partNumber part := 3)\<rparr>)"
  by (simp add: uploadPartWithRetry_def PART_RETRY_ATTEMPTS_def eval_nat_numeral put_once_def
      try_catch_def await_def remote_def refusing_deps_def refused_tab_def throw_def BigInt_toString)

theorem upload_put_bound_witness:
  "\<exists>r s'. uploadFileMultipart abc_file (js ''k'') (js ''t'') refusing_deps None refused_tab = Some (r, s')
    \<and> us_world s' 1 \<le> 3 \<and> us_world s' 2 = 0"
proof -
  have "counts_puts refusing_deps (\<lambda>url. case BigInt url of Inr n \<Rightarrow> Some n | Inl _ \<Rightarrow> None) id"
    by (auto simp: counts_puts_def refusing_deps_def BigInt_toString split: sum.splits)
  moreover have "resumeOrCreateUpload abc_file (js ''k'') (js ''t'') refusing_deps refused_tab =
      (Inr (js ''u'', Map.empty), refused_tab)"
    by (simp add: resumeOrCreateUpload_def refused_tab_def loadSession_def createUpload_def await_def
        remote_def refusing_deps_def save_session_def saveSession_def ret_def)
  moreover obtain r s' where
    "uploadFileMultipart abc_file (js ''k'') (js ''t'') refusing_deps None refused_tab = Some (r, s')"
    by (simp add: uploadFileMultipart_returns) (metis surj_pair)
  ultimately show ?thesis
    using upload_put_bound [of refusing_deps "\<lambda>url. case BigInt url of Inr n \<Rightarrow> Some n | Inl _ \<Rightarrow> None" id abc_file
        "js ''k''" "js ''t''" refused_tab "js ''u''" Map.empty refused_tab None r s']
    by (auto simp: refused_tab_def abc_file_def plan_abc missing_def)
qed

text \<open>
  A part gives up in one of two ways only: the signal was aborted, and the transfer's own error is
  passed on; or every attempt failed, and the error names the part, the key, the budget and the last
  failure.
\<close>

theorem uploadPartWithRetry_errors:
  assumes "uploadPartWithRetry file key u part deps aborted s = (Inl e, s')"
  shows "aborted (us_world s') \<or> (\<exists>lastErr. e = Error (js ''part '' @ bigint_toString (pp_partNumber part)
    @ js '' of '' @ key @ js '' failed after 3 attempts: '' @ String_of_error lastErr))"
proof -
  have "js '' failed after '' @ bigint_toString (int 3) @ js '' attempts: '' =
      js '' failed after 3 attempts: ''"
    by code_simp
  then have three: "js '' failed after '' @ bigint_toString 3 @ js '' attempts: '' @ x =
      js '' failed after 3 attempts: '' @ x" for x
    by (metis append_assoc of_nat_numeral)
  from attempts_error [OF assms [unfolded uploadPartWithRetry_def]]
  show ?thesis
    by (auto simp: PART_RETRY_ATTEMPTS_def exhausted_def three)
qed

theorem uploadPartWithRetry_errors_witness:
  "\<exists>lastErr. exhausted (js ''k'') \<lparr>pp_partNumber = 1, pp_start = 0, pp_end = 3\<rparr> (Some (Error (js ''no''))) =
    Error (js ''part '' @ bigint_toString 1 @ js '' of '' @ js ''k''
      @ js '' failed after 3 attempts: '' @ String_of_error lastErr)"
  using uploadPartWithRetry_errors [OF refused_part [of "js ''k''" "js ''u''"
      "\<lparr>pp_partNumber = 1, pp_start = 0, pp_end = 3\<rparr>"]]
  by simp

end
