(* ===== verification/Server_Functions.thy ===== *)
theory Server_Functions
  imports Impl
begin

text \<open>
  The server functions of \<open>web/src/server/files.ts\<close> and the lazily created clients of
  \<open>web/src/server/clients.ts\<close>. A server function is what \<open>createServerFn\<close> is given: the HTTP
  method, the validator and the handler. How the framework runs one is not under \<open>web/src\<close>; what
  the code relies on is the predicate \<open>served\<close>: the validator sees the input first, and the handler
  runs on its result only. The contract of the validators, the locale \<open>input_validator\<close>, is
  extended by \<open>server_function\<close>, so that what holds of every server function is proved once.
\<close>

section \<open>Clients\<close>

text \<open>
  The module variables \<open>searchClient\<close> and \<open>filesClient\<close>; \<open>None\<close> is undefined. The client
  constructors of the RPC library, and the environment, are parameters.
\<close>

record ('search, 'files) client_module =
  cm_searchClient :: "'search option"
  cm_filesClient :: "'files option"

type_synonym env = "string \<rightharpoonup> jsstring"

definition grpcTransport :: "jsstring \<Rightarrow> jsstring" where
  "grpcTransport addr = js ''http://'' @ addr"

definition env_or :: "env \<Rightarrow> string \<Rightarrow> string \<Rightarrow> jsstring" where
  "env_or env name dflt = (case env name of None \<Rightarrow> js dflt | Some v \<Rightarrow> v)"

definition getSearchClientM ::
  "(jsstring \<Rightarrow> 'search) \<Rightarrow> env \<Rightarrow> ('search, 'files) client_module \<Rightarrow>
     'search \<times> ('search, 'files) client_module" where
  "getSearchClientM createClient env m =
     (case cm_searchClient m of
        Some c \<Rightarrow> (c, m)
      | None \<Rightarrow>
          let c = createClient (grpcTransport (env_or env ''SEARCH_ADDR'' ''localhost:50053''))
          in (c, m\<lparr>cm_searchClient := Some c\<rparr>))"

definition getFilesClientM ::
  "(jsstring \<Rightarrow> 'files) \<Rightarrow> env \<Rightarrow> ('search, 'files) client_module \<Rightarrow>
     'files \<times> ('search, 'files) client_module" where
  "getFilesClientM createClient env m =
     (case cm_filesClient m of
        Some c \<Rightarrow> (c, m)
      | None \<Rightarrow>
          let c = createClient (grpcTransport (env_or env ''FILES_ADDR'' ''localhost:50052''))
          in (c, m\<lparr>cm_filesClient := Some c\<rparr>))"

text \<open>
  A client is created at most once, from the environment of the first call: later calls return the
  same client and leave the module as it is, whatever the environment has become.
\<close>

lemma clients_memoised:
  assumes "getSearchClientM mkS env m = (s, m1)" and "getFilesClientM mkF env' m1 = (f, m2)"
  shows "getSearchClientM mkS' env1 m2 = (s, m2)" and "getFilesClientM mkF' env2 m2 = (f, m2)"
  using assms
  by (auto simp: getSearchClientM_def getFilesClientM_def Let_def split: option.splits)

section \<open>Server functions\<close>

record 's clients =
  getSearchClient :: "'s SearchClient"
  getFilesClient :: "'s FilesClient"

datatype http_method = GET | POST

record ('d, 'r, 's) ServerFn =
  sf_method :: http_method
  sf_validator :: "jsval \<Rightarrow> 'd outcome"
  sf_handler :: "'d \<Rightarrow> ('r, 's) async"

definition listFiles :: "timestamp_date \<Rightarrow> 's clients \<Rightarrow> (ListFilesInput, ListFilesResult, 's) ServerFn" where
  "listFiles td c =
     \<lparr>sf_method = GET, sf_validator = validateListFilesInput,
      sf_handler = listFilesImpl td (getSearchClient c) (getFilesClient c)\<rparr>"

definition searchDirectories :: "'s clients \<Rightarrow> (SearchDirectoriesInput, SearchDirectoriesResult, 's) ServerFn" where
  "searchDirectories c =
     \<lparr>sf_method = GET, sf_validator = validateSearchDirectoriesInput,
      sf_handler = searchDirectoriesImpl (getSearchClient c)\<rparr>"

definition getDownloadUrl :: "'s clients \<Rightarrow> (jsstring, jsstring, 's) ServerFn" where
  "getDownloadUrl c =
     \<lparr>sf_method = GET, sf_validator = validateIdInput,
      sf_handler = getDownloadUrlImpl (getFilesClient c)\<rparr>"

definition getOpenUrl :: "'s clients \<Rightarrow> (jsstring, jsstring, 's) ServerFn" where
  "getOpenUrl c =
     \<lparr>sf_method = GET, sf_validator = validateIdInput,
      sf_handler = getOpenUrlImpl (getFilesClient c)\<rparr>"

definition deleteFile :: "'s clients \<Rightarrow> (jsstring, unit, 's) ServerFn" where
  "deleteFile c =
     \<lparr>sf_method = POST, sf_validator = validateIdInput,
      sf_handler = deleteFileImpl (getFilesClient c)\<rparr>"

definition moveFile :: "'s clients \<Rightarrow> (MoveFileInput, unit, 's) ServerFn" where
  "moveFile c =
     \<lparr>sf_method = POST, sf_validator = validateMoveFileInput,
      sf_handler = \<lambda>data. moveFileImpl (getFilesClient c) (mfi_id data) (mfi_destinationKey data)\<rparr>"

definition getFileMetadata :: "timestamp_date \<Rightarrow> 's clients \<Rightarrow> (jsstring, FileMetadataDto, 's) ServerFn" where
  "getFileMetadata td c =
     \<lparr>sf_method = GET, sf_validator = validateIdInput,
      sf_handler = getFileMetadataImpl td (getFilesClient c)\<rparr>"

definition getUploadUrl :: "'s clients \<Rightarrow> (jsstring, jsstring, 's) ServerFn" where
  "getUploadUrl c =
     \<lparr>sf_method = GET, sf_validator = validateKeyInput,
      sf_handler = getUploadUrlImpl (getFilesClient c)\<rparr>"

definition commitUpload :: "timestamp_date \<Rightarrow> 's clients \<Rightarrow> (jsstring, FileDto, 's) ServerFn" where
  "commitUpload td c =
     \<lparr>sf_method = POST, sf_validator = validateKeyInput,
      sf_handler = commitUploadImpl td (getFilesClient c)\<rparr>"

definition createMultipartUpload :: "'s clients \<Rightarrow> (CreateMultipartUploadInput, jsstring, 's) ServerFn" where
  "createMultipartUpload c =
     \<lparr>sf_method = POST, sf_validator = validateCreateMultipartUploadInput,
      sf_handler = \<lambda>data. createMultipartUploadImpl (getFilesClient c) (cmi_key data) (cmi_contentType data)\<rparr>"

definition getUploadPartUrl :: "'s clients \<Rightarrow> (UploadPartUrlInput, jsstring, 's) ServerFn" where
  "getUploadPartUrl c =
     \<lparr>sf_method = GET, sf_validator = validateUploadPartUrlInput,
      sf_handler = \<lambda>data. getUploadPartUrlImpl (getFilesClient c) (upi_key data) (upi_uploadId data)
        (upi_partNumber data)\<rparr>"

definition listUploadedParts :: "'s clients \<Rightarrow> (UploadIdInput, UploadedPartDto list, 's) ServerFn" where
  "listUploadedParts c =
     \<lparr>sf_method = GET, sf_validator = validateUploadIdInput,
      sf_handler = \<lambda>data. listUploadedPartsImpl (getFilesClient c) (uii_key data) (uii_uploadId data)\<rparr>"

definition completeMultipartUpload :: "timestamp_date \<Rightarrow> 's clients \<Rightarrow> (UploadIdInput, FileDto, 's) ServerFn" where
  "completeMultipartUpload td c =
     \<lparr>sf_method = POST, sf_validator = validateUploadIdInput,
      sf_handler = \<lambda>data. completeMultipartUploadImpl td (getFilesClient c) (uii_key data) (uii_uploadId data)\<rparr>"

definition abortMultipartUpload :: "'s clients \<Rightarrow> (UploadIdInput, unit, 's) ServerFn" where
  "abortMultipartUpload c =
     \<lparr>sf_method = POST, sf_validator = validateUploadIdInput,
      sf_handler = \<lambda>data. abortMultipartUploadImpl (getFilesClient c) (uii_key data) (uii_uploadId data)\<rparr>"

definition listDirectory :: "timestamp_date \<Rightarrow> 's clients \<Rightarrow> (ListDirectoryInput, ListDirectoryResult, 's) ServerFn" where
  "listDirectory td c =
     \<lparr>sf_method = GET, sf_validator = validateListDirectoryInput,
      sf_handler = listDirectoryImpl td (getSearchClient c) (getFilesClient c)\<rparr>"

definition getDirectoryStats :: "'s clients \<Rightarrow> (jsstring, DirectoryStatsDto, 's) ServerFn" where
  "getDirectoryStats c =
     \<lparr>sf_method = GET, sf_validator = validatePathInput,
      sf_handler = getDirectoryStatsImpl (getFilesClient c)\<rparr>"

definition deleteDirectory :: "'s clients \<Rightarrow> (jsstring, int, 's) ServerFn" where
  "deleteDirectory c =
     \<lparr>sf_method = POST, sf_validator = validatePathInput,
      sf_handler = deleteDirectoryImpl (getFilesClient c)\<rparr>"

definition getFilePreviewStatuses :: "'s clients \<Rightarrow> (jsstring list, FilePreviewStatusDto list, 's) ServerFn" where
  "getFilePreviewStatuses c =
     \<lparr>sf_method = GET, sf_validator = validateIdsInput,
      sf_handler = getFilePreviewStatusesImpl (getFilesClient c)\<rparr>"

text \<open>\<open>listContentTypes\<close> has no validator: its handler ignores the input.\<close>

definition listContentTypes :: "'s clients \<Rightarrow> (unit, jsstring list, 's) ServerFn" where
  "listContentTypes c =
     \<lparr>sf_method = GET, sf_validator = (\<lambda>_. Inr ()),
      sf_handler = (\<lambda>_. listContentTypesImpl (getSearchClient c))\<rparr>"

section \<open>Serving\<close>

text \<open>
  What the framework documents of a call: an input the validator rejects is answered by the
  error, as \<open>wire\<close> transports it, without running the handler; otherwise the handler's outcome on
  the validated data is the answer.
\<close>

definition wired :: "(js_error \<Rightarrow> js_error) \<Rightarrow> 'r outcome \<times> 's \<Rightarrow> 'r outcome \<times> 's" where
  "wired wire = map_prod (map_sum wire id) id"

lemma wired_Inr: "wired wire x = (Inr a, s') \<longleftrightarrow> x = (Inr a, s')"
  by (cases x; cases "fst x") (auto simp: wired_def)

definition served ::
  "(js_error \<Rightarrow> js_error) \<Rightarrow> ('d, 'r, 's) ServerFn \<Rightarrow> (jsval \<Rightarrow> ('r, 's) async) \<Rightarrow> bool" where
  "served wire fn call \<longleftrightarrow>
     (\<forall>input s. call input s =
        (case sf_validator fn input of
           Inl e \<Rightarrow> (Inl (wire e), s)
         | Inr d \<Rightarrow> wired wire (sf_handler fn d s)))"

text \<open>A server in the same process, which transports errors unchanged.\<close>

definition local_call :: "('d, 'r, 's) ServerFn \<Rightarrow> jsval \<Rightarrow> ('r, 's) async" where
  "local_call fn input = await (lift (sf_validator fn input)) (sf_handler fn)"

lemma local_call_served: "served id fn (local_call fn)"
  by (auto simp: served_def local_call_def wired_def await_def lift_def map_sum.id prod.map_id0
      split: sum.splits prod.splits)

locale server_function = input_validator "sf_validator fn" wf send
  for fn :: "('d, 'r, 's) ServerFn" and wf :: "'d \<Rightarrow> bool" and send :: "'d \<Rightarrow> jsval"
begin

text \<open>Well-formed data reaches the handler as it was sent.\<close>

lemma sent_served:
  "served wire fn call \<Longrightarrow> wf d \<Longrightarrow> call (send d) s = wired wire (sf_handler fn d s)"
  by (simp add: served_def sent_accepted)

text \<open>A call that changed the state ran the handler on well-formed data.\<close>

lemma effect_validated:
  assumes "served wire fn call" and "call input s = (r, s')" and "s' \<noteq> s"
  obtains d r' where "wf d" and "sf_validator fn input = Inr d" and "sf_handler fn d s = (r', s')"
    and "r = map_sum wire id r'"
proof (cases "sf_validator fn input")
  case (Inl e)
  with assms show ?thesis by (simp add: served_def)
next
  case (Inr d)
  with assms(1,2) have "wired wire (sf_handler fn d s) = (r, s')"
    by (simp add: served_def)
  then obtain r' where "sf_handler fn d s = (r', s')" and "r = map_sum wire id r'"
    by (cases "sf_handler fn d s") (simp add: wired_def)
  with Inr accepted_wf [OF Inr] that show ?thesis by blast
qed

text \<open>A call on data that is not well formed cannot succeed nor have an effect.\<close>

lemma ill_formed_rejected:
  assumes "served wire fn call" and "\<And>d. sf_validator fn input = Inr d \<Longrightarrow> \<not> wf d"
  shows "\<exists>e. call input s = (Inl (wire e), s)"
  using assms accepted_wf
  by (cases "sf_validator fn input") (auto simp: served_def)

end

text \<open>
  Where the fields of an input are required, the data that arrives is the data that was sent, or the
  call is refused and changes nothing.
\<close>

locale exact_server_function = server_function +
  assumes sent_same: "sf_validator fn (send d) = Inr d' \<Longrightarrow> d' = d"
begin

lemma sent_cases:
  assumes "served wire fn call"
  obtains (refused) e where "call (send d) s = (Inl (wire e), s)"
    | (handled) "call (send d) s = wired wire (sf_handler fn d s)"
proof (cases "sf_validator fn (send d)")
  case (Inl e)
  with assms show ?thesis by (intro refused) (simp add: served_def)
next
  case (Inr d')
  with assms sent_same [OF Inr] show ?thesis by (intro handled) (simp add: served_def)
qed

lemma sent_effect:
  assumes "served wire fn call"
  shows "snd (call (send d) s) \<in> {s, snd (sf_handler fn d s)}"
  by (rule sent_cases [OF assms, of d s]) (simp_all add: wired_def)

lemma sent_run:
  assumes "served wire fn call" and "call (send d) s = (r, s')"
  obtains (refused) e where "r = Inl e" and "s' = s"
    | (thrown) e e' where "r = Inl e" and "sf_handler fn d s = (Inl e', s')"
    | (answered) a where "r = Inr a" and "sf_handler fn d s = (Inr a, s')"
proof (cases rule: sent_cases [OF assms(1), of d s, case_names no yes])
  case (no e)
  with assms(2) show thesis by (intro refused [of "wire e"]) simp_all
next
  case yes
  obtain r0 where h: "sf_handler fn d s = (r0, s')" and r: "r = map_sum wire id r0"
    using yes assms(2) by (cases "sf_handler fn d s") (simp add: wired_def)
  show thesis
  proof (cases r0)
    case (Inl e)
    with h r show thesis by (intro thrown [of "wire e" e]) simp_all
  next
    case (Inr a)
    with h r show thesis by (intro answered) simp_all
  qed
qed

end

interpretation list_files_fn: server_function "listFiles td c" "\<lambda>d. wf_pageSize (lfi_pageSize d)" send_ListFilesInput for td c
  by (simp add: server_function_def listFiles_def list_files.input_validator_axioms)

interpretation search_directories_fn: server_function "searchDirectories c" "\<lambda>d. wf_pageSize (sdi_pageSize d)" send_SearchDirectoriesInput for c
  by (simp add: server_function_def searchDirectories_def search_directories.input_validator_axioms)

interpretation list_directory_fn: server_function "listDirectory td c" "\<lambda>d. wf_pageSize (ldi_pageSize d)" send_ListDirectoryInput for td c
  by (simp add: server_function_def listDirectory_def list_directory.input_validator_axioms)

interpretation download_fn: server_function "getDownloadUrl c" is_numeric send_id for c
  by (simp add: server_function_def getDownloadUrl_def id_input.input_validator_axioms)

interpretation open_fn: server_function "getOpenUrl c" is_numeric send_id for c
  by (simp add: server_function_def getOpenUrl_def id_input.input_validator_axioms)

interpretation delete_file_fn: server_function "deleteFile c" is_numeric send_id for c
  by (simp add: server_function_def deleteFile_def id_input.input_validator_axioms)

interpretation move_fn: server_function "moveFile c" wf_MoveFileInput send_MoveFileInput for c
  by (simp add: server_function_def moveFile_def move_input.input_validator_axioms)

interpretation metadata_fn: server_function "getFileMetadata td c" is_numeric send_id for td c
  by (simp add: server_function_def getFileMetadata_def id_input.input_validator_axioms)

interpretation upload_url_fn: server_function "getUploadUrl c" "\<lambda>k. k \<noteq> []" send_key for c
  by (simp add: server_function_def getUploadUrl_def key_input.input_validator_axioms)

interpretation commit_fn: server_function "commitUpload td c" "\<lambda>k. k \<noteq> []" send_key for td c
  by (simp add: server_function_def commitUpload_def key_input.input_validator_axioms)

interpretation create_fn: server_function "createMultipartUpload c" wf_CreateMultipartUploadInput send_CreateMultipartUploadInput for c
  by (simp add: server_function_def createMultipartUpload_def create_input.input_validator_axioms)

interpretation part_url_fn: server_function "getUploadPartUrl c" wf_UploadPartUrlInput send_UploadPartUrlInput for c
  by (simp add: server_function_def getUploadPartUrl_def part_input.input_validator_axioms)

interpretation parts_fn: server_function "listUploadedParts c" wf_UploadIdInput send_UploadIdInput for c
  by (simp add: server_function_def listUploadedParts_def upload_input.input_validator_axioms)

interpretation complete_fn: server_function "completeMultipartUpload td c" wf_UploadIdInput send_UploadIdInput for td c
  by (simp add: server_function_def completeMultipartUpload_def upload_input.input_validator_axioms)

interpretation abort_fn: server_function "abortMultipartUpload c" wf_UploadIdInput send_UploadIdInput for c
  by (simp add: server_function_def abortMultipartUpload_def upload_input.input_validator_axioms)

interpretation stats_fn: server_function "getDirectoryStats c" "\<lambda>p. p \<noteq> []" send_path for c
  by (simp add: server_function_def getDirectoryStats_def path_input.input_validator_axioms)

interpretation delete_directory_fn: server_function "deleteDirectory c" "\<lambda>p. p \<noteq> []" send_path for c
  by (simp add: server_function_def deleteDirectory_def path_input.input_validator_axioms)

interpretation statuses_fn: server_function "getFilePreviewStatuses c" "\<lambda>_. True" send_ids for c
  by (simp add: server_function_def getFilePreviewStatuses_def ids_input.input_validator_axioms)

lemmas sent_validation = check_id_def check_nonempty_string_def Let_def and_then_Inr_iff js_Map_Cons map_add_def

interpretation delete_file_exact: exact_server_function "deleteFile c" is_numeric send_id for c
  by unfold_locales (auto simp: deleteFile_def validateIdInput_def send_id_def sent_validation split: if_splits)

interpretation metadata_exact: exact_server_function "getFileMetadata td c" is_numeric send_id for td c
  by unfold_locales (auto simp: getFileMetadata_def validateIdInput_def send_id_def sent_validation split: if_splits)

interpretation move_exact: exact_server_function "moveFile c" wf_MoveFileInput send_MoveFileInput for c
  by unfold_locales
    (auto simp: moveFile_def validateMoveFileInput_def send_MoveFileInput_def sent_validation split: if_splits)

interpretation delete_directory_exact: exact_server_function "deleteDirectory c" "\<lambda>p. p \<noteq> []" send_path for c
  by unfold_locales (auto simp: deleteDirectory_def validatePathInput_def send_path_def sent_validation split: if_splits)

interpretation url_exact: exact_server_function "getUploadUrl c" "\<lambda>k. k \<noteq> []" send_key for c
  by unfold_locales (auto simp: getUploadUrl_def validateKeyInput_def send_key_def sent_validation split: if_splits)

interpretation commit_exact: exact_server_function "commitUpload td c" "\<lambda>k. k \<noteq> []" send_key for td c
  by unfold_locales (auto simp: commitUpload_def validateKeyInput_def send_key_def sent_validation split: if_splits)

interpretation create_exact: exact_server_function "createMultipartUpload c" wf_CreateMultipartUploadInput
    send_CreateMultipartUploadInput for c
  by unfold_locales
    (auto simp: createMultipartUpload_def validateCreateMultipartUploadInput_def
      send_CreateMultipartUploadInput_def sent_validation split: if_splits)

interpretation part_url_exact: exact_server_function "getUploadPartUrl c" wf_UploadPartUrlInput
    send_UploadPartUrlInput for c
  by unfold_locales
    (auto simp: getUploadPartUrl_def validateUploadPartUrlInput_def send_UploadPartUrlInput_def
      check_partNumber_def num_def sent_validation split: if_splits)

interpretation parts_exact: exact_server_function "listUploadedParts c" wf_UploadIdInput send_UploadIdInput for c
  by unfold_locales
    (auto simp: listUploadedParts_def validateUploadIdInput_def send_UploadIdInput_def sent_validation split: if_splits)

interpretation complete_exact: exact_server_function "completeMultipartUpload td c" wf_UploadIdInput
    send_UploadIdInput for td c
  by unfold_locales
    (auto simp: completeMultipartUpload_def validateUploadIdInput_def send_UploadIdInput_def sent_validation
      split: if_splits)

interpretation abort_exact: exact_server_function "abortMultipartUpload c" wf_UploadIdInput send_UploadIdInput for c
  by unfold_locales
    (auto simp: abortMultipartUpload_def validateUploadIdInput_def send_UploadIdInput_def sent_validation
      split: if_splits)

interpretation statuses_exact: exact_server_function "getFilePreviewStatuses c" "\<lambda>_. True" send_ids for c
  by unfold_locales (simp add: statuses_fn.sent_accepted)

section \<open>Properties of the server functions\<close>

lemma deleteDirectoryImpl_effect:
  "snd (deleteDirectoryImpl client path s) = snd (fc_deleteDirectory client \<lparr>dd_req_path = path\<rparr> s)"
  by (auto simp: deleteDirectoryImpl_def await_def ret_def split: prod.splits sum.splits)

text \<open>
  C4. A recursive delete always names its directory: if a call of the server function
  \<open>deleteDirectory\<close>, on any input whatever, changes anything, then the input carried a non-empty
  path and the change is the one the files service made when asked to delete that path. The
  bucket root, whose path is empty, cannot be deleted.
\<close>

theorem deleteDirectory_names_directory:
  assumes "served wire (deleteDirectory c) call" and "call input s = (r, s')" and "s' \<noteq> s"
  shows "\<exists>p. p \<noteq> [] \<and> get_prop (or_empty input) ''path'' = Str p
    \<and> s' = snd (fc_deleteDirectory (getFilesClient c) \<lparr>dd_req_path = p\<rparr> s)"
proof -
  obtain p r' where "p \<noteq> []" and "validatePathInput input = Inr p"
    and "deleteDirectoryImpl (getFilesClient c) p s = (r', s')"
    by (rule delete_directory_fn.effect_validated [OF assms]) (simp add: deleteDirectory_def)
  then show ?thesis
    using deleteDirectoryImpl_effect [of "getFilesClient c" p s]
    by (auto simp: validatePathInput_def check_nonempty_string_def split: jsval.splits if_splits)
qed

text \<open>A service whose state is the log of the paths it deleted.\<close>

definition logging_clients :: "jsstring list clients" where
  "logging_clients =
     \<lparr>getSearchClient = down_search_client,
      getFilesClient = down_files_client
        \<lparr>fc_deleteDirectory := (\<lambda>req s. (Inr \<lparr>dd_res_deletedCount = 3\<rparr>, dd_req_path req # s)),
         fc_moveFile := (\<lambda>req s. (Inr \<lparr>mf_res_file = None\<rparr>, mf_req_destinationKey req # s))\<rparr>\<rparr>"

theorem deleteDirectory_names_directory_witness:
  "\<exists>p. p \<noteq> [] \<and> get_prop (or_empty (send_path (js ''docs/''))) ''path'' = Str p
    \<and> [js ''docs/''] =
        snd (fc_deleteDirectory (getFilesClient logging_clients) \<lparr>dd_req_path = p\<rparr> [])"
  by (rule deleteDirectory_names_directory [OF local_call_served,
        where r = "Inr 3"])
    (simp_all add: local_call_def path_input.sent_accepted deleteDirectory_def
      deleteDirectoryImpl_def logging_clients_def async_simps Number_def)

text \<open>
  \<open>moveFile\<close> is exact: for a numeric id and a non-empty destination, what the client sends is
  accepted and the files service receives the number the id denotes and the destination unchanged;
  the call succeeds exactly if the service does.
\<close>

theorem moveFile_exact:
  assumes "served wire (moveFile c) call" and "wf_MoveFileInput d"
  shows "\<exists>n. BigInt (mfi_id d) = Inr n
    \<and> call (send_MoveFileInput d) s = wired wire (map_prod (map_sum id (\<lambda>_. ())) id
        (fc_moveFile (getFilesClient c)
          \<lparr>mf_req_id = n, mf_req_destinationKey = mfi_destinationKey d\<rparr> s))"
proof -
  obtain n where n: "BigInt (mfi_id d) = Inr n"
    using assms(2) BigInt_numeric by (auto simp: wf_MoveFileInput_def)
  have "call (send_MoveFileInput d) s = wired wire
      (moveFileImpl (getFilesClient c) (mfi_id d) (mfi_destinationKey d) s)"
    using move_fn.sent_served [OF assms] by (simp add: moveFile_def)
  then show ?thesis
    using n by (simp add: moveFileImpl_def await_def ret_def split: prod.splits sum.splits)
qed


theorem moveFile_exact_witness:
  "\<exists>n. BigInt (js ''42'') = Inr n
    \<and> local_call (moveFile logging_clients)
        (send_MoveFileInput \<lparr>mfi_id = js ''42'', mfi_destinationKey = js ''a''\<rparr>) [] =
      wired id (map_prod (map_sum id (\<lambda>_. ())) id
        (fc_moveFile (getFilesClient logging_clients)
          \<lparr>mf_req_id = n, mf_req_destinationKey = js ''a''\<rparr> []))"
  using moveFile_exact [OF local_call_served [of "moveFile logging_clients"],
      of "\<lparr>mfi_id = js ''42'', mfi_destinationKey = js ''a''\<rparr>" "[]"]
  by (simp add: wf_MoveFileInput_def is_numeric_def is_digit_def js_def)

end
