(* ===== verification/Upload_Wiring.thy ===== *)
theory Upload_Wiring
  imports Browser Multipart_Store Server_Functions
begin

text \<open>
  The upload of a large file from the browse page to the object store: \<open>multipartDeps\<close> of
  \<open>Browser.tsx\<close> over the server functions of \<open>files.ts\<close>, their handlers of \<open>impl.ts\<close> and the client of
  the files service. \<open>store_service\<close> states what the service and the store behind it document;
  \<open>wired_stores_parts\<close> shows that all the layers in between pass this on, so that the
  driver's contract \<open>stores_parts\<close> holds of the program's own wiring.
\<close>

section \<open>The layers\<close>

text \<open>The calls of the browse page, made through the framework's transport of server functions.\<close>

record 'w upload_transport =
  ut_create :: "jsval \<Rightarrow> (jsstring, 'w) async"
  ut_part_url :: "jsval \<Rightarrow> (jsstring, 'w) async"
  ut_parts :: "jsval \<Rightarrow> (UploadedPartDto list, 'w) async"
  ut_complete :: "jsval \<Rightarrow> (FileDto, 'w) async"
  ut_abort :: "jsval \<Rightarrow> (unit, 'w) async"
  ut_url :: "jsval \<Rightarrow> (jsstring, 'w) async"
  ut_commit :: "jsval \<Rightarrow> (FileDto, 'w) async"

definition calls_by :: "'w upload_transport \<Rightarrow> 'w upload_calls" where
  "calls_by t =
     \<lparr>uc_createMultipartUpload = ut_create t \<circ> send_CreateMultipartUploadInput,
      uc_getUploadPartUrl = ut_part_url t \<circ> send_UploadPartUrlInput,
      uc_listUploadedParts = ut_parts t \<circ> send_UploadIdInput,
      uc_completeMultipartUpload = ut_complete t \<circ> send_UploadIdInput,
      uc_abortMultipartUpload = ut_abort t \<circ> send_UploadIdInput,
      uc_getUploadUrl = ut_url t \<circ> send_key,
      uc_commitUpload = ut_commit t \<circ> send_key\<rparr>"

definition uploads_served ::
  "(js_error \<Rightarrow> js_error) \<Rightarrow> timestamp_date \<Rightarrow> 'w clients \<Rightarrow> 'w upload_transport \<Rightarrow> bool" where
  "uploads_served wire td c t \<longleftrightarrow>
     served wire (createMultipartUpload c) (ut_create t) \<and> served wire (getUploadPartUrl c) (ut_part_url t)
     \<and> served wire (listUploadedParts c) (ut_parts t) \<and> served wire (completeMultipartUpload td c) (ut_complete t)
     \<and> served wire (abortMultipartUpload c) (ut_abort t) \<and> served wire (getUploadUrl c) (ut_url t)
     \<and> served wire (commitUpload td c) (ut_commit t)"

section \<open>What the service documents\<close>

definition may_empty ::
  "('w, 'blob) parts_view \<Rightarrow> 'w \<Rightarrow> jsstring \<Rightarrow> jsstring \<Rightarrow> 'w \<Rightarrow> bool" where
  "may_empty stored w k u w' \<longleftrightarrow> stored w' = stored w \<or> stored w' = with_upload (stored w) k u Map.empty"

text \<open>
  A part is listed with its size, which is far below the numbers a double holds exactly. Completing
  an upload may remove its parts whether or not the answer arrives, and so may aborting it.
\<close>

definition files_service ::
  "'w FilesClient \<Rightarrow> ('blob \<Rightarrow> int) \<Rightarrow> ('w, 'blob) parts_view \<Rightarrow>
     (jsstring \<rightharpoonup> jsstring \<times> jsstring \<times> int) \<Rightarrow> bool" where
  "files_service client blobSize stored target \<longleftrightarrow>
     (\<forall>q w e w'. fc_createMultipartUpload client q w = (Inl e, w') \<longrightarrow> stored w' = stored w)
   \<and> (\<forall>q w a w'. fc_createMultipartUpload client q w = (Inr a, w') \<longrightarrow>
        stored w' = with_upload (stored w) (cmu_req_key q) (cmu_res_uploadId a) Map.empty)
   \<and> (\<forall>q w r w'. fc_getUploadPartURL client q w = (r, w') \<longrightarrow> stored w' = stored w
        \<and> (\<forall>a. r = Inr a \<longrightarrow>
             target (gupu_res_url a) = Some (gupu_req_key q, gupu_req_uploadId q, gupu_req_partNumber q)))
   \<and> (\<forall>q w r w'. fc_listUploadedParts client q w = (r, w') \<longrightarrow> stored w' = stored w
        \<and> (\<forall>a. r = Inr a \<longrightarrow> list_all (\<lambda>p. \<bar>up_size p\<bar> \<le> 2 ^ 53) (lup_res_parts a)
             \<and> js_Map (map (\<lambda>p. (up_partNumber p, up_size p)) (lup_res_parts a)) =
                 map_option blobSize \<circ> stored w (lup_req_key q) (lup_req_uploadId q)))
   \<and> (\<forall>q w. may_empty stored w (cpl_req_key q) (cpl_req_uploadId q) (snd (fc_completeMultipartUpload client q w)))
   \<and> (\<forall>q w. may_empty stored w (abt_req_key q) (abt_req_uploadId q) (snd (fc_abortMultipartUpload client q w)))"

text \<open>
  A PUT to a part's URL stores its body if the response is in the 200s; if not, or if there is no
  response, it may have stored it or not.
\<close>

definition part_endpoint ::
  "('blob, 'w) fetch \<Rightarrow> ('w, 'blob) parts_view \<Rightarrow> (jsstring \<rightharpoonup> jsstring \<times> jsstring \<times> int) \<Rightarrow> bool" where
  "part_endpoint fetch stored target \<longleftrightarrow>
     (\<forall>q w r w' k u n. fetch q w = (r, w') \<longrightarrow> target (pr_url q) = Some (k, u, n) \<longrightarrow>
        stored w' = put_part (stored w) k u n (pr_body q)
        \<or> stored w' = stored w \<and> (\<forall>status. r = Inr status \<longrightarrow> \<not> res_ok status))"

text \<open>
  The objects of the store, by key. Completing a multipart upload makes its parts, in order, the object
  of its key. An upload URL is for the object of its key, and a PUT to it that is answered in the 200s
  makes the body that object. Committing an upload reads the object.
\<close>

definition object_store ::
  "'w FilesClient \<Rightarrow> ('a list, 'w) fetch \<Rightarrow> ('w, 'a list) parts_view \<Rightarrow>
     ('w \<Rightarrow> jsstring \<rightharpoonup> 'a list) \<Rightarrow> (jsstring \<rightharpoonup> jsstring) \<Rightarrow> bool" where
  "object_store client fetch stored objects object_of \<longleftrightarrow>
     (\<forall>q w a w'. fc_completeMultipartUpload client q w = (Inr a, w') \<longrightarrow>
        objects w' (cpl_req_key q) = Some (assembled (stored w (cpl_req_key q) (cpl_req_uploadId q))))
   \<and> (\<forall>q w a w'. fc_getUploadURL client q w = (Inr a, w') \<longrightarrow> object_of (guu_res_url a) = Some (guu_req_key q))
   \<and> (\<forall>q w status w' k. fetch q w = (Inr status, w') \<longrightarrow> res_ok status \<longrightarrow> object_of (pr_url q) = Some k \<longrightarrow>
        objects w' k = Some (pr_body q))
   \<and> (\<forall>q w a w'. fc_commitUpload client q w = (Inr a, w') \<longrightarrow> objects w' (cu_req_key q) = objects w (cu_req_key q))"

section \<open>The layers pass it on\<close>

text \<open>
  One law of \<open>stores_parts\<close> after the other, from what the client's call does: a refused input changes
  nothing, and the handlers forward the fields of the input.
\<close>

lemma create_wired:
  assumes "uploads_served wire td c t" and "files_service (getFilesClient c) blobSize stored target"
  shows "create_law (multipartDeps (calls_by t) fetch) stored"
proof -
  have srv: "served wire (createMultipartUpload c) (ut_create t)" using assms(1) by (simp add: uploads_served_def)
  have "case r of Inl e \<Rightarrow> stored w' = stored w | Inr u \<Rightarrow> stored w' = with_upload (stored w) k u Map.empty"
    if run: "ut_create t (send_CreateMultipartUploadInput \<lparr>cmi_key = k, cmi_contentType = ct\<rparr>) w = (r, w')"
    for k ct w r w'
    using assms(2)
    by (cases rule: create_exact.sent_run [OF srv run])
      (fastforce simp: files_service_def createMultipartUpload_def createMultipartUploadImpl_def await_def ret_def
        split: prod.splits sum.splits)+
  then show ?thesis by (fastforce simp: create_law_def multipartDeps_def calls_by_def)
qed

lemma part_url_wired:
  assumes "uploads_served wire td c t" and "files_service (getFilesClient c) blobSize stored target"
  shows "url_law (multipartDeps (calls_by t) fetch) stored target"
proof -
  have srv: "served wire (getUploadPartUrl c) (ut_part_url t)" using assms(1) by (simp add: uploads_served_def)
  have "stored w' = stored w \<and> (\<forall>url. r = Inr url \<longrightarrow> target url = Some (k, u, n))"
    if run: "ut_part_url t (send_UploadPartUrlInput \<lparr>upi_key = k, upi_uploadId = u, upi_partNumber = n\<rparr>) w = (r, w')"
    for k u n w r w'
    using assms(2)
    by (cases rule: part_url_exact.sent_run [OF srv run])
      (fastforce simp: files_service_def getUploadPartUrl_def getUploadPartUrlImpl_def await_def ret_def
        split: prod.splits sum.splits)+
  then show ?thesis by (simp add: url_law_def multipartDeps_def calls_by_def)
qed

lemma part_put_wired:
  assumes "part_endpoint fetch stored target"
  shows "put_law (multipartDeps calls fetch) stored target"
  using assms
  by (fastforce simp: put_law_def part_endpoint_def multipartDeps_def put_part_by_fetch_def await_def ret_def
      throw_def split: prod.splits sum.splits if_splits)

lemma sizes_exact:
  assumes "list_all (\<lambda>p. \<bar>up_size p\<bar> \<le> 2 ^ 53) ps"
  shows "map (\<lambda>p. (up_partNumber p, Number (up_size p))) ps = map (\<lambda>p. (up_partNumber p, up_size p)) ps"
  using assms by (induction ps) (simp_all add: Number_exact)

lemma parts_wired:
  assumes "uploads_served wire td c t" and "files_service (getFilesClient c) blobSize stored target"
  shows "list_law (multipartDeps (calls_by t) fetch) blobSize stored"
proof -
  have srv: "served wire (listUploadedParts c) (ut_parts t)" using assms(1) by (simp add: uploads_served_def)
  have "stored w' = stored w \<and> (\<forall>ps. r = Inr ps \<longrightarrow>
      js_Map (map (\<lambda>p. (upd_partNumber p, upd_size p)) ps) = map_option blobSize \<circ> stored w k u)"
    if run: "ut_parts t (send_UploadIdInput \<lparr>uii_key = k, uii_uploadId = u\<rparr>) w = (r, w')"
    for k u w r w'
    using assms(2)
    by (cases rule: parts_exact.sent_run [OF srv run])
      (fastforce simp: files_service_def listUploadedParts_def listUploadedPartsImpl_def await_def ret_def comp_def
        sizes_exact split: prod.splits sum.splits)+
  then show ?thesis
    by (fastforce simp: list_law_def multipartDeps_def calls_by_def await_def ret_def comp_def
        split: prod.splits sum.splits)
qed

lemma await_ret_world: "snd (await m (\<lambda>x. ret (f x)) w) = snd (m w)"
  by (simp add: await_def ret_def split: prod.splits sum.splits)

text \<open>What a call of the page does to the world is nothing, or what the client's call does.\<close>

lemma wired_worlds:
  assumes "uploads_served wire td c t"
  shows "snd (ut_create t (send_CreateMultipartUploadInput \<lparr>cmi_key = k, cmi_contentType = ct\<rparr>) w) \<in>
      {w, snd (fc_createMultipartUpload (getFilesClient c) \<lparr>cmu_req_key = k, cmu_req_contentType = ct\<rparr> w)}"
    and "snd (ut_part_url t (send_UploadPartUrlInput \<lparr>upi_key = k, upi_uploadId = u, upi_partNumber = n\<rparr>) w) \<in>
      {w, snd (fc_getUploadPartURL (getFilesClient c)
        \<lparr>gupu_req_key = k, gupu_req_uploadId = u, gupu_req_partNumber = n\<rparr> w)}"
    and "snd (ut_parts t (send_UploadIdInput \<lparr>uii_key = k, uii_uploadId = u\<rparr>) w) \<in>
      {w, snd (fc_listUploadedParts (getFilesClient c) \<lparr>lup_req_key = k, lup_req_uploadId = u\<rparr> w)}"
    and "snd (ut_complete t (send_UploadIdInput \<lparr>uii_key = k, uii_uploadId = u\<rparr>) w) \<in>
      {w, snd (fc_completeMultipartUpload (getFilesClient c) \<lparr>cpl_req_key = k, cpl_req_uploadId = u\<rparr> w)}"
    and "snd (ut_abort t (send_UploadIdInput \<lparr>uii_key = k, uii_uploadId = u\<rparr>) w) \<in>
      {w, snd (fc_abortMultipartUpload (getFilesClient c) \<lparr>abt_req_key = k, abt_req_uploadId = u\<rparr> w)}"
    and "snd (ut_url t (send_key k) w) \<in> {w, snd (fc_getUploadURL (getFilesClient c) \<lparr>guu_req_key = k\<rparr> w)}"
    and "snd (ut_commit t (send_key k) w) \<in> {w, snd (fc_commitUpload (getFilesClient c) \<lparr>cu_req_key = k\<rparr> w)}"
proof -
  note srv = assms [unfolded uploads_served_def]
  note run = await_def ret_def throw_def lift_def
  show "snd (ut_create t (send_CreateMultipartUploadInput \<lparr>cmi_key = k, cmi_contentType = ct\<rparr>) w) \<in>
      {w, snd (fc_createMultipartUpload (getFilesClient c) \<lparr>cmu_req_key = k, cmu_req_contentType = ct\<rparr> w)}"
    using create_exact.sent_effect [of wire c "ut_create t" "\<lparr>cmi_key = k, cmi_contentType = ct\<rparr>" w] srv
    by (auto simp: createMultipartUpload_def createMultipartUploadImpl_def run split: prod.splits sum.splits)
  show "snd (ut_part_url t (send_UploadPartUrlInput \<lparr>upi_key = k, upi_uploadId = u, upi_partNumber = n\<rparr>) w) \<in>
      {w, snd (fc_getUploadPartURL (getFilesClient c)
        \<lparr>gupu_req_key = k, gupu_req_uploadId = u, gupu_req_partNumber = n\<rparr> w)}"
    using part_url_exact.sent_effect [of wire c "ut_part_url t" "\<lparr>upi_key = k, upi_uploadId = u, upi_partNumber = n\<rparr>" w] srv
    by (auto simp: getUploadPartUrl_def getUploadPartUrlImpl_def run split: prod.splits sum.splits)
  show "snd (ut_parts t (send_UploadIdInput \<lparr>uii_key = k, uii_uploadId = u\<rparr>) w) \<in>
      {w, snd (fc_listUploadedParts (getFilesClient c) \<lparr>lup_req_key = k, lup_req_uploadId = u\<rparr> w)}"
    using parts_exact.sent_effect [of wire c "ut_parts t" "\<lparr>uii_key = k, uii_uploadId = u\<rparr>" w] srv
    by (auto simp: listUploadedParts_def listUploadedPartsImpl_def run split: prod.splits sum.splits)
  show "snd (ut_complete t (send_UploadIdInput \<lparr>uii_key = k, uii_uploadId = u\<rparr>) w) \<in>
      {w, snd (fc_completeMultipartUpload (getFilesClient c) \<lparr>cpl_req_key = k, cpl_req_uploadId = u\<rparr> w)}"
    using complete_exact.sent_effect [of wire td c "ut_complete t" "\<lparr>uii_key = k, uii_uploadId = u\<rparr>" w] srv
    by (auto simp: completeMultipartUpload_def completeMultipartUploadImpl_def run
        split: prod.splits sum.splits option.splits)
  show "snd (ut_abort t (send_UploadIdInput \<lparr>uii_key = k, uii_uploadId = u\<rparr>) w) \<in>
      {w, snd (fc_abortMultipartUpload (getFilesClient c) \<lparr>abt_req_key = k, abt_req_uploadId = u\<rparr> w)}"
    using abort_exact.sent_effect [of wire c "ut_abort t" "\<lparr>uii_key = k, uii_uploadId = u\<rparr>" w] srv
    by (auto simp: abortMultipartUpload_def abortMultipartUploadImpl_def run split: prod.splits sum.splits)
  show "snd (ut_url t (send_key k) w) \<in> {w, snd (fc_getUploadURL (getFilesClient c) \<lparr>guu_req_key = k\<rparr> w)}"
    using url_exact.sent_effect [of wire c "ut_url t" k w] srv
    by (auto simp: getUploadUrl_def getUploadUrlImpl_def run split: prod.splits sum.splits)
  show "snd (ut_commit t (send_key k) w) \<in> {w, snd (fc_commitUpload (getFilesClient c) \<lparr>cu_req_key = k\<rparr> w)}"
    using commit_exact.sent_effect [of wire td c "ut_commit t" k w] srv
    by (auto simp: commitUpload_def commitUploadImpl_def run split: prod.splits sum.splits option.splits)
qed

text \<open>The same for the dependencies the page makes of the calls.\<close>

lemma deps_worlds:
  assumes "uploads_served wire td c t"
  shows "snd (createMultipartUploadD (multipartDeps (calls_by t) fetch) k ct w) \<in>
      {w, snd (fc_createMultipartUpload (getFilesClient c) \<lparr>cmu_req_key = k, cmu_req_contentType = ct\<rparr> w)}"
    and "snd (getUploadPartUrlD (multipartDeps (calls_by t) fetch) k u n w) \<in>
      {w, snd (fc_getUploadPartURL (getFilesClient c)
        \<lparr>gupu_req_key = k, gupu_req_uploadId = u, gupu_req_partNumber = n\<rparr> w)}"
    and "snd (listUploadedPartsD (multipartDeps (calls_by t) fetch) k u w) \<in>
      {w, snd (fc_listUploadedParts (getFilesClient c) \<lparr>lup_req_key = k, lup_req_uploadId = u\<rparr> w)}"
    and "snd (completeMultipartUploadD (multipartDeps (calls_by t) fetch) k u w) \<in>
      {w, snd (fc_completeMultipartUpload (getFilesClient c) \<lparr>cpl_req_key = k, cpl_req_uploadId = u\<rparr> w)}"
    and "snd (abortMultipartUploadD (multipartDeps (calls_by t) fetch) k u w) \<in>
      {w, snd (fc_abortMultipartUpload (getFilesClient c) \<lparr>abt_req_key = k, abt_req_uploadId = u\<rparr> w)}"
  using wired_worlds [OF assms] by (simp_all add: multipartDeps_def calls_by_def await_ret_world)

lemma closing_worlds:
  assumes "uploads_served wire td c t" and "files_service (getFilesClient c) blobSize stored target"
  shows "may_empty stored w k u (snd (completeMultipartUploadD (multipartDeps (calls_by t) fetch) k u w))"
    and "may_empty stored w k u (snd (abortMultipartUploadD (multipartDeps (calls_by t) fetch) k u w))"
proof -
  have fs: "\<forall>q w. may_empty stored w (cpl_req_key q) (cpl_req_uploadId q)
      (snd (fc_completeMultipartUpload (getFilesClient c) q w))"
    "\<forall>q w. may_empty stored w (abt_req_key q) (abt_req_uploadId q)
      (snd (fc_abortMultipartUpload (getFilesClient c) q w))"
    using assms(2) by (simp_all add: files_service_def)
  show "may_empty stored w k u (snd (completeMultipartUploadD (multipartDeps (calls_by t) fetch) k u w))"
    using fs(1) [rule_format, of w "\<lparr>cpl_req_key = k, cpl_req_uploadId = u\<rparr>"]
      deps_worlds(4) [OF assms(1), of fetch k u w]
    by (metis may_empty_def insert_iff singletonD CompleteMultipartUploadRequest.select_convs(1,2))
  show "may_empty stored w k u (snd (abortMultipartUploadD (multipartDeps (calls_by t) fetch) k u w))"
    using fs(2) [rule_format, of w "\<lparr>abt_req_key = k, abt_req_uploadId = u\<rparr>"]
      deps_worlds(5) [OF assms(1), of fetch k u w]
    by (metis may_empty_def insert_iff singletonD AbortMultipartUploadRequest.select_convs(1,2))
qed

lemma close_wired:
  assumes "uploads_served wire td c t" and "files_service (getFilesClient c) blobSize stored target"
  shows "close_law (multipartDeps (calls_by t) fetch) stored"
  using closing_worlds [OF assms, of _ _ _ fetch] unfolding close_law_def by (metis may_empty_def snd_conv)

lemma wired_stores_parts:
  assumes "uploads_served wire td c t" and "files_service (getFilesClient c) blobSize stored target"
    and "part_endpoint fetch stored target"
  shows "stores_parts (multipartDeps (calls_by t) fetch) blobSize stored target"
  using create_wired [OF assms(1,2)] part_url_wired [OF assms(1,2)] part_put_wired [OF assms(3)]
    parts_wired [OF assms(1,2)] close_wired [OF assms(1,2)]
  by (simp add: stores_parts_def)

section \<open>A file that arrives\<close>

lemma completed_object:
  assumes "uploads_served wire td c t" and "object_store (getFilesClient c) fetch stored objects object_of"
    and "completeMultipartUploadD (multipartDeps (calls_by t) fetch) k u w = (Inr (), w')"
  shows "objects w' k = Some (assembled (stored w k u))"
proof -
  have srv: "served wire (completeMultipartUpload td c) (ut_complete t)"
    using assms(1) by (simp add: uploads_served_def)
  obtain d where run: "ut_complete t (send_UploadIdInput \<lparr>uii_key = k, uii_uploadId = u\<rparr>) w = (Inr d, w')"
    using assms(3) by (auto simp: multipartDeps_def calls_by_def elim!: await_InrE)
  have "\<exists>a. fc_completeMultipartUpload (getFilesClient c) \<lparr>cpl_req_key = k, cpl_req_uploadId = u\<rparr> w = (Inr a, w')"
    by (cases rule: complete_exact.sent_run [OF srv run])
      (auto simp: completeMultipartUpload_def completeMultipartUploadImpl_def lift_def elim!: await_InrE
        split: option.splits)
  with assms(2) show ?thesis unfolding object_store_def by fastforce
qed

lemma small_object:
  assumes "uploads_served wire td c t" and "object_store (getFilesClient c) fetch stored objects object_of"
    and "put_whole (calls_by t) fetch key file w = (Inr x, w')"
  shows "objects w' key = Some (file_body file)"
proof -
  have srv: "served wire (getUploadUrl c) (ut_url t)" "served wire (commitUpload td c) (ut_commit t)"
    using assms(1) by (simp_all add: uploads_served_def)
  obtain url w1 status w2 d where url: "ut_url t (send_key key) w = (Inr url, w1)"
    and put: "fetch \<lparr>pr_url = url, pr_body = file_body file, pr_contentType = Some (content_type file),
              pr_signal = False\<rparr> w1 = (Inr status, w2)" "res_ok status"
    and commit: "ut_commit t (send_key key) w2 = (Inr d, w')"
    using put_whole_Inr [OF assms(3)] by (auto simp: calls_by_def)
  have "object_of url = Some key"
    by (cases rule: url_exact.sent_run [OF srv(1) url])
      (use assms(2) in \<open>fastforce simp: object_store_def getUploadUrl_def getUploadUrlImpl_def elim!: await_InrE\<close>)+
  with assms(2) put have "objects w2 key = Some (file_body file)"
    unfolding object_store_def by fastforce
  moreover have "\<exists>a. fc_commitUpload (getFilesClient c) \<lparr>cu_req_key = key\<rparr> w2 = (Inr a, w')"
    by (cases rule: commit_exact.sent_run [OF srv(2) commit])
      (auto simp: commitUpload_def commitUploadImpl_def lift_def elim!: await_InrE split: option.splits)
  ultimately show ?thesis using assms(2) unfolding object_store_def by fastforce
qed

definition file_bytes :: "'a list File \<Rightarrow> 'a list \<Rightarrow> bool" where
  "file_bytes file bytes \<longleftrightarrow>
     fl_size (file_like file) = int (length bytes) \<and> file_body file = bytes
     \<and> fl_slice (file_like file) = (\<lambda>a b. slice bytes a (Some b))"

lemma file_arrives:
  assumes "uploads_served wire td c t"
    and "files_service (getFilesClient c) (int \<circ> length) stored target"
    and "part_endpoint fetch stored target"
    and "object_store (getFilesClient c) fetch stored objects object_of"
    and "file_bytes file bytes"
    and "loadSession (dir @ file_name file) (us_storage u0) = None"
    and "history (multipartDeps (calls_by t) fetch) stored (file_like file) (dir @ file_name file) u0 (bs_upload s)"
    and "upload_file (calls_by t) fetch aborted dir file s = Some (Inr (), s')"
  shows "objects (us_world (bs_upload s')) (dir @ file_name file) = Some bytes"
proof (cases "MULTIPART_THRESHOLD_BYTES \<le> fl_size (file_like file)")
  case True
  let ?key = "dir @ file_name file"
  obtain r s1 where "upload_large (calls_by t) fetch aborted ?key file s = Some (r, s1)"
    and run: "uploadFileMultipart (file_like file) ?key (content_type file)
      (multipartDeps (calls_by t) fetch) (Some (aborted (bs_controller s))) (bs_upload s) = Some (r, bs_upload s1)"
    by (rule upload_large_run)
  with True assms(8) have "r = Inr ()" "s1 = s'" by (simp_all add: upload_file_def)
  with run have "uploadFileMultipart (file_like file) ?key (content_type file)
      (multipartDeps (calls_by t) fetch) (Some (aborted (bs_controller s))) (bs_upload s) = Some (Inr (), bs_upload s')"
    by simp
  moreover have "fl_size (file_like file) = int (length bytes)"
    "fl_slice (file_like file) = (\<lambda>a b. slice bytes a (Some b))"
    using assms(5) by (simp_all add: file_bytes_def)
  ultimately obtain u w where "completeMultipartUploadD (multipartDeps (calls_by t) fetch) ?key u w =
      (Inr (), us_world (bs_upload s'))" and "assembled (stored w ?key u) = bytes"
    using completed_bytes [OF wired_stores_parts [OF assms(1-3)] _ _ assms(6,7)] by blast
  then show ?thesis using completed_object [OF assms(1,4)] by simp
next
  case False
  with assms(8) have "put_whole (calls_by t) fetch (dir @ file_name file) file (us_world (bs_upload s)) =
      (Inr (), us_world (bs_upload s'))"
    by (auto simp: upload_file_def on_upload_def remote_def split: prod.splits)
  then show ?thesis using small_object [OF assms(1,4)] assms(5) by (simp add: file_bytes_def)
qed

text \<open>
  A file uploaded on the browse page arrives: whatever attempts were made before to upload it to
  that key, failed, cancelled or interrupted, when its upload ends without an error the object store
  holds exactly its bytes under the directory's path and its name. This goes through every layer: the
  page, the upload driver, the server functions with their validators, the handlers and the client,
  for small files and for large ones.
\<close>

theorem browser_upload_exact:
  assumes "uploads_served wire td c t"
    and "files_service (getFilesClient c) (int \<circ> length) stored target"
    and "part_endpoint fetch stored target"
    and "object_store (getFilesClient c) fetch stored objects object_of"
    and "file_bytes file bytes"
    and "loadSession (dir @ file_name file) (us_storage u0) = None"
    and "history (multipartDeps (calls_by t) fetch) stored (file_like file) (dir @ file_name file) u0 (bs_upload s)"
    and "upload_file (calls_by t) fetch aborted dir file s = Some (Inr (), s')"
  shows "objects (us_world (bs_upload s')) (dir @ file_name file) = Some bytes"
  by (rule file_arrives [OF assms])

text \<open>A store that only takes whole objects, its state their map, and a tab that talks to it.\<close>

type_synonym bucket = "jsstring \<rightharpoonup> string"

definition bucket_clients :: "bucket clients" where
  "bucket_clients =
     \<lparr>getSearchClient = down_search_client,
      getFilesClient = down_files_client
        \<lparr>fc_getUploadURL := (\<lambda>q w. (Inr \<lparr>guu_res_url = guu_req_key q\<rparr>, w)),
         fc_commitUpload := (\<lambda>q w. (Inr \<lparr>cu_res_file = Some (sample_file 7)\<rparr>, w))\<rparr>\<rparr>"

definition bucket_fetch :: "(string, bucket) fetch" where
  "bucket_fetch q w = (Inr 200, w(pr_url q \<mapsto> pr_body q))"

definition bucket_transport :: "bucket upload_transport" where
  "bucket_transport =
     \<lparr>ut_create = local_call (createMultipartUpload bucket_clients),
      ut_part_url = local_call (getUploadPartUrl bucket_clients),
      ut_parts = local_call (listUploadedParts bucket_clients),
      ut_complete = local_call (completeMultipartUpload epoch bucket_clients),
      ut_abort = local_call (abortMultipartUpload bucket_clients),
      ut_url = local_call (getUploadUrl bucket_clients),
      ut_commit = local_call (commitUpload epoch bucket_clients)\<rparr>"

definition small_file :: "string File" where
  "small_file = \<lparr>file_like = abc_file, file_type = [], file_body = ''abc''\<rparr>"

definition bucket_tab :: "bucket browser_state" where
  "bucket_tab = \<lparr>bs_upload = \<lparr>us_world = Map.empty, us_storage = None, us_progress = []\<rparr>, bs_uploadStatus = None,
     bs_statuses = [], bs_controller = 0, bs_uploadError = None, bs_invalidated = []\<rparr>"

lemma bucket_serves: "uploads_served id epoch bucket_clients bucket_transport"
  by (simp add: uploads_served_def bucket_transport_def local_call_served)

lemma bucket_service:
  "files_service (getFilesClient bucket_clients) (int \<circ> length) (\<lambda>_ _ _. Map.empty) (\<lambda>_. None)"
  "part_endpoint bucket_fetch (\<lambda>_ _ _. Map.empty) (\<lambda>_. None)"
  "object_store (getFilesClient bucket_clients) bucket_fetch (\<lambda>_ _ _. Map.empty) id Some"
  by (simp_all add: files_service_def part_endpoint_def object_store_def may_empty_def bucket_clients_def
      bucket_fetch_def down_files_client_def throw_def)

lemma bucket_run:
  assumes "fl_size (file_like f) < MULTIPART_THRESHOLD_BYTES" and "file_name f \<noteq> []"
  shows "\<exists>s'. upload_file (calls_by bucket_transport) bucket_fetch aborted dir f s = Some (Inr (), s')"
proof -
  obtain d where d: "toFileDto epoch (sample_file 7) = Inr d"
    using sample_file_timestamps [of 7] toFileDto_Inr_iff [of epoch "sample_file 7"] by blast
  have key: "validateKeyInput (send_key (dir @ file_name f)) = Inr (dir @ file_name f)"
    by (rule key_input.sent_accepted) (simp add: assms(2))
  show ?thesis
    using assms(1)
    by (simp add: upload_file_def put_whole_def on_upload_def remote_def calls_by_def bucket_transport_def
        local_call_def await_def lift_def ret_def getUploadUrl_def commitUpload_def getUploadUrlImpl_def
        commitUploadImpl_def key bucket_clients_def bucket_fetch_def res_ok_def d)
qed

lemma small_file_small: "fl_size (file_like small_file) < MULTIPART_THRESHOLD_BYTES" "file_name small_file \<noteq> []"
  by (simp_all add: small_file_def abc_file_def file_name_def MULTIPART_THRESHOLD_BYTES_def PART_SIZE_BYTES_def js_def)

theorem browser_upload_exact_witness:
  "\<exists>s'. upload_file (calls_by bucket_transport) bucket_fetch (\<lambda>_ _. False) (js ''d/'') small_file bucket_tab =
      Some (Inr (), s') \<and> us_world (bs_upload s') (js ''d/'' @ file_name small_file) = Some ''abc''"
proof -
  obtain s' where run: "upload_file (calls_by bucket_transport) bucket_fetch (\<lambda>_ _. False) (js ''d/'')
      small_file bucket_tab = Some (Inr (), s')"
    using bucket_run [OF small_file_small] by blast
  have bytes: "file_bytes small_file ''abc''"
    by (simp add: file_bytes_def small_file_def abc_file_def)
  have fresh: "loadSession k (us_storage (bs_upload bucket_tab)) = None" for k
    by (simp add: bucket_tab_def loadSession_def)
  from browser_upload_exact [OF bucket_serves bucket_service bytes fresh history.start run] run
  show ?thesis by auto
qed

end
