(* ===== verification/Upload_Batch.thy ===== *)
theory Upload_Batch
  imports Upload_Wiring
begin

text \<open>
  The upload of several files at once, as the browse page runs it: one file after the other, each to a
  key of its own. What an upload to one key leaves alone at the others is shown once for the driver,
  for every predicate its calls keep (\<open>driver_keeps\<close>), and then through all layers, from what the files
  service and the object store document about other keys (\<open>keys_apart\<close>).
\<close>

section \<open>What the driver keeps\<close>

text \<open>
  A predicate on the world and the storage that every call of the driver for a key keeps; a part is
  put to a URL that was just made for it.
\<close>

definition driver_closed ::
  "('w, 'blob) MultipartUploadDeps \<Rightarrow> jsstring \<Rightarrow> ('w \<Rightarrow> storage \<Rightarrow> bool) \<Rightarrow> bool" where
  "driver_closed deps key P \<longleftrightarrow>
     (\<forall>ct w st. P w st \<longrightarrow> P (snd (createMultipartUploadD deps key ct w)) st)
   \<and> (\<forall>u n w st. P w st \<longrightarrow> P (snd (getUploadPartUrlD deps key u n w)) st)
   \<and> (\<forall>u n w0 url w1 b w st. getUploadPartUrlD deps key u n w0 = (Inr url, w1) \<longrightarrow> P w st \<longrightarrow>
        P (snd (putPartD deps url b w)) st)
   \<and> (\<forall>u w st. P w st \<longrightarrow> P (snd (listUploadedPartsD deps key u w)) st)
   \<and> (\<forall>u w st. P w st \<longrightarrow> P (snd (completeMultipartUploadD deps key u w)) st)
   \<and> (\<forall>u w st. P w st \<longrightarrow> P (snd (abortMultipartUploadD deps key u w)) st)
   \<and> (\<forall>v w st. P w st \<longrightarrow> P w (snd (saveSession key v st)))
   \<and> (\<forall>w st. P w st \<longrightarrow> P w (clearSession key st))"

lemma driver_closedD:
  assumes "driver_closed deps key P"
  shows "createMultipartUploadD deps key ct w = (r1, w') \<Longrightarrow> P w st \<Longrightarrow> P w' st"
    and "getUploadPartUrlD deps key u n w = (r2, w') \<Longrightarrow> P w st \<Longrightarrow> P w' st"
    and "getUploadPartUrlD deps key u n w0 = (Inr url, w1) \<Longrightarrow> putPartD deps url b w = (r3, w') \<Longrightarrow>
      P w st \<Longrightarrow> P w' st"
    and "listUploadedPartsD deps key u w = (r4, w') \<Longrightarrow> P w st \<Longrightarrow> P w' st"
    and "completeMultipartUploadD deps key u w = (r5, w') \<Longrightarrow> P w st \<Longrightarrow> P w' st"
    and "abortMultipartUploadD deps key u w = (r6, w') \<Longrightarrow> P w st \<Longrightarrow> P w' st"
    and "saveSession key v st = (r7, st') \<Longrightarrow> P w st \<Longrightarrow> P w st'"
    and "P w st \<Longrightarrow> P w (clearSession key st)"
  using assms unfolding driver_closed_def by (metis snd_conv)+

abbreviation holds :: "('w \<Rightarrow> storage \<Rightarrow> bool) \<Rightarrow> 'w upload_state \<Rightarrow> bool" where
  "holds P s \<equiv> P (us_world s) (us_storage s)"

lemma put_once_keeps:
  assumes "driver_closed deps key P" and "holds P s" and "put_once file key u part deps s = (r, s')"
  shows "holds P s'"
  using assms(3)
proof (cases rule: put_onceE)
  case (no_url e)
  with driver_closedD(2) [OF assms(1)] assms(2) show ?thesis by metis
next
  case (sent url w)
  with driver_closedD(2,3) [OF assms(1)] assms(2) show ?thesis by metis
qed

lemma attempts_keeps:
  assumes "driver_closed deps key P"
  shows "holds P s \<Longrightarrow> attempts file key u part deps aborted lastErr n s = (r, s') \<Longrightarrow> holds P s'"
proof (induction n arbitrary: lastErr s)
  case (Suc n)
  from Suc.prems(2) show ?case
  proof (cases rule: attempts_SucE)
    case (retry e s1)
    with Suc.IH put_once_keeps [OF assms Suc.prems(1)] show ?thesis by blast
  qed (use put_once_keeps [OF assms Suc.prems(1)] in blast)+
qed simp

lemma cancel_keeps:
  assumes "driver_closed deps key P" and "holds P s" and "cancel key u deps s = (r, s')"
  shows "holds P s'"
proof -
  obtain r1 s1 where p: "remote (abortMultipartUploadD deps key u) s = (r1, s1)" by force
  have "holds P s1"
    using driver_closedD(6) [OF assms(1) remote_frame(3) [OF p]] assms(2) remote_frame(1) [OF p] by simp
  moreover have "us_world s' = us_world s1 \<and> us_storage s' \<in> {us_storage s1, clearSession key (us_storage s1)}"
    using assms(3) p by (cases r1) (auto simp: cancel_def async_simps clear_session_def)
  ultimately show ?thesis using driver_closedD(8) [OF assms(1)] by auto
qed

lemma upload_one_keeps:
  assumes "driver_closed deps key P" and "holds P s"
    and "upload_one file key u landed deps aborted part s = (r, s')"
  shows "holds P s'"
proof -
  obtain r1 s1 where p: "uploadPartWithRetry file key u part deps aborted s = (r1, s1)" by force
  have s1: "holds P s1"
    using attempts_keeps [OF assms(1,2)] p by (simp add: uploadPartWithRetry_def)
  have "s' \<in> {s, s1} \<or> cancel key u deps s = (r, s') \<or> cancel key u deps s1 = (r, s')"
    using assms(3) p
    by (cases r1; cases "aborted (us_world s1)") (auto simp: upload_one_def async_simps split: if_splits)
  with cancel_keeps [OF assms(1)] assms(2) s1 show ?thesis by blast
qed

lemma upload_parts_keeps:
  assumes "driver_closed deps key P"
  shows "holds P s \<Longrightarrow> upload_parts file key u landed deps aborted n c parts s = (r, s') \<Longrightarrow> holds P s'"
proof (induction parts arbitrary: c s)
  case (Cons part parts)
  obtain r1 s1 where one: "upload_one file key u landed deps aborted part s = (r1, s1)" by force
  have s1: "holds P s1" by (rule upload_one_keeps [OF assms Cons.prems(1) one])
  show ?case
  proof (cases r1)
    case (Inl e)
    with Cons.prems(2) one s1 show ?thesis by (simp add: async_simps)
  next
    case (Inr x)
    with Cons.prems(2) one
    have "upload_parts file key u landed deps aborted n (c + 1) parts
        (s1\<lparr>us_progress := us_progress s1 @ [(c + 1, n)]\<rparr>) = (r, s')"
      by (simp add: async_simps onProgress_def)
    with s1 show ?thesis by (intro Cons.IH) simp_all
  qed
qed simp

lemma createUpload_keeps:
  assumes "driver_closed deps key P" and "holds P s" and "createUpload file key ct deps s = (r, s')"
  shows "holds P s'"
  using assms(3)
proof (cases rule: createUploadE)
  case (none e)
  with driver_closedD(1) [OF assms(1)] assms(2) show ?thesis by metis
next
  case (made u r1)
  with driver_closedD(1,7) [OF assms(1)] assms(2) show ?thesis by metis
qed

lemma resume_keeps:
  assumes "driver_closed deps key P" and "holds P s" and "resumeOrCreateUpload file key ct deps s = (r, s')"
  shows "holds P s'"
  using assms(3)
proof (cases rule: resumeE)
  case (resumed sess parts)
  with driver_closedD(4) [OF assms(1)] assms(2) show ?thesis by metis
next
  case (stale sess e t)
  then have "holds P t" using driver_closedD(4) [OF assms(1)] assms(2) by metis
  with stale(6) createUpload_keeps [OF assms(1)] show ?thesis by blast
qed (use createUpload_keeps [OF assms(1,2)] in blast)

lemma driver_keeps:
  assumes "driver_closed deps key P" and "holds P s"
    and "uploadFileMultipart file key ct deps signal s = Some (r, s')"
  shows "holds P s'"
proof -
  have "\<exists>aborted parts. upload_with_plan file key ct deps aborted parts s = (r, s')"
    using assms(3) by (auto simp: uploadFileMultipart_returns)
  then obtain aborted parts where "upload_with_plan file key ct deps aborted parts s = (r, s')" by blast
  then show ?thesis
  proof (cases rule: upload_with_planE)
    case (not_started e)
    with resume_keeps [OF assms(1,2)] show ?thesis by blast
  next
    case (stopped u landed s1 e)
    with resume_keeps [OF assms(1,2)] upload_parts_keeps [OF assms(1)] show ?thesis by blast
  next
    case (incomplete u landed s1 s2 e)
    have "holds P s2"
      using upload_parts_keeps [OF assms(1) resume_keeps [OF assms(1,2) incomplete(1)] incomplete(2)] .
    with driver_closedD(5) [OF assms(1) incomplete(3)] incomplete(4) show ?thesis by simp
  next
    case (complete u landed s1 s2)
    have "holds P s2"
      using upload_parts_keeps [OF assms(1) resume_keeps [OF assms(1,2) complete(1)] complete(2)] .
    with driver_closedD(5) [OF assms(1) complete(3)] complete(4) driver_closedD(8) [OF assms(1)]
    show ?thesis by simp
  qed
qed

section \<open>Other keys\<close>

text \<open>
  What the files service and the store document about other keys. Making an upload or a URL, listing
  parts, aborting and putting a part change no object; completing an upload changes the object of its
  key only, and so does a PUT to an upload URL, or a commit.
\<close>

definition keys_apart ::
  "'w FilesClient \<Rightarrow> ('a list, 'w) fetch \<Rightarrow> ('w, 'a list) parts_view \<Rightarrow>
     (jsstring \<rightharpoonup> jsstring \<times> jsstring \<times> int) \<Rightarrow> ('w \<Rightarrow> jsstring \<rightharpoonup> 'a list) \<Rightarrow> (jsstring \<rightharpoonup> jsstring) \<Rightarrow> bool" where
  "keys_apart client fetch stored target objects object_of \<longleftrightarrow>
     (\<forall>q w. objects (snd (fc_createMultipartUpload client q w)) = objects w)
   \<and> (\<forall>q w. objects (snd (fc_getUploadPartURL client q w)) = objects w)
   \<and> (\<forall>q w. objects (snd (fc_listUploadedParts client q w)) = objects w)
   \<and> (\<forall>q w. objects (snd (fc_abortMultipartUpload client q w)) = objects w)
   \<and> (\<forall>q w k. k \<noteq> cpl_req_key q \<longrightarrow> objects (snd (fc_completeMultipartUpload client q w)) k = objects w k)
   \<and> (\<forall>q w. stored (snd (fc_getUploadURL client q w)) = stored w
        \<and> objects (snd (fc_getUploadURL client q w)) = objects w)
   \<and> (\<forall>q w k. k \<noteq> cu_req_key q \<longrightarrow> stored (snd (fc_commitUpload client q w)) = stored w
        \<and> objects (snd (fc_commitUpload client q w)) k = objects w k)
   \<and> (\<forall>q w p. target (pr_url q) = Some p \<longrightarrow> objects (snd (fetch q w)) = objects w)
   \<and> (\<forall>q w k k'. object_of (pr_url q) = Some k \<longrightarrow> k' \<noteq> k \<longrightarrow> stored (snd (fetch q w)) = stored w
        \<and> objects (snd (fetch q w)) k' = objects w k')"

text \<open>The stored parts and the object of a key are the same in two worlds.\<close>

definition same_at ::
  "('w, 'blob) parts_view \<Rightarrow> ('w \<Rightarrow> jsstring \<rightharpoonup> 'o) \<Rightarrow> jsstring \<Rightarrow> 'w \<Rightarrow> 'w \<Rightarrow> bool" where
  "same_at stored objects key w w' \<longleftrightarrow> stored w' key = stored w key \<and> objects w' key = objects w key"

text \<open>What may happen at a key while other keys are uploaded to: nothing, or uploads are dropped.\<close>

definition kept_at ::
  "('w, 'blob) parts_view \<Rightarrow> ('w \<Rightarrow> jsstring \<rightharpoonup> 'o) \<Rightarrow> jsstring \<Rightarrow> 'w upload_state \<Rightarrow> 'w \<Rightarrow> storage \<Rightarrow> bool" where
  "kept_at stored objects key u w st \<longleftrightarrow>
     loadSession key st = loadSession key (us_storage u)
     \<and> (\<forall>v. stored w key v = stored (us_world u) key v \<or> stored w key v = Map.empty)
     \<and> objects w key = objects (us_world u) key"

lemma kept_at_refl [simp]: "holds (kept_at stored objects key u) u"
  by (simp add: kept_at_def)

lemma kept_at_trans:
  "holds (kept_at stored objects key u) u1 \<Longrightarrow> holds (kept_at stored objects key u1) u2 \<Longrightarrow>
    holds (kept_at stored objects key u) u2"
  unfolding kept_at_def by metis

lemma kept_at_same: "kept_at stored objects key u w st \<Longrightarrow> same_at stored objects key w w' \<Longrightarrow>
    kept_at stored objects key u w' st"
  by (simp add: kept_at_def same_at_def)

lemma same_at_refl [simp]: "same_at stored objects key w w"
  by (simp add: same_at_def)

lemma same_at_trans: "same_at stored objects key w w1 \<Longrightarrow> same_at stored objects key w1 w2 \<Longrightarrow>
    same_at stored objects key w w2"
  by (simp add: same_at_def)

text \<open>The assumptions on the layers, together.\<close>

definition upload_layers ::
  "(js_error \<Rightarrow> js_error) \<Rightarrow> timestamp_date \<Rightarrow> 'w clients \<Rightarrow> 'w upload_transport \<Rightarrow> ('a list, 'w) fetch \<Rightarrow>
     ('w, 'a list) parts_view \<Rightarrow> (jsstring \<rightharpoonup> jsstring \<times> jsstring \<times> int) \<Rightarrow>
     ('w \<Rightarrow> jsstring \<rightharpoonup> 'a list) \<Rightarrow> (jsstring \<rightharpoonup> jsstring) \<Rightarrow> bool" where
  "upload_layers wire td c t fetch stored target objects object_of \<longleftrightarrow>
     uploads_served wire td c t
     \<and> files_service (getFilesClient c) (int \<circ> length) stored target
     \<and> part_endpoint fetch stored target
     \<and> object_store (getFilesClient c) fetch stored objects object_of
     \<and> keys_apart (getFilesClient c) fetch stored target objects object_of"

lemma closing_same_at:
  assumes "upload_layers wire td c t fetch stored target objects object_of" and "key \<noteq> k"
  shows "same_at stored objects key w (snd (abortMultipartUploadD (multipartDeps (calls_by t) fetch) k u w))"
    and "same_at stored objects key w (snd (completeMultipartUploadD (multipartDeps (calls_by t) fetch) k u w))"
proof -
  let ?deps = "multipartDeps (calls_by t) fetch"
  have served: "uploads_served wire td c t"
    and objs: "keys_apart (getFilesClient c) fetch stored target objects object_of"
    and service: "files_service (getFilesClient c) (int \<circ> length) stored target"
    using assms(1) by (simp_all add: upload_layers_def)
  note worlds = deps_worlds(4,5) [OF served, of fetch k u w]
  note emptied = closing_worlds [OF served service, of w k u fetch]
  have "stored (snd (abortMultipartUploadD ?deps k u w)) key = stored w key"
    and "stored (snd (completeMultipartUploadD ?deps k u w)) key = stored w key"
    using emptied assms(2) by (auto simp: may_empty_def with_upload_def)
  with worlds objs assms(2) show "same_at stored objects key w (snd (abortMultipartUploadD ?deps k u w))"
    and "same_at stored objects key w (snd (completeMultipartUploadD ?deps k u w))"
    by (auto simp: same_at_def keys_apart_def)
qed

lemma put_same_at:
  assumes "upload_layers wire td c t fetch stored target objects object_of" and "key \<noteq> k"
    and "target url = Some (k, u, n)"
  shows "same_at stored objects key w (snd (putPartD (multipartDeps (calls_by t) fetch) url b w))"
proof -
  let ?deps = "multipartDeps (calls_by t) fetch"
  obtain r w' where put: "putPartD ?deps url b w = (r, w')" by force
  have "put_law ?deps stored target" and apart: "keys_apart (getFilesClient c) fetch stored target objects object_of"
    using assms(1) part_put_wired by (auto simp: upload_layers_def)
  then have "stored w' = put_part (stored w) k u n b \<or> stored w' = stored w"
    using put assms(3) unfolding put_law_def by blast
  then have "stored w' key = stored w key" using assms(2) by (auto simp: put_part_def with_upload_def)
  moreover have "w' = snd (fetch \<lparr>pr_url = url, pr_body = b, pr_contentType = None, pr_signal = True\<rparr> w)"
    using put by (auto simp: multipartDeps_def put_part_by_fetch_def await_def ret_def throw_def
        split: prod.splits sum.splits if_splits)
  then have "objects w' = objects w" using apart assms(3) by (simp add: keys_apart_def)
  ultimately show ?thesis using put by (simp add: same_at_def)
qed

lemma deps_same_at:
  assumes "upload_layers wire td c t fetch stored target objects object_of" and "key \<noteq> k"
  shows "same_at stored objects key w (snd (createMultipartUploadD (multipartDeps (calls_by t) fetch) k ct w))"
    and "same_at stored objects key w (snd (getUploadPartUrlD (multipartDeps (calls_by t) fetch) k u n w))"
    and "getUploadPartUrlD (multipartDeps (calls_by t) fetch) k u n w0 = (Inr url, w1) \<Longrightarrow>
      same_at stored objects key w (snd (putPartD (multipartDeps (calls_by t) fetch) url b w))"
    and "same_at stored objects key w (snd (listUploadedPartsD (multipartDeps (calls_by t) fetch) k u w))"
proof -
  let ?deps = "multipartDeps (calls_by t) fetch"
  have served: "uploads_served wire td c t"
    and apart: "keys_apart (getFilesClient c) fetch stored target objects object_of"
    using assms(1) by (simp_all add: upload_layers_def)
  have laws: "stores_parts ?deps (int \<circ> length) stored target"
    using assms(1) wired_stores_parts by (auto simp: upload_layers_def)
  note worlds = deps_worlds [OF served, of fetch]
  note objs = apart [unfolded keys_apart_def]
  have "stored (snd (createMultipartUploadD ?deps k ct w)) key = stored w key"
    using laws assms(2) unfolding stores_parts_def create_law_def
    by (cases "createMultipartUploadD ?deps k ct w"; cases "fst (createMultipartUploadD ?deps k ct w)")
      (auto simp: with_upload_def)
  moreover have "objects (snd (createMultipartUploadD ?deps k ct w)) = objects w"
    using worlds(1) [of k ct w] objs by auto
  ultimately show "same_at stored objects key w (snd (createMultipartUploadD ?deps k ct w))"
    by (simp add: same_at_def)
  show "same_at stored objects key w (snd (getUploadPartUrlD ?deps k u n w))"
    using worlds(2) [of k u n w] objs laws unfolding stores_parts_def url_law_def
    by (cases "getUploadPartUrlD ?deps k u n w") (auto simp: same_at_def)
  show "same_at stored objects key w (snd (listUploadedPartsD ?deps k u w))"
    using worlds(3) [of k u w] objs laws unfolding stores_parts_def list_law_def
    by (cases "listUploadedPartsD ?deps k u w") (auto simp: same_at_def)
  show "same_at stored objects key w (snd (putPartD ?deps url b w))"
    if "getUploadPartUrlD ?deps k u n w0 = (Inr url, w1)"
    using that laws put_same_at [OF assms] unfolding stores_parts_def url_law_def by blast
qed

lemma driver_apart:
  assumes "upload_layers wire td c t fetch stored target objects object_of" and "key \<noteq> k"
  shows "driver_closed (multipartDeps (calls_by t) fetch) k (kept_at stored objects key u)"
  unfolding driver_closed_def
proof (intro conjI allI impI)
  fix v w st assume "kept_at stored objects key u w st"
  then show "kept_at stored objects key u w (snd (saveSession k v st))"
    and "kept_at stored objects key u w (clearSession k st)"
    using assms(2) sessions.load_save_other [OF surjective_pairing, of k key] sessions.load_clear_other [of k key]
    by (simp_all add: kept_at_def)
qed (blast intro: kept_at_same deps_same_at [OF assms] closing_same_at [OF assms])+

section \<open>A file, and files, at other keys\<close>

lemma put_whole_apart:
  assumes "upload_layers wire td c t fetch stored target objects object_of" and "key \<noteq> k"
    and "put_whole (calls_by t) fetch k file w = (r, w')"
  shows "same_at stored objects key w w'"
proof -
  let ?client = "getFilesClient c"
  have served: "uploads_served wire td c t" and objs: "object_store ?client fetch stored objects object_of"
    and apart: "keys_apart ?client fetch stored target objects object_of"
    using assms(1) by (simp_all add: upload_layers_def)
  have url_srv: "served wire (getUploadUrl c) (ut_url t)" using served by (simp add: uploads_served_def)
  have url: "same_at stored objects key v (snd (ut_url t (send_key k) v))" for v
    using wired_worlds(6) [OF served, of k v] apart by (auto simp: keys_apart_def same_at_def)
  have commit: "same_at stored objects key v (snd (ut_commit t (send_key k) v))" for v
    using wired_worlds(7) [OF served, of k v] apart assms(2) by (auto simp: keys_apart_def same_at_def)
  obtain r1 w1 where u: "ut_url t (send_key k) w = (r1, w1)" by force
  then have s1: "same_at stored objects key w w1" using url [of w] by simp
  show ?thesis
  proof (cases r1)
    case (Inl e)
    with assms(3) u s1 show ?thesis by (simp add: put_whole_def calls_by_def await_def)
  next
    case (Inr a)
    let ?q = "\<lparr>pr_url = a, pr_body = file_body file, pr_contentType = Some (content_type file), pr_signal = False\<rparr>"
    have "object_of a = Some k"
      by (cases rule: url_exact.sent_run [OF url_srv u [unfolded Inr]])
        (use objs in \<open>fastforce simp: object_store_def getUploadUrl_def getUploadUrlImpl_def elim!: await_InrE\<close>)+
    then have "same_at stored objects key w1 (snd (fetch ?q w1))"
      using apart assms(2) unfolding keys_apart_def same_at_def by fastforce
    then have "same_at stored objects key w (snd (fetch ?q w1))" by (rule same_at_trans [OF s1])
    moreover have "w' \<in> {snd (fetch ?q w1), snd (ut_commit t (send_key k) (snd (fetch ?q w1)))}"
      using assms(3) u Inr
      by (auto simp: put_whole_def calls_by_def await_def ret_def throw_def split: prod.splits sum.splits if_splits)
    ultimately show ?thesis using same_at_trans [OF _ commit] by fastforce
  qed
qed

lemma upload_file_apart:
  assumes "upload_layers wire td c t fetch stored target objects object_of" and "key \<noteq> dir @ file_name f"
    and "upload_file (calls_by t) fetch aborted dir f s = Some (r, s')"
  shows "holds (kept_at stored objects key (bs_upload s)) (bs_upload s')"
proof (cases "MULTIPART_THRESHOLD_BYTES \<le> fl_size (file_like f)")
  case True
  let ?k = "dir @ file_name f"
  obtain r1 s1 where "upload_large (calls_by t) fetch aborted ?k f s = Some (r1, s1)"
    and run: "uploadFileMultipart (file_like f) ?k (content_type f)
      (multipartDeps (calls_by t) fetch) (Some (aborted (bs_controller s))) (bs_upload s) = Some (r1, bs_upload s1)"
    by (rule upload_large_run)
  with True assms(3) have "s1 = s'" by (simp add: upload_file_def)
  with driver_keeps [OF driver_apart [OF assms(1,2)] kept_at_refl run] show ?thesis by simp
next
  case False
  with assms(3) obtain w' where "put_whole (calls_by t) fetch (dir @ file_name f) f (us_world (bs_upload s)) = (r, w')"
    and "bs_upload s' = (bs_upload s)\<lparr>us_world := w'\<rparr>"
    by (auto simp: upload_file_def on_upload_def remote_def split: prod.splits)
  with kept_at_same [OF kept_at_refl put_whole_apart [OF assms(1,2)]] show ?thesis by simp
qed

lemma upload_files_apart:
  assumes "upload_layers wire td c t fetch stored target objects object_of"
  shows "key \<notin> (\<lambda>f. dir @ file_name f) ` set files \<Longrightarrow>
    upload_files (calls_by t) fetch aborted dir files s = Some (r, s') \<Longrightarrow>
    holds (kept_at stored objects key (bs_upload s)) (bs_upload s')"
proof (induction files arbitrary: s)
  case (Cons f fs)
  obtain r1 s1 where f: "upload_file (calls_by t) fetch aborted dir f s = Some (r1, s1)"
    using upload_file_run by metis
  have one: "holds (kept_at stored objects key (bs_upload s)) (bs_upload s1)"
    using upload_file_apart [OF assms _ f] Cons.prems(1) by simp
  show ?case
  proof (cases r1)
    case (Inr x)
    with f Cons.prems have "holds (kept_at stored objects key (bs_upload s1)) (bs_upload s')"
      by (intro Cons.IH) simp_all
    with one kept_at_trans show ?thesis by blast
  qed (use f Cons.prems one in simp)
qed simp

section \<open>All files\<close>

text \<open>
  A file can be uploaded to its key: its bytes are what its slices and its body are made of, and what
  was attempted before began with no session on record.
\<close>

definition uploadable ::
  "('w, 'a list) MultipartUploadDeps \<Rightarrow> ('w, 'a list) parts_view \<Rightarrow> jsstring \<Rightarrow> 'w upload_state \<Rightarrow> 'a list File \<Rightarrow> bool" where
  "uploadable deps stored dir u f \<longleftrightarrow> file_bytes f (file_body f)
     \<and> (\<exists>u0. loadSession (dir @ file_name f) (us_storage u0) = None
          \<and> history deps stored (file_like f) (dir @ file_name f) u0 u)"

lemma uploadable_kept:
  assumes "uploadable deps stored dir u f" and "holds (kept_at stored objects (dir @ file_name f) u) u'"
  shows "uploadable deps stored dir u' f"
  using assms history.elsewhere [of deps stored "file_like f" "dir @ file_name f" _ u u']
  unfolding uploadable_def kept_at_def by metis

text \<open>
  The loop over the files: it gets through all of them, or it ends at the first whose upload fails, and
  has not touched the files after that one.
\<close>

lemma upload_files_split:
  assumes "upload_files calls fetch aborted dir files s = Some (r, s')"
  shows "r = Inr ()
    \<or> (\<exists>arrived f rest e s1. r = Inl e \<and> files = arrived @ f # rest
        \<and> upload_files calls fetch aborted dir arrived s = Some (Inr (), s1)
        \<and> upload_file calls fetch aborted dir f s1 = Some (Inl e, s'))"
  using assms
proof (induction files arbitrary: s)
  case (Cons f fs)
  obtain r1 s1 where f: "upload_file calls fetch aborted dir f s = Some (r1, s1)"
    using upload_file_run by metis
  show ?case
  proof (cases r1)
    case (Inl e)
    with f Cons.prems have "r = Inl e" "s' = s1" by simp_all
    with f Inl show ?thesis by (intro disjI2 exI [of _ "[]"]) auto
  next
    case (Inr x)
    with f Cons.prems have "upload_files calls fetch aborted dir fs s1 = Some (r, s')" by simp
    from Cons.IH [OF this] show ?thesis
    proof
      assume "\<exists>arrived g rest e s2. r = Inl e \<and> fs = arrived @ g # rest
        \<and> upload_files calls fetch aborted dir arrived s1 = Some (Inr (), s2)
        \<and> upload_file calls fetch aborted dir g s2 = Some (Inl e, s')"
      then obtain arrived g rest e s2 where "r = Inl e" "fs = arrived @ g # rest"
        "upload_files calls fetch aborted dir arrived s1 = Some (Inr (), s2)"
        "upload_file calls fetch aborted dir g s2 = Some (Inl e, s')"
        by blast
      with f Inr show ?thesis by (intro disjI2 exI [of _ "f # arrived"]) auto
    qed simp
  qed
qed simp

text \<open>Files that all got through are in the store, each under its own key.\<close>

lemma upload_files_arrive:
  assumes "upload_layers wire td c t fetch stored target objects object_of"
  shows "distinct (map file_name files) \<Longrightarrow>
    (\<And>f. f \<in> set files \<Longrightarrow> uploadable (multipartDeps (calls_by t) fetch) stored dir (bs_upload s) f) \<Longrightarrow>
    upload_files (calls_by t) fetch aborted dir files s = Some (Inr (), s') \<Longrightarrow>
    f \<in> set files \<Longrightarrow> objects (us_world (bs_upload s')) (dir @ file_name f) = Some (file_body f)"
proof (induction files arbitrary: s)
  case (Cons g gs)
  obtain r1 s1 where g: "upload_file (calls_by t) fetch aborted dir g s = Some (r1, s1)"
    using upload_file_run by metis
  with Cons.prems(3) have r1: "r1 = Inr ()" and rest: "upload_files (calls_by t) fetch aborted dir gs s1 = Some (Inr (), s')"
    by (cases r1; simp)+
  have ready: "uploadable (multipartDeps (calls_by t) fetch) stored dir (bs_upload s1) h" if "h \<in> set gs" for h
  proof (rule uploadable_kept [OF Cons.prems(2)])
    show "holds (kept_at stored objects (dir @ file_name h) (bs_upload s)) (bs_upload s1)"
      using that Cons.prems(1) by (intro upload_file_apart [OF assms _ g]) (auto simp: image_iff)
  qed (use that in simp)
  show ?case
  proof (cases "f \<in> set gs")
    case True
    with Cons.IH [OF _ ready rest] Cons.prems(1) show ?thesis by simp
  next
    case False
    with Cons.prems(4) have "f = g" by simp
    have "objects (us_world (bs_upload s1)) (dir @ file_name g) = Some (file_body g)"
      using Cons.prems(2) [of g] assms g r1
      by (auto simp: uploadable_def upload_layers_def intro: file_arrives)
    moreover have "holds (kept_at stored objects (dir @ file_name g) (bs_upload s1)) (bs_upload s')"
      using Cons.prems(1) by (intro upload_files_apart [OF assms _ rest]) auto
    ultimately show ?thesis using \<open>f = g\<close> by (simp add: kept_at_def)
  qed
qed simp

section \<open>Properties\<close>

text \<open>
  C1. Choosing files uploads them: for files of different names, whatever was attempted before to upload
  them to this folder, the upload ends. If no error is shown, every file has arrived, as exactly its bytes
  under the folder's path and its own name. If an error is shown, it is the error of the upload of one of
  the files; all the files before that one were uploaded and have arrived, and have stayed as they are;
  and under the names of the files after it the store has what it had. This goes through every layer: the
  page, the upload driver, the server functions with their validators, the handlers and the client.
\<close>

theorem upload_batch_arrives:
  assumes "upload_layers wire td c t fetch stored target objects object_of"
    and "distinct (map file_name files)"
    and "list_all (uploadable (multipartDeps (calls_by t) fetch) stored (normalizeUploadPath path) (bs_upload s)) files"
  shows "\<exists>s'. run_upload (calls_by t) fetch aborted path files s = Some s'
    \<and> (case bs_uploadError s' of
        None \<Rightarrow> \<forall>f \<in> set files.
          objects (us_world (bs_upload s')) (normalizeUploadPath path @ file_name f) = Some (file_body f)
      | Some e \<Rightarrow> \<exists>arrived f rest s0 s1 s2. files = arrived @ f # rest
          \<and> s0 = s\<lparr>bs_controller := Suc (bs_controller s), bs_uploadError := None\<rparr>
          \<and> upload_files (calls_by t) fetch aborted (normalizeUploadPath path) arrived s0 = Some (Inr (), s1)
          \<and> upload_file (calls_by t) fetch aborted (normalizeUploadPath path) f s1 = Some (Inl e, s2)
          \<and> (\<forall>g \<in> set arrived.
              objects (us_world (bs_upload s')) (normalizeUploadPath path @ file_name g) = Some (file_body g))
          \<and> (\<forall>g \<in> set rest.
              objects (us_world (bs_upload s')) (normalizeUploadPath path @ file_name g) =
              objects (us_world (bs_upload s)) (normalizeUploadPath path @ file_name g)))"
proof -
  let ?dir = "normalizeUploadPath path"
  let ?s0 = "s\<lparr>bs_controller := Suc (bs_controller s), bs_uploadError := None\<rparr>"
  let ?has = "\<lambda>s f. objects (us_world (bs_upload s)) (?dir @ file_name f)"
  obtain r s1 where run: "upload_files (calls_by t) fetch aborted ?dir files ?s0 = Some (r, s1)"
    and frame: "same_frame ?s0 s1"
    using upload_files_run [of "calls_by t" fetch aborted ?dir files ?s0] by blast
  have ready: "uploadable (multipartDeps (calls_by t) fetch) stored ?dir (bs_upload ?s0) f" if "f \<in> set files" for f
    using assms(3) that by (simp add: list_all_iff)
  from upload_files_split [OF run] show ?thesis
  proof
    assume "r = Inr ()"
    with upload_files_arrive [OF assms(1,2) ready] run frame show ?thesis
      by (simp add: run_upload_def setUploadStatus_def same_frame_def)
  next
    assume "\<exists>arrived f rest e t1. r = Inl e \<and> files = arrived @ f # rest
      \<and> upload_files (calls_by t) fetch aborted ?dir arrived ?s0 = Some (Inr (), t1)
      \<and> upload_file (calls_by t) fetch aborted ?dir f t1 = Some (Inl e, s1)"
    then obtain arrived f rest e t1 where r: "r = Inl e" and files: "files = arrived @ f # rest"
      and before: "upload_files (calls_by t) fetch aborted ?dir arrived ?s0 = Some (Inr (), t1)"
      and fails: "upload_file (calls_by t) fetch aborted ?dir f t1 = Some (Inl e, s1)"
      by blast
    have names: "?dir @ file_name g \<noteq> ?dir @ file_name f" if "g \<in> set arrived \<union> set rest" for g
      using that assms(2) files by (auto simp: image_iff)
    have kept: "?has s1 g = ?has t1 g" if "g \<in> set arrived \<union> set rest" for g
      using upload_file_apart [OF assms(1) names [OF that] fails] by (simp add: kept_at_def)
    have "?has t1 g = Some (file_body g)" if "g \<in> set arrived" for g
      using upload_files_arrive [OF assms(1) _ ready before that] assms(2) files by simp
    moreover have "?has t1 g = ?has ?s0 g" if "g \<in> set rest" for g
    proof -
      have "?dir @ file_name g \<notin> (\<lambda>f. ?dir @ file_name f) ` set arrived"
        using that assms(2) files by (auto simp: image_iff)
      from upload_files_apart [OF assms(1) this before] show ?thesis by (simp add: kept_at_def)
    qed
    moreover have "run_upload (calls_by t) fetch aborted path files s =
        Some ((setUploadStatus None s1)\<lparr>bs_uploadError := Some e\<rparr>)"
      using run r by (simp add: run_upload_def)
    ultimately show ?thesis
      using files before fails kept by (auto simp: setUploadStatus_def intro!: exI)
  qed
qed

text \<open>The store that only takes whole objects keeps keys apart.\<close>

lemma bucket_layers:
  "upload_layers id epoch bucket_clients bucket_transport bucket_fetch (\<lambda>_ _ _. Map.empty) (\<lambda>_. None) id Some"
proof -
  have "keys_apart (getFilesClient bucket_clients) bucket_fetch (\<lambda>_ _ _. Map.empty) (\<lambda>_. None) id Some"
    by (simp add: keys_apart_def bucket_clients_def bucket_fetch_def down_files_client_def throw_def)
  with bucket_serves bucket_service show ?thesis by (simp add: upload_layers_def)
qed

definition two_files :: "string File list" where
  "two_files = [small_file,
     small_file\<lparr>file_like := \<lparr>fl_name = js ''g'', fl_size = 2, fl_lastModified = 0,
       fl_slice = (\<lambda>a b. slice ''xy'' a (Some b))\<rparr>, file_body := ''xy''\<rparr>]"

lemma two_files_ready:
  "distinct (map file_name two_files)"
  "list_all (uploadable deps stored dir (bs_upload bucket_tab)) two_files"
proof -
  show "distinct (map file_name two_files)"
    by (simp add: two_files_def file_name_def small_file_def abc_file_def js_def)
  have "history deps stored f k (bs_upload bucket_tab) (bs_upload bucket_tab)" for f k
    by (rule history.start)
  then show "list_all (uploadable deps stored dir (bs_upload bucket_tab)) two_files"
    by (auto simp: two_files_def uploadable_def file_bytes_def small_file_def abc_file_def bucket_tab_def
        loadSession_def intro!: exI [of _ "bs_upload bucket_tab"])
qed

lemma bucket_files:
  assumes "list_all (\<lambda>f. fl_size (file_like f) < MULTIPART_THRESHOLD_BYTES \<and> file_name f \<noteq> []) files"
  shows "\<exists>s'. upload_files (calls_by bucket_transport) bucket_fetch aborted dir files s = Some (Inr (), s')"
  using assms
proof (induction files arbitrary: s)
  case (Cons f fs)
  then obtain s1 where "upload_file (calls_by bucket_transport) bucket_fetch aborted dir f s = Some (Inr (), s1)"
    using bucket_run by fastforce
  with Cons show ?case by simp
qed simp

theorem upload_batch_arrives_witness:
  "\<exists>s'. run_upload (calls_by bucket_transport) bucket_fetch (\<lambda>_ _. False) (js ''d/'') two_files bucket_tab = Some s'
    \<and> bs_uploadError s' = None
    \<and> us_world (bs_upload s') (normalizeUploadPath (js ''d/'') @ js ''f'') = Some ''abc''
    \<and> us_world (bs_upload s') (normalizeUploadPath (js ''d/'') @ js ''g'') = Some ''xy''"
proof -
  let ?s0 = "bucket_tab\<lparr>bs_controller := Suc 0, bs_uploadError := None\<rparr>"
  have small: "list_all (\<lambda>f. fl_size (file_like f) < MULTIPART_THRESHOLD_BYTES \<and> file_name f \<noteq> []) two_files"
    by (simp add: two_files_def small_file_small)
      (simp add: file_name_def MULTIPART_THRESHOLD_BYTES_def PART_SIZE_BYTES_def js_def)
  obtain s1 where run: "upload_files (calls_by bucket_transport) bucket_fetch (\<lambda>_ _. False)
      (normalizeUploadPath (js ''d/'')) two_files ?s0 = Some (Inr (), s1)"
    using bucket_files [OF small] by blast
  have frame: "bs_uploadError s1 = None"
    using upload_files_run [of "calls_by bucket_transport" bucket_fetch "\<lambda>_ _. False"
        "normalizeUploadPath (js ''d/'')" two_files ?s0] run
    by (auto simp: same_frame_def)
  have "run_upload (calls_by bucket_transport) bucket_fetch (\<lambda>_ _. False) (js ''d/'') two_files bucket_tab =
      Some ((setUploadStatus None s1)\<lparr>bs_invalidated := bs_invalidated s1 @ directory_changed_keys\<rparr>)"
    using run by (simp add: run_upload_def setUploadStatus_def bucket_tab_def)
  with frame upload_batch_arrives [OF bucket_layers two_files_ready, of "\<lambda>_ _. False" "js ''d/''"]
  show ?thesis by (auto simp: two_files_def file_name_def small_file_def abc_file_def setUploadStatus_def)
qed

end
