(* ===== verification/Upload_Recovery.thy ===== *)
theory Upload_Recovery
  imports Multipart_Store
begin

text \<open>
  That a resumable upload arrives, as the counterpart of what holds when it does. The network may fail
  again and again, but never as often in a row as the driver tries; then an upload that nobody cancels
  succeeds, whatever attempts were made before. The local storage must have room for the session,
  which is not an idle condition: \<open>full_storage_blocks_upload\<close> shows what happens when it is full.
\<close>

section \<open>A network that recovers\<close>

text \<open>
  \<open>live w u\<close>: the upload \<open>u\<close> of the key is open. \<open>burst w\<close>: how many transfers will fail in a row from
  now on, at most; a failure uses one up. A new upload is open, one whose parts are listed is too;
  fetching URLs and sending parts keeps it open; an open upload with parts can be completed.
\<close>

definition recovers ::
  "('w, 'blob) MultipartUploadDeps \<Rightarrow> ('w, 'blob) parts_view \<Rightarrow> (jsstring \<rightharpoonup> jsstring \<times> jsstring \<times> int) \<Rightarrow>
     jsstring \<Rightarrow> jsstring \<Rightarrow> ('w \<Rightarrow> jsstring \<Rightarrow> bool) \<Rightarrow> ('w \<Rightarrow> nat) \<Rightarrow> bool" where
  "recovers deps stored target key ct live burst \<longleftrightarrow>
     (\<forall>w. burst w < 3)
   \<and> (\<forall>w. \<exists>u w'. createMultipartUploadD deps key ct w = (Inr u, w') \<and> live w' u)
   \<and> (\<forall>u w ps w'. listUploadedPartsD deps key u w = (Inr ps, w') \<longrightarrow> live w' u)
   \<and> (\<forall>u n w r w'. live w u \<longrightarrow> getUploadPartUrlD deps key u n w = (r, w') \<longrightarrow>
        live w' u \<and> (case r of Inl _ \<Rightarrow> burst w' < burst w | Inr url \<Rightarrow> burst w' \<le> burst w \<and> target url = Some (key, u, n)))
   \<and> (\<forall>url u n b w r w'. live w u \<longrightarrow> target url = Some (key, u, n) \<longrightarrow> putPartD deps url b w = (r, w') \<longrightarrow>
        live w' u \<and> (\<forall>e. r = Inl e \<longrightarrow> burst w' < burst w))
   \<and> (\<forall>u w. live w u \<longrightarrow> stored w key u \<noteq> Map.empty \<longrightarrow> fst (completeMultipartUploadD deps key u w) = Inr ())"

lemma recovers_bounded: "recovers deps stored target key ct live burst \<Longrightarrow> burst w < 3"
  by (simp add: recovers_def)

lemma recovers_created:
  assumes "recovers deps stored target key ct live burst" and "createMultipartUploadD deps key ct w = (r, w')"
  obtains u where "r = Inr u" and "live w' u"
  using assms unfolding recovers_def by (metis prod.inject)

lemma recovers_listed:
  "recovers deps stored target key ct live burst \<Longrightarrow> listUploadedPartsD deps key u w = (Inr ps, w') \<Longrightarrow> live w' u"
  unfolding recovers_def by blast

lemma recovers_url:
  "recovers deps stored target key ct live burst \<Longrightarrow> live w u \<Longrightarrow> getUploadPartUrlD deps key u n w = (r, w') \<Longrightarrow>
    live w' u \<and> (case r of Inl _ \<Rightarrow> burst w' < burst w | Inr url \<Rightarrow> burst w' \<le> burst w \<and> target url = Some (key, u, n))"
  unfolding recovers_def by blast

lemma recovers_put:
  "recovers deps stored target key ct live burst \<Longrightarrow> live w u \<Longrightarrow> target url = Some (key, u, n) \<Longrightarrow>
    putPartD deps url b w = (r, w') \<Longrightarrow> live w' u \<and> (\<forall>e. r = Inl e \<longrightarrow> burst w' < burst w)"
  unfolding recovers_def by blast

lemma recovers_completes:
  "recovers deps stored target key ct live burst \<Longrightarrow> live w u \<Longrightarrow> stored w key u \<noteq> Map.empty \<Longrightarrow>
    fst (completeMultipartUploadD deps key u w) = Inr ()"
  unfolding recovers_def by blast

lemma put_once_recovers:
  assumes "recovers deps stored target key ct live burst" and "live (us_world s) u"
    and "put_once file key u part deps s = (r, s')"
  shows "live (us_world s') u \<and> (\<forall>e. r = Inl e \<longrightarrow> burst (us_world s') < burst (us_world s))"
  using assms(3)
proof (cases rule: put_onceE)
  case (no_url e)
  with recovers_url [OF assms(1,2) no_url(2)] show ?thesis by simp
next
  case (sent url w)
  from recovers_url [OF assms(1,2) sent(1)]
  have "live w u" "burst w \<le> burst (us_world s)" "target url = Some (key, u, pp_partNumber part)" by simp_all
  with recovers_put [OF assms(1) _ _ sent(2)] show ?thesis by fastforce
qed

lemma attempts_recover:
  assumes "recovers deps stored target key ct live burst"
  shows "live (us_world s) u \<Longrightarrow> burst (us_world s) < n \<Longrightarrow>
    attempts file key u part deps (\<lambda>_. False) lastErr n s = (r, s') \<Longrightarrow> r = Inr () \<and> live (us_world s') u"
proof (induction n arbitrary: lastErr s)
  case (Suc n)
  from Suc.prems(3) show ?case
  proof (cases rule: attempts_SucE)
    case (retry e s1)
    with put_once_recovers [OF assms Suc.prems(1) retry(1)] Suc.prems(2) Suc.IH [of s1] show ?thesis by auto
  qed (use put_once_recovers [OF assms Suc.prems(1)] in auto)
qed simp

lemma upload_one_recovers:
  assumes "recovers deps stored target key ct live burst" and "live (us_world s) u"
  shows "\<exists>s'. upload_one file key u landed deps (\<lambda>_. False) part s = (Inr (), s') \<and> live (us_world s') u"
proof -
  obtain r s1 where run: "uploadPartWithRetry file key u part deps (\<lambda>_. False) s = (r, s1)" by force
  have "r = Inr () \<and> live (us_world s1) u"
    using attempts_recover [OF assms recovers_bounded [OF assms(1)]] run
    by (simp add: uploadPartWithRetry_def PART_RETRY_ATTEMPTS_def)
  with run assms(2) show ?thesis by (auto simp: upload_one_def async_simps)
qed

lemma upload_parts_recover:
  assumes "recovers deps stored target key ct live burst"
  shows "live (us_world s) u \<Longrightarrow>
    \<exists>s'. upload_parts file key u landed deps (\<lambda>_. False) n c parts s = (Inr (), s') \<and> live (us_world s') u"
proof (induction parts arbitrary: c s)
  case (Cons part parts)
  obtain s1 where "upload_one file key u landed deps (\<lambda>_. False) part s = (Inr (), s1)" "live (us_world s1) u"
    using upload_one_recovers [OF assms Cons.prems] by blast
  with Cons.IH [of "s1\<lparr>us_progress := us_progress s1 @ [(c + 1, n)]\<rparr>" "c + 1"] show ?case
    by (simp add: async_simps onProgress_def)
qed (simp add: async_simps)

section \<open>Room for the session\<close>

definition room :: "jsstring \<Rightarrow> storage \<Rightarrow> bool" where
  "room key st \<longleftrightarrow> (\<forall>session. fst (saveSession key session st) = Inr ())"

lemma createUpload_recovers:
  assumes "recovers deps stored target key ct live burst" and "room key (us_storage s)"
  shows "\<exists>u s1. createUpload file key ct deps s = (Inr (u, Map.empty), s1) \<and> live (us_world s1) u"
proof -
  obtain r s1 where run: "createUpload file key ct deps s = (r, s1)" by force
  then show ?thesis
  proof (cases rule: createUploadE)
    case (none e)
    then show ?thesis using recovers_created [OF assms(1) none(3)] by blast
  next
    case (made u r1)
    then have "r1 = Inr ()" using assms(2) unfolding room_def by (metis fst_conv)
    moreover have "live (us_world s1) u" using recovers_created [OF assms(1) made(1)] by blast
    ultimately show ?thesis using run made(3) by simp
  qed
qed

lemma resume_recovers:
  assumes "recovers deps stored target key ct live burst" and "room key (us_storage s)"
  shows "\<exists>u landed s1. resumeOrCreateUpload file key ct deps s = (Inr (u, landed), s1) \<and> live (us_world s1) u"
proof -
  obtain r s1 where run: "resumeOrCreateUpload file key ct deps s = (r, s1)" by force
  then show ?thesis
  proof (cases rule: resumeE)
    case (resumed sess parts)
    with recovers_listed [OF assms(1) resumed(3)] run show ?thesis by simp
  next
    case (stale sess e t)
    then have "room key (us_storage t)" using assms(2) by simp
    from createUpload_recovers [OF assms(1) this, of "file"] stale(6) run show ?thesis by force
  next
    case fresh
    with run createUpload_recovers [OF assms, of "file"] show ?thesis by force
  qed
qed

text \<open>
  Without room for the session no large file can be uploaded, although the session only serves a later
  resumption, and a browser without local storage uploads well: the upload has been created in the
  store by then, and is left there.
\<close>

theorem full_storage_blocks_upload:
  assumes "us_storage s = Some ws" and "\<forall>items. \<not> ws_fits ws items"
    and "loadSession key (us_storage s) = None"
    and "createMultipartUploadD deps key ct (us_world s) = (Inr u, w')"
  shows "uploadFileMultipart file key ct deps signal s = Some (Inl QuotaExceededError, s\<lparr>us_world := w'\<rparr>)"
  using assms
  by (simp add: uploadFileMultipart_returns upload_with_plan_def resumeOrCreateUpload_def createUpload_def await_def
      remote_def save_session_def saveSession_def setItem_def)

section \<open>The upload arrives\<close>

lemma success_leaves:
  assumes "uploadFileMultipart file key ct deps signal s = Some (Inr (), s')"
  shows "loadSession key (us_storage s') = None
    \<and> us_progress s' = us_progress s @ map (\<lambda>i. (int i + 1, int (part_count (fl_size file) PART_SIZE_BYTES)))
        [0..<part_count (fl_size file) PART_SIZE_BYTES]"
proof -
  have "upload_with_plan file key ct deps (case signal of None \<Rightarrow> NEVER_ABORTS | Some sg \<Rightarrow> sg)
      (plan (fl_size file) PART_SIZE_BYTES) s = (Inr (), s')"
    using assms by (simp add: uploadFileMultipart_returns)
  then show ?thesis
  proof (cases rule: upload_with_planE)
    case (complete u landed s1 s2)
    with upload_parts_outcome [OF complete(2)] resume_progress [OF complete(1)] show ?thesis
      by (simp add: cancelled_def sessions.load_clear plan_length)
  qed simp_all
qed

lemma recovering_upload_succeeds:
  assumes "stores_parts deps blobSize stored target" and "recovers deps stored target key ct live burst"
    and "sound blobSize stored file key s" and "room key (us_storage s)" and "0 < fl_size file"
    and "\<forall>sg w. signal = Some sg \<longrightarrow> \<not> sg w"
  shows "\<exists>s'. uploadFileMultipart file key ct deps signal s = Some (Inr (), s')"
proof -
  have never: "(case signal of None \<Rightarrow> NEVER_ABORTS | Some sg \<Rightarrow> sg) = (\<lambda>_. False)"
    using assms(6) by (auto simp: NEVER_ABORTS_def fun_eq_iff split: option.splits)
  let ?parts = "plan (fl_size file) PART_SIZE_BYTES"
  obtain u landed s1 where res: "resumeOrCreateUpload file key ct deps s = (Inr (u, landed), s1)"
    "live (us_world s1) u"
    using resume_recovers [OF assms(2,4)] by blast
  obtain s2 where put: "upload_parts file key u landed deps (\<lambda>_. False) (int (length ?parts)) 0 ?parts s1 = (Inr (), s2)"
    "live (us_world s2) u"
    using upload_parts_recover [OF assms(2) res(2)] by blast
  have "?parts \<noteq> []" using assms(5) by (simp add: plan_def part_count_def PART_SIZE_BYTES_def)
  then have "stored (us_world s2) key u \<noteq> Map.empty"
    using parts_in_place [OF assms(1,3) res(1) put(1)] by (cases ?parts) auto
  with recovers_completes [OF assms(2) put(2)]
  have "fst (completeMultipartUploadD deps key u (us_world s2)) = Inr ()" by blast
  then show ?thesis
    using res(1) put(1)
    by (auto simp: uploadFileMultipart_returns never upload_with_plan_def async_simps remote_def clear_session_def await_def split: prod.splits)
qed

text \<open>
  An upload arrives in spite of a flaky network: if the network never fails three times in a row, the
  store keeps the parts it accepted, the local storage has room and nobody cancels, then the upload of
  a file that is not empty succeeds, after any history of earlier attempts and resumptions; it has then
  completed the bytes of the file, reported its progress from the first part to the last, and left no
  session behind.
\<close>

theorem flaky_upload_arrives:
  assumes "stores_parts deps (int \<circ> length) stored target" and "recovers deps stored target key ct live burst"
    and "fl_size file = int (length bytes)" and "fl_slice file = (\<lambda>a b. slice bytes a (Some b))" and "bytes \<noteq> []"
    and "loadSession key (us_storage s0) = None" and "history deps stored file key s0 s"
    and "room key (us_storage s)" and "\<forall>sg w. signal = Some sg \<longrightarrow> \<not> sg w"
  shows "\<exists>s' u w. uploadFileMultipart file key ct deps signal s = Some (Inr (), s')
    \<and> completeMultipartUploadD deps key u w = (Inr (), us_world s') \<and> assembled (stored w key u) = bytes
    \<and> loadSession key (us_storage s') = None
    \<and> us_progress s' = us_progress s @ map (\<lambda>i. (int i + 1, int (part_count (fl_size file) PART_SIZE_BYTES)))
        [0..<part_count (fl_size file) PART_SIZE_BYTES]"
proof -
  have "sound (int \<circ> length) stored file key s"
    by (rule history_sound [OF assms(1,7)]) (simp add: sound_def assms(6))
  then obtain s' where run: "uploadFileMultipart file key ct deps signal s = Some (Inr (), s')"
    using recovering_upload_succeeds [OF assms(1,2) _ assms(8) _ assms(9)] assms(3,5) by force
  with completed_bytes [OF assms(1,3,4,6,7) run] success_leaves [OF run] show ?thesis by blast
qed

text \<open>The shelf behind a network that loses two transfers before each one it carries.\<close>

definition on_shelf :: "('a, shelf) async \<Rightarrow> ('a, shelf \<times> nat) async" where
  "on_shelf m w = (case m (fst w) of (r, sh) \<Rightarrow> (r, (sh, snd w)))"

definition flaky_deps :: "(shelf \<times> nat, string) MultipartUploadDeps" where
  "flaky_deps =
     \<lparr>createMultipartUploadD = (\<lambda>k c. on_shelf (createMultipartUploadD shelf_deps k c)),
      getUploadPartUrlD = (\<lambda>k u n. on_shelf (getUploadPartUrlD shelf_deps k u n)),
      listUploadedPartsD = (\<lambda>k u. if k = js ''k'' \<and> u = js ''u'' then on_shelf (listUploadedPartsD shelf_deps k u)
        else throw (Error (js ''no such upload''))),
      completeMultipartUploadD = (\<lambda>k u. on_shelf (completeMultipartUploadD shelf_deps k u)),
      abortMultipartUploadD = (\<lambda>k u. on_shelf (abortMultipartUploadD shelf_deps k u)),
      putPartD = (\<lambda>url b w. if min 2 (snd w) = 0 then (case on_shelf (putPartD shelf_deps url b) w of (r, w') \<Rightarrow> (r, (fst w', 2)))
        else (Inl (Error (js ''timeout'')), (fst w, min 2 (snd w) - 1)))\<rparr>"

lemma flaky_stores: "stores_parts flaky_deps (int \<circ> length) (\<lambda>w. shelf_view (fst w)) shelf_target"
  using shelf_stores
  by (auto simp: stores_parts_def create_law_def url_law_def put_law_def list_law_def close_law_def flaky_deps_def
      on_shelf_def throw_def split: prod.splits if_splits)

lemma flaky_recovers:
  "recovers flaky_deps (\<lambda>w. shelf_view (fst w)) shelf_target (js ''k'') (js ''t'') (\<lambda>_ u. u = js ''u'') (\<lambda>w. min 2 (snd w))"
  by (auto simp: recovers_def flaky_deps_def on_shelf_def shelf_deps_def shelf_target_def
      BigInt_toString throw_def min_def split: prod.splits if_splits sum.splits)

definition flaky_tab :: "(shelf \<times> nat) upload_state" where
  "flaky_tab = \<lparr>us_world = ([], 2), us_storage = Some \<lparr>ws_items = Map.empty, ws_fits = (\<lambda>_. True)\<rparr>, us_progress = []\<rparr>"

theorem flaky_upload_arrives_witness:
  "\<exists>s' w. uploadFileMultipart abc_file (js ''k'') (js ''t'') flaky_deps None flaky_tab = Some (Inr (), s')
    \<and> (\<exists>u. assembled (shelf_view (fst w) (js ''k'') u) = ''abc'')"
proof -
  have "loadSession (js ''k'') (us_storage flaky_tab) = None" and "room (js ''k'') (us_storage flaky_tab)"
    by (simp_all add: flaky_tab_def loadSession_def room_def saveSession_def setItem_def)
  from flaky_upload_arrives [OF flaky_stores flaky_recovers _ _ _ this(1) history.start this(2), of abc_file "''abc''" None]
  show ?thesis by (auto simp: abc_file_def)
qed

end
