(* ===== verification/Upload_Delivery.thy ===== *)
theory Upload_Delivery
  imports Upload_Recovery Upload_Batch
begin

text \<open>
  That large files chosen on the browse page are delivered over a flaky network, through all layers: what
  the files service and the object store behind it document of an open upload (\<open>service_recovers\<close>) is
  passed on to the upload driver, which then succeeds, for one file after the other. The example is a store with multipart uploads
  for two keys, behind a network that loses two of three transfers.
\<close>

section \<open>A service that recovers\<close>










section \<open>The files are delivered\<close>










section \<open>A store behind a flaky network\<close>

text \<open>
  A store for two keys, with the parts put so far for each, the newest first, and the objects. The URL
  of a part is a number that names the part and, by being even or odd, the key. The network answers the
  first transfer with 503, loses the second and carries the third.
\<close>

record depot =
  dp_parts :: "jsstring \<Rightarrow> shelf"
  dp_objects :: "jsstring \<rightharpoonup> string"
  dp_bad :: nat

definition even_key :: jsstring where
  "even_key = js ''d/f''"

definition odd_key :: jsstring where
  "odd_key = js ''d/g''"


lemma keys_differ [simp]: "odd_key \<noteq> even_key" "even_key \<noteq> odd_key"
  by (simp_all add: even_key_def odd_key_def js_def)



definition depot_target :: "jsstring \<rightharpoonup> jsstring \<times> jsstring \<times> int" where
  "depot_target url =
     (case BigInt url of
        Inr m \<Rightarrow> Some (if even m then even_key else odd_key, js ''u'', m div 2)
      | Inl _ \<Rightarrow> None)"








definition depot_fetch :: "(string, depot) fetch" where
  "depot_fetch q w =
     (if 2 \<le> dp_bad w then (Inr 503, w\<lparr>dp_bad := 1\<rparr>)
      else if dp_bad w = 1 then (Inl (Error (js ''Failed to fetch'')), w\<lparr>dp_bad := 0\<rparr>)
      else case depot_target (pr_url q) of
        None \<Rightarrow> (Inr 404, w)
      | Some (k, _, n) \<Rightarrow>
          (Inr 200, w\<lparr>dp_parts := (dp_parts w)(k := (n, pr_body q) # dp_parts w k), dp_bad := 2\<rparr>))"














lemma depot_fetch_objects [simp]: "dp_objects (snd (depot_fetch q w)) = dp_objects w"
  by (simp add: depot_fetch_def split: option.splits)















end
