(* ===== verification/Upload_Steps.thy ===== *)
theory Upload_Steps
  imports Browser
begin

text \<open>
  The uploads of \<open>web/src/components/Browser.tsx\<close> over time. The mutation is started by choosing files and
  goes on while other events come in: progress reports, the end of a file, clicks on the cancel button,
  or another choice of files. The button that opens the file dialog is disabled while an upload
  is pending; the hidden input it clicks is not, so that a choice can also come while one is running.
\<close>

section \<open>State\<close>

text \<open>
  A run of the mutation has the files still to do, the first one being transferred, and the number of the
  controller whose signal that transfer was given, if it is a large file. The page has one reference to a
  controller, which every run replaces, and one status; \<open>up_statuses\<close> are the arguments of the calls of
  \<open>setUploadStatus\<close>, in order.
\<close>

record 'blob run =
  rn_left :: "'blob File list"
  rn_signal :: "nat option"

record 'blob uploads =
  up_runs :: "'blob run list"
  up_status :: "jsstring option"
  up_statuses :: "jsstring option list"
  up_controller :: nat
  up_aborted :: "nat set"
  up_error :: "js_error option"
  up_invalidated :: "query_key list"

definition initial_uploads :: "'blob uploads" where
  "initial_uploads = \<lparr>up_runs = [], up_status = None, up_statuses = [], up_controller = 0, up_aborted = {}, up_error = None,
     up_invalidated = []\<rparr>"

definition set_status :: "jsstring option \<Rightarrow> 'blob uploads \<Rightarrow> 'blob uploads" where
  "set_status st s = s\<lparr>up_status := st, up_statuses := up_statuses s @ [st]\<rparr>"

text \<open>\<open>isPending\<close> is that of the run started last, which is the one the hook follows.\<close>

definition is_pending :: "'blob uploads \<Rightarrow> bool" where
  "is_pending s \<longleftrightarrow> up_runs s \<noteq> [] \<and> rn_left (last (up_runs s)) \<noteq> []"

section \<open>Steps\<close>

text \<open>The turn of the loop for the first file that is left, up to its first await; then the end.\<close>

definition begin_file :: "nat \<Rightarrow> 'blob uploads \<Rightarrow> 'blob uploads" where
  "begin_file i s =
     (let run = up_runs s ! i in
      case rn_left run of
        [] \<Rightarrow> (set_status None s)\<lparr>up_runs := (up_runs s)[i := run\<lparr>rn_signal := None\<rparr>],
               up_invalidated := up_invalidated s @ directory_changed_keys\<rparr>
      | f # _ \<Rightarrow>
          if MULTIPART_THRESHOLD_BYTES \<le> fl_size (file_like f)
          then (set_status (Some (js ''Uploading '' @ file_name f @ ellipsis)) s)
                 \<lparr>up_runs := (up_runs s)[i := run\<lparr>rn_signal := Some (up_controller s)\<rparr>]\<rparr>
          else s\<lparr>up_runs := (up_runs s)[i := run\<lparr>rn_signal := None\<rparr>]\<rparr>)"

definition choose_files :: "'blob File list \<Rightarrow> 'blob uploads \<Rightarrow> 'blob uploads" where
  "choose_files files s =
     (if files = [] then s
      else begin_file (length (up_runs s))
        (s\<lparr>up_runs := up_runs s @ [\<lparr>rn_left = files, rn_signal = None\<rparr>],
           up_controller := Suc (up_controller s), up_error := None\<rparr>))"

definition part_done :: "nat \<Rightarrow> int \<times> int \<Rightarrow> 'blob uploads \<Rightarrow> 'blob uploads" where
  "part_done i p s =
     (if i < length (up_runs s) \<and> rn_signal (up_runs s ! i) \<noteq> None
      then set_status (Some (progress_status (hd (rn_left (up_runs s ! i))) p)) s else s)"

definition file_done :: "nat \<Rightarrow> 'blob uploads \<Rightarrow> 'blob uploads" where
  "file_done i s =
     (if i < length (up_runs s) \<and> rn_left (up_runs s ! i) \<noteq> []
      then begin_file i (s\<lparr>up_runs := (up_runs s)[i := (up_runs s ! i)\<lparr>rn_left := tl (rn_left (up_runs s ! i))\<rparr>]\<rparr>)
      else s)"

text \<open>The error of a file ends its run; only the error of the run the hook follows is shown.\<close>

definition file_failed :: "nat \<Rightarrow> js_error \<Rightarrow> 'blob uploads \<Rightarrow> 'blob uploads" where
  "file_failed i e s =
     (if i < length (up_runs s) \<and> rn_left (up_runs s ! i) \<noteq> []
      then (set_status None s)\<lparr>up_runs := (up_runs s)[i := \<lparr>rn_left = [], rn_signal = None\<rparr>],
             up_error := (if Suc i = length (up_runs s) then Some e else up_error s)\<rparr>
      else s)"

text \<open>The cancel button is there while a status is shown, and aborts the controller of the reference.\<close>

definition cancel_shown :: "'blob uploads \<Rightarrow> bool" where
  "cancel_shown s \<longleftrightarrow> (case up_status s of None \<Rightarrow> False | Some st \<Rightarrow> st \<noteq> [])"

definition click_cancel :: "'blob uploads \<Rightarrow> 'blob uploads" where
  "click_cancel s = (if cancel_shown s then s\<lparr>up_aborted := insert (up_controller s) (up_aborted s)\<rparr> else s)"

text \<open>What can happen when files are chosen through the button only.\<close>

inductive orderly :: "'blob uploads \<Rightarrow> bool" where
  initial: "orderly initial_uploads"
| choose: "orderly s \<Longrightarrow> \<not> is_pending s \<Longrightarrow> orderly (choose_files files s)"
| part: "orderly s \<Longrightarrow> orderly (part_done i p s)"
| finished: "orderly s \<Longrightarrow> orderly (file_done i s)"
| failed: "orderly s \<Longrightarrow> orderly (file_failed i e s)"
| cancel: "orderly s \<Longrightarrow> orderly (click_cancel s)"

section \<open>The invariant\<close>

definition at_rest :: "'blob run \<Rightarrow> bool" where
  "at_rest r \<longleftrightarrow> rn_left r = [] \<and> rn_signal r = None"

text \<open>
  All runs but the last have ended. A large file of the last is transferred under the current controller
  and a status is shown; when the last run has ended none is.
\<close>

definition uploads_inv :: "'blob uploads \<Rightarrow> bool" where
  "uploads_inv s \<longleftrightarrow>
     list_all at_rest (butlast (up_runs s))
   \<and> (up_runs s \<noteq> [] \<longrightarrow> rn_signal (last (up_runs s)) \<in> {None, Some (up_controller s)}
        \<and> (rn_signal (last (up_runs s)) \<noteq> None \<longrightarrow> cancel_shown s \<and> rn_left (last (up_runs s)) \<noteq> []))
   \<and> (\<not> is_pending s \<longrightarrow> up_status s = None)
   \<and> up_aborted s \<subseteq> {..up_controller s}"

lemma status_texts [simp]: "js ''Uploading '' @ x \<noteq> []" "progress_status f p \<noteq> []"
  by (simp_all add: progress_status_def js_def)

lemma begin_last_inv:
  assumes "up_runs s = rs @ [r]" and "list_all at_rest rs" and "up_aborted s \<subseteq> {..up_controller s}"
  shows "uploads_inv (begin_file (length rs) s)"
  using assms
  by (auto simp: set_status_def begin_file_def Let_def uploads_inv_def is_pending_def cancel_shown_def nth_append list_update_append
      split: list.splits)

text \<open>Only the last run can be under way.\<close>

lemma busy_last:
  assumes "uploads_inv s" and "i < length (up_runs s)"
    and "rn_left (up_runs s ! i) \<noteq> [] \<or> rn_signal (up_runs s ! i) \<noteq> None"
  obtains rs where "up_runs s = rs @ [up_runs s ! i]" and "i = length rs" and "list_all at_rest rs"
proof -
  obtain rs r where runs: "up_runs s = rs @ [r]" using assms(2) by (cases "up_runs s" rule: rev_cases) auto
  have rest: "list_all at_rest rs" using assms(1) runs by (simp add: uploads_inv_def)
  have "i = length rs"
  proof (rule ccontr)
    assume "i \<noteq> length rs"
    then have "i < length rs" "up_runs s ! i = rs ! i" using assms(2) runs by (auto simp: nth_append)
    with rest have "at_rest (up_runs s ! i)" by (simp add: list_all_length)
    with assms(3) show False by (simp add: at_rest_def)
  qed
  with runs rest that show thesis by simp
qed

lemma initial_inv: "uploads_inv initial_uploads"
  by (simp add: uploads_inv_def initial_uploads_def is_pending_def)

lemma choose_files_inv:
  assumes "uploads_inv s" and "\<not> is_pending s"
  shows "uploads_inv (choose_files files s)"
proof (cases "files = []")
  case False
  have "list_all at_rest (up_runs s)"
    using assms by (cases "up_runs s" rule: rev_cases) (auto simp: uploads_inv_def is_pending_def at_rest_def)
  then have "uploads_inv (begin_file (length (up_runs s))
      (s\<lparr>up_runs := up_runs s @ [\<lparr>rn_left = files, rn_signal = None\<rparr>],
         up_controller := Suc (up_controller s), up_error := None\<rparr>))"
    using assms(1) by (intro begin_last_inv) (auto simp: uploads_inv_def)
  with False show ?thesis by (simp add: choose_files_def)
qed (simp add: choose_files_def assms(1))

lemma part_done_inv:
  assumes "uploads_inv s"
  shows "uploads_inv (part_done i p s)"
proof (cases "i < length (up_runs s) \<and> rn_signal (up_runs s ! i) \<noteq> None")
  case True
  then obtain rs where "up_runs s = rs @ [up_runs s ! i]"
    using busy_last [OF assms] by blast
  then have "up_runs s \<noteq> []" "last (up_runs s) = up_runs s ! i" by (metis append_is_Nil_conv list.distinct(1), metis last_snoc)
  with True assms show ?thesis
    by (auto simp: set_status_def part_done_def uploads_inv_def is_pending_def cancel_shown_def)
qed (auto simp: part_done_def assms)

lemma file_done_inv:
  assumes "uploads_inv s"
  shows "uploads_inv (file_done i s)"
proof (cases "i < length (up_runs s) \<and> rn_left (up_runs s ! i) \<noteq> []")
  case True
  then obtain rs where rs: "up_runs s = rs @ [up_runs s ! i]" "i = length rs" "list_all at_rest rs"
    using busy_last [OF assms] by blast
  define r where "r = (up_runs s ! i)\<lparr>rn_left := tl (rn_left (up_runs s ! i))\<rparr>"
  have "(up_runs s)[i := r] = rs @ [r]" using rs(1,2) by (metis list_update_length)
  then have "uploads_inv (begin_file (length rs) (s\<lparr>up_runs := (up_runs s)[i := r]\<rparr>))"
    using assms by (intro begin_last_inv [OF _ rs(3)]) (simp_all add: uploads_inv_def)
  with True rs(2) show ?thesis by (simp add: file_done_def r_def)
qed (auto simp: file_done_def assms)

lemma file_failed_inv:
  assumes "uploads_inv s"
  shows "uploads_inv (file_failed i e s)"
proof (cases "i < length (up_runs s) \<and> rn_left (up_runs s ! i) \<noteq> []")
  case True
  then obtain rs where rs: "up_runs s = rs @ [up_runs s ! i]" "i = length rs" "list_all at_rest rs"
    using busy_last [OF assms] by blast
  then have "(up_runs s)[i := \<lparr>rn_left = [], rn_signal = None\<rparr>] = rs @ [\<lparr>rn_left = [], rn_signal = None\<rparr>]"
    by (metis list_update_length)
  with True rs assms show ?thesis by (simp add: set_status_def file_failed_def uploads_inv_def is_pending_def)
qed (auto simp: file_failed_def assms)

lemma click_cancel_inv: "uploads_inv s \<Longrightarrow> uploads_inv (click_cancel s)"
  by (auto simp: click_cancel_def uploads_inv_def is_pending_def cancel_shown_def)

lemma orderly_inv: "orderly s \<Longrightarrow> uploads_inv s"
  by (induction rule: orderly.induct)
    (simp_all add: initial_inv choose_files_inv part_done_inv file_done_inv file_failed_inv click_cancel_inv)

section \<open>Properties\<close>

text \<open>
  C8. The cancel button stops the upload it stands next to: as long as files are chosen through the
  button, however progress, ends, failures and clicks interleave, a large file that is being transferred
  belongs to the run started last, the cancel button is there, and clicking it aborts the very signal
  this transfer was given and no other; when no upload is pending there is no status and no button;
  and an upload that starts is never under a signal that was aborted before.
\<close>

theorem cancel_reaches_transfer:
  assumes "orderly s"
  shows "(\<forall>i n. i < length (up_runs s) \<longrightarrow> rn_signal (up_runs s ! i) = Some n \<longrightarrow>
      Suc i = length (up_runs s) \<and> cancel_shown s \<and> up_aborted (click_cancel s) = insert n (up_aborted s))
    \<and> (\<not> is_pending s \<longrightarrow> up_status s = None \<and> \<not> cancel_shown s \<and> click_cancel s = s)
    \<and> (files \<noteq> [] \<longrightarrow> up_controller (choose_files files s) \<notin> up_aborted (choose_files files s))"
proof (intro conjI allI impI)
  note inv = orderly_inv [OF assms]
  fix i n
  assume i: "i < length (up_runs s)" and n: "rn_signal (up_runs s ! i) = Some n"
  then obtain rs where rs: "up_runs s = rs @ [up_runs s ! i]" "i = length rs"
    using busy_last [OF inv] by blast
  then show "Suc i = length (up_runs s)" by (metis length_append_singleton)
  have last: "up_runs s \<noteq> []" "last (up_runs s) = up_runs s ! i" using i rs(1) by (auto, metis last_snoc)
  with inv n show "cancel_shown s" by (simp add: uploads_inv_def)
  with inv n last show "up_aborted (click_cancel s) = insert n (up_aborted s)"
    by (simp add: uploads_inv_def click_cancel_def)
next
  assume "\<not> is_pending s"
  with orderly_inv [OF assms] show "up_status s = None" "\<not> cancel_shown s" "click_cancel s = s"
    by (simp_all add: uploads_inv_def cancel_shown_def click_cancel_def)
next
  assume "files \<noteq> []"
  with orderly_inv [OF assms] show "up_controller (choose_files files s) \<notin> up_aborted (choose_files files s)"
    by (auto simp: uploads_inv_def choose_files_def set_status_def begin_file_def Let_def split: list.splits)
qed

definition sized_file :: "jsstring \<Rightarrow> int \<Rightarrow> unit File" where
  "sized_file name n =
     \<lparr>file_like = \<lparr>fl_name = name, fl_size = n, fl_lastModified = 0, fl_slice = (\<lambda>_ _. ())\<rparr>,
      file_type = [], file_body = ()\<rparr>"

abbreviation large_file :: "unit File" where
  "large_file \<equiv> sized_file (js ''v'') MULTIPART_THRESHOLD_BYTES"

lemma large_file_chosen:
  "up_runs (choose_files [large_file] initial_uploads) = [\<lparr>rn_left = [large_file], rn_signal = Some 1\<rparr>]"
  by (simp add: choose_files_def set_status_def begin_file_def initial_uploads_def sized_file_def)

theorem cancel_reaches_transfer_witness:
  "cancel_shown (choose_files [large_file] initial_uploads)
    \<and> up_aborted (click_cancel (choose_files [large_file] initial_uploads)) = {1}"
proof -
  let ?s = "choose_files [large_file] initial_uploads"
  have "orderly ?s" by (intro orderly.choose orderly.initial) (simp add: is_pending_def initial_uploads_def)
  from cancel_reaches_transfer [OF this, THEN conjunct1, rule_format, of 0 1] large_file_chosen
  have "cancel_shown ?s" "up_aborted (click_cancel ?s) = insert 1 (up_aborted ?s)" by simp_all
  moreover have "up_aborted ?s = {}"
    by (simp add: choose_files_def set_status_def begin_file_def initial_uploads_def sized_file_def)
  ultimately show ?thesis by simp
qed

text \<open>
  The hidden input is not disabled while an upload is pending. When files are chosen through it a second
  time, the button only aborts the second upload, and once that has ended there is no button at all,
  while the first large file is still being transferred.
\<close>

theorem second_upload_hides_first:
  assumes "MULTIPART_THRESHOLD_BYTES \<le> fl_size (file_like f)" and "MULTIPART_THRESHOLD_BYTES \<le> fl_size (file_like g)"
  defines "s \<equiv> choose_files [g] (choose_files [f] initial_uploads)"
  shows "rn_signal (up_runs s ! 0) = Some 1 \<and> up_aborted (click_cancel s) = {2}
    \<and> rn_signal (up_runs (file_done 1 s) ! 0) = Some 1 \<and> rn_left (up_runs (file_done 1 s) ! 0) = [f]
    \<and> \<not> cancel_shown (file_done 1 s)"
  using assms(1,2)
  by (simp add: s_def choose_files_def set_status_def begin_file_def initial_uploads_def click_cancel_def cancel_shown_def file_done_def)

text \<open>
  A small file does not set the status: the one of the large file before it stays, up to the end, with a
  cancel button that does not stop the small file, which was given no signal.
\<close>

theorem small_file_keeps_status:
  assumes "MULTIPART_THRESHOLD_BYTES \<le> fl_size (file_like f)" and "fl_size (file_like g) < MULTIPART_THRESHOLD_BYTES"
  defines "s \<equiv> file_done 0 (part_done 0 (2, 2) (choose_files [f, g] initial_uploads))"
  shows "rn_left (up_runs s ! 0) = [g] \<and> rn_signal (up_runs s ! 0) = None
    \<and> up_status s = Some (progress_status f (2, 2)) \<and> cancel_shown s"
  using assms(1,2)
  by (simp add: s_def choose_files_def set_status_def begin_file_def initial_uploads_def part_done_def file_done_def cancel_shown_def)

end
