(* ===== verification/Upload_Runs.thy ===== *)
theory Upload_Runs
  imports Upload_Steps
begin

text \<open>
  A check of the model itself: the two descriptions of an upload agree. \<open>run_upload\<close>, which awaits each
  call in one step, is what the step machine of \<open>Upload_Steps\<close> does when a choice of files is followed by
  the events of its own run only: the same statuses in the same order, the same error, the same
  invalidated queries and the same controller.
\<close>

section \<open>Runs of the step machine\<close>

datatype run_step =
    Part_done "int \<times> int"
  | File_done
  | File_failed js_error

text \<open>The events of the run with number \<open>i\<close>.\<close>

fun run_event :: "nat \<Rightarrow> run_step \<Rightarrow> 'blob uploads \<Rightarrow> 'blob uploads" where
  "run_event i (Part_done p) u = part_done i p u"
| "run_event i File_done u = file_done i u"
| "run_event i (File_failed e) u = file_failed i e u"

definition run_events :: "nat \<Rightarrow> run_step list \<Rightarrow> 'blob uploads \<Rightarrow> 'blob uploads" where
  "run_events i es u = fold (run_event i) es u"

lemma run_events_simps [simp]:
  "run_events i [] u = u"
  "run_events i (e # es) u = run_events i es (run_event i e u)"
  "run_events i (es @ es') u = run_events i es' (run_events i es u)"
  by (simp_all add: run_events_def)

section \<open>The same page\<close>

definition same_page :: "'w browser_state \<Rightarrow> 'blob uploads \<Rightarrow> bool" where
  "same_page s u \<longleftrightarrow> bs_uploadStatus s = up_status u \<and> bs_statuses s = up_statuses u
     \<and> bs_controller s = up_controller u \<and> bs_uploadError s = up_error u \<and> bs_invalidated s = up_invalidated u"

lemma same_page_status: "same_page s u \<Longrightarrow> same_page (setUploadStatus st s) (set_status st u)"
  by (simp add: same_page_def setUploadStatus_def set_status_def)

lemma same_page_upload [simp]: "same_page (s\<lparr>bs_upload := w\<rparr>) u = same_page s u"
  and same_page_runs [simp]: "same_page s (u\<lparr>up_runs := rs\<rparr>) = same_page s u"
  by (simp_all add: same_page_def)

text \<open>A run that is the last one, under way with the files \<open>fs\<close>.\<close>

definition under_way :: "'blob run list \<Rightarrow> 'blob File list \<Rightarrow> nat option \<Rightarrow> 'blob uploads \<Rightarrow> bool" where
  "under_way rs fs sig u \<longleftrightarrow> up_runs u = rs @ [\<lparr>rn_left = fs, rn_signal = sig\<rparr>]"

lemma parts_run:
  assumes "under_way rs (f # fs) (Some n) u" and "same_page s u"
  shows "under_way rs (f # fs) (Some n) (run_events (length rs) (map Part_done ps) u)
    \<and> same_page (foldl (\<lambda>t p. setUploadStatus (Some (progress_status f p)) t) s ps)
        (run_events (length rs) (map Part_done ps) u)"
  using assms
proof (induction ps arbitrary: s u)
  case (Cons p ps)
  let ?u = "part_done (length rs) p u"
  have "?u = set_status (Some (progress_status f p)) u"
    using Cons.prems(1) by (simp add: part_done_def under_way_def)
  then have "under_way rs (f # fs) (Some n) ?u" "same_page (setUploadStatus (Some (progress_status f p)) s) ?u"
    using Cons.prems same_page_status by (auto simp: under_way_def set_status_def)
  from Cons.IH [OF this] show ?case by simp
qed simp

text \<open>The transfer of the first file, from the turn of the loop to its outcome.\<close>

lemma file_run:
  assumes "under_way rs (f # fs) sig u" and "same_page s u"
    and "upload_file calls fetch aborted dir f s = Some (r, s')"
  shows "\<exists>es sig'. under_way rs (f # fs) sig' (run_events (length rs) es (begin_file (length rs) u))
    \<and> same_page s' (run_events (length rs) es (begin_file (length rs) u))"
proof (cases "MULTIPART_THRESHOLD_BYTES \<le> fl_size (file_like f)")
  case True
  let ?s1 = "setUploadStatus (Some (js ''Uploading '' @ file_name f @ ellipsis)) s"
  obtain u' where s': "s' = foldl (\<lambda>t p. setUploadStatus (Some (progress_status f p)) t) (?s1\<lparr>bs_upload := u'\<rparr>)
      (drop (length (us_progress (bs_upload ?s1))) (us_progress u'))"
    using True assms(3) by (auto simp: upload_file_def upload_large_def Let_def split: option.splits)
  have "under_way rs (f # fs) (Some (up_controller u)) (begin_file (length rs) u)"
    using True assms(1) by (simp add: begin_file_def under_way_def set_status_def)
  moreover have "same_page (?s1\<lparr>bs_upload := u'\<rparr>) (begin_file (length rs) u)"
    using True assms(1) same_page_status [OF assms(2)] by (simp add: begin_file_def under_way_def)
  ultimately show ?thesis unfolding s' using parts_run by blast
next
  case False
  then have "under_way rs (f # fs) None (begin_file (length rs) u)"
    using assms(1) by (simp add: begin_file_def under_way_def)
  moreover have "same_page s' (begin_file (length rs) u)"
    using False assms by (auto simp: begin_file_def under_way_def upload_file_def on_upload_def split: prod.splits)
  ultimately show ?thesis by (intro exI [of _ "[]"]) auto
qed

section \<open>The whole loop\<close>

text \<open>What the mutation does when its loop has ended: \<open>finally\<close>, then the success callback or the error.\<close>

definition settle_upload :: "unit outcome \<Rightarrow> 'w browser_state \<Rightarrow> 'w browser_state" where
  "settle_upload r s =
     (let s' = setUploadStatus None s in
      case r of
        Inl e \<Rightarrow> s'\<lparr>bs_uploadError := Some e\<rparr>
      | Inr _ \<Rightarrow> s'\<lparr>bs_invalidated := bs_invalidated s' @ directory_changed_keys\<rparr>)"

lemma run_upload_settles:
  "run_upload calls fetch aborted path files s =
    map_option (\<lambda>(r, s'). settle_upload r s') (upload_files calls fetch aborted (normalizeUploadPath path) files
      (s\<lparr>bs_controller := Suc (bs_controller s), bs_uploadError := None\<rparr>))"
  by (simp add: run_upload_def settle_upload_def Let_def split: option.splits prod.splits)

lemma files_run:
  assumes "under_way rs files sig u" and "same_page s u"
    and "upload_files calls fetch aborted dir files s = Some (r, s')"
  shows "\<exists>es sig'. under_way rs [] sig' (run_events (length rs) es (begin_file (length rs) u))
    \<and> same_page (settle_upload r s') (run_events (length rs) es (begin_file (length rs) u))"
  using assms
proof (induction files arbitrary: s u sig)
  case Nil
  then show ?case
    by (intro exI [of _ "[]"])
      (auto simp: begin_file_def under_way_def settle_upload_def same_page_def set_status_def setUploadStatus_def)
next
  case (Cons f fs)
  obtain r1 s1 where one: "upload_file calls fetch aborted dir f s = Some (r1, s1)"
    using Cons.prems(3) by (auto split: option.splits)
  obtain es sig' where u1: "under_way rs (f # fs) sig' (run_events (length rs) es (begin_file (length rs) u))"
    "same_page s1 (run_events (length rs) es (begin_file (length rs) u))"
    using file_run [OF Cons.prems(1,2) one] by blast
  let ?u1 = "run_events (length rs) es (begin_file (length rs) u)"
  show ?case
  proof (cases r1)
    case (Inl e)
    then have "r = Inl e" "s' = s1" using one Cons.prems(3) by simp_all
    then have "under_way rs [] None (file_failed (length rs) e ?u1)"
      "same_page (settle_upload r s') (file_failed (length rs) e ?u1)"
      using u1 by (simp_all add: file_failed_def under_way_def settle_upload_def same_page_def set_status_def
          setUploadStatus_def)
    then show ?thesis by (intro exI [of _ "es @ [File_failed e]"] exI [of _ None]) simp
  next
    case (Inr x)
    let ?u2 = "?u1\<lparr>up_runs := rs @ [\<lparr>rn_left = fs, rn_signal = sig'\<rparr>]\<rparr>"
    have "file_done (length rs) ?u1 = begin_file (length rs) ?u2"
      using u1(1) by (simp add: file_done_def under_way_def)
    moreover have "upload_files calls fetch aborted dir fs s1 = Some (r, s')" using one Inr Cons.prems(3) by simp
    then obtain es' sig'' where "under_way rs [] sig'' (run_events (length rs) es' (begin_file (length rs) ?u2))"
      "same_page (settle_upload r s') (run_events (length rs) es' (begin_file (length rs) ?u2))"
      using Cons.IH [of sig' ?u2 s1] u1(2) by (auto simp: under_way_def)
    ultimately show ?thesis by (intro exI [of _ "es @ File_done # es'"] exI [of _ sig'']) simp
  qed
qed

section \<open>The two descriptions agree\<close>

text \<open>
  An upload that is awaited in one step is a run of the step machine: from a page in the same state,
  choosing the files and then some events of that run, reports, ends and at most one failure of its
  files, lead to the page the atomic upload ends with: the same statuses were set in the same order, the
  same error is shown, the same queries were invalidated, the controller is the same, and the run is over.
\<close>

theorem atomic_upload_is_run:
  assumes "same_page s u" and "files \<noteq> []"
  shows "\<exists>s' es. run_upload calls fetch aborted path files s = Some s'
    \<and> same_page s' (run_events (length (up_runs u)) es (choose_files files u))
    \<and> \<not> is_pending (run_events (length (up_runs u)) es (choose_files files u))
    \<and> butlast (up_runs (run_events (length (up_runs u)) es (choose_files files u))) = up_runs u"
proof -
  let ?s0 = "s\<lparr>bs_controller := Suc (bs_controller s), bs_uploadError := None\<rparr>"
  let ?u0 = "u\<lparr>up_runs := up_runs u @ [\<lparr>rn_left = files, rn_signal = None\<rparr>], up_controller := Suc (up_controller u),
    up_error := None\<rparr>"
  obtain r s1 where run: "upload_files calls fetch aborted (normalizeUploadPath path) files ?s0 = Some (r, s1)"
    using upload_files_run [of calls fetch aborted "normalizeUploadPath path" files ?s0] by blast
  have "under_way (up_runs u) files None ?u0" and "same_page ?s0 ?u0"
    using assms(1) by (simp_all add: under_way_def same_page_def)
  from files_run [OF this run] obtain es sig where
    "under_way (up_runs u) [] sig (run_events (length (up_runs u)) es (choose_files files u))"
    "same_page (settle_upload r s1) (run_events (length (up_runs u)) es (choose_files files u))"
    using assms(2) by (auto simp: choose_files_def)
  with run show ?thesis
    by (intro exI [of _ "settle_upload r s1"] exI [of _ es])
      (simp add: run_upload_settles under_way_def is_pending_def)
qed

text \<open>A page whose calls all fail, and a large file chosen on it.\<close>

definition no_call :: "'a \<Rightarrow> ('b, unit) async" where
  "no_call x = throw (Error (js ''offline''))"

definition offline_calls :: "unit upload_calls" where
  "offline_calls =
     \<lparr>uc_createMultipartUpload = no_call, uc_getUploadPartUrl = no_call, uc_listUploadedParts = no_call,
      uc_completeMultipartUpload = no_call, uc_abortMultipartUpload = no_call, uc_getUploadUrl = no_call,
      uc_commitUpload = no_call\<rparr>"

definition offline_page :: "unit browser_state" where
  "offline_page = \<lparr>bs_upload = \<lparr>us_world = (), us_storage = None, us_progress = []\<rparr>, bs_uploadStatus = None,
     bs_statuses = [], bs_controller = 0, bs_uploadError = None, bs_invalidated = []\<rparr>"

theorem atomic_upload_is_run_witness:
  "\<exists>s' es. run_upload offline_calls no_call (\<lambda>_ _. False) [] [large_file] offline_page = Some s'
    \<and> same_page s' (run_events 0 es (choose_files [large_file] initial_uploads))"
proof -
  have "same_page offline_page (initial_uploads :: unit uploads)"
    by (simp add: same_page_def offline_page_def initial_uploads_def)
  from atomic_upload_is_run [OF this, of "[large_file]" offline_calls no_call "\<lambda>_ _. False" "[]"]
  show ?thesis by (auto simp: initial_uploads_def)
qed

end
