(* ===== verification/Status_Poller.thy ===== *)
theory Status_Poller
  imports Impl
begin

text \<open>
  The poller of \<open>web/src/lib/useFileStatusPoller.ts\<close>. One tick of its interval reads the pages of
  the latest render, asks for the statuses of the files whose preview is not settled, and patches the
  answers into the query cache. The cache is a map from query keys to the pages of an infinite
  query; the call of the server function and the cache are the two parts of the state.
\<close>

section \<open>State\<close>

text \<open>\<open>HasFiles\<close>: a page, of which the poller reads and writes the files only.\<close>

record 'x page =
  pg_files :: "FileDto list"
  pg_rest :: 'x

text \<open>A cache entry is undefined, or an object with pages.\<close>

type_synonym ('k, 'x) query_cache = "'k \<rightharpoonup> 'x page list"

record ('w, 'k, 'x) poll_state =
  ps_world :: 'w
  ps_cache :: "('k, 'x) query_cache"

section \<open>One tick\<close>

definition unsettled :: "PreviewStatus \<Rightarrow> bool" where
  "unsettled st \<longleftrightarrow> st = PREVIEW_PENDING \<or> st = PREVIEW_PROCESSING"

definition pendingIds :: "'x page list option \<Rightarrow> jsstring list" where
  "pendingIds pages =
     (case pages of
        None \<Rightarrow> []
      | Some ps \<Rightarrow> concat (map (\<lambda>p. map fd_id (filter (\<lambda>f. unsettled (fd_previewStatus f)) (pg_files p))) ps))"

definition byId :: "FilePreviewStatusDto list \<Rightarrow> jsstring \<rightharpoonup> PreviewStatus \<times> jsstring option" where
  "byId res = js_Map (map (\<lambda>s. (psd_id s, (psd_previewStatus s, psd_previewUrl s))) res)"

definition patch_file ::
  "(jsstring \<rightharpoonup> PreviewStatus \<times> jsstring option) \<Rightarrow> FileDto \<Rightarrow> FileDto" where
  "patch_file m file =
     (case m (fd_id file) of
        None \<Rightarrow> file
      | Some (st, url) \<Rightarrow>
          file\<lparr>fd_previewStatus := st,
               fd_previewUrl := (case url of None \<Rightarrow> fd_previewUrl file | Some u \<Rightarrow> Some u)\<rparr>)"

definition patch_pages ::
  "(jsstring \<rightharpoonup> PreviewStatus \<times> jsstring option) \<Rightarrow> 'x page list \<Rightarrow> 'x page list" where
  "patch_pages m pages = map (\<lambda>p. p\<lparr>pg_files := map (patch_file m) (pg_files p)\<rparr>) pages"

text \<open>\<open>setQueryData(key, updater)\<close>; the updater returns an absent entry as it is.\<close>

definition setQueryData ::
  "'k \<Rightarrow> ('x page list \<Rightarrow> 'x page list) \<Rightarrow> ('k, 'x) query_cache \<Rightarrow> ('k, 'x) query_cache" where
  "setQueryData key f cache = cache(key := map_option f (cache key))"

definition poll_tick ::
  "(jsstring list \<Rightarrow> (FilePreviewStatusDto list, 'w) async) \<Rightarrow> 'x page list option \<Rightarrow> 'k \<Rightarrow>
     (unit, ('w, 'k, 'x) poll_state) async" where
  "poll_tick getFilePreviewStatuses pages queryKey s =
     (let ids = pendingIds pages in
      if ids = [] then (Inr (), s)
      else (case getFilePreviewStatuses ids (ps_world s) of
              (Inl e, w') \<Rightarrow> (Inr (), s\<lparr>ps_world := w'\<rparr>)
            | (Inr res, w') \<Rightarrow>
                (Inr (), s\<lparr>ps_world := w',
                           ps_cache := setQueryData queryKey (patch_pages (byId res)) (ps_cache s)\<rparr>)))"

section \<open>Facts\<close>

lemma patch_file_other: "m (fd_id f) = None \<Longrightarrow> patch_file m f = f"
  by (simp add: patch_file_def)

lemma patch_file_answered:
  "m (fd_id f) = Some (st, url) \<Longrightarrow> fd_previewStatus (patch_file m f) = st
    \<and> fd_previewUrl (patch_file m f) = (if url = None then fd_previewUrl f else url)"
  by (auto simp: patch_file_def split: option.splits)

text \<open>Everything of a file but its preview status and URL.\<close>

definition rest_of_file :: "FileDto \<Rightarrow> FileDto" where
  "rest_of_file f = f\<lparr>fd_previewStatus := PREVIEW_UNSPECIFIED, fd_previewUrl := None\<rparr>"

definition rest_of_page :: "'x page \<Rightarrow> 'x page" where
  "rest_of_page p = p\<lparr>pg_files := map rest_of_file (pg_files p)\<rparr>"

lemma patch_file_rest [simp]: "rest_of_file (patch_file m f) = rest_of_file f"
  by (simp add: rest_of_file_def patch_file_def split: option.splits prod.splits)

lemma patch_pages_rest [simp]: "map rest_of_page (patch_pages m ps) = map rest_of_page ps"
  by (simp add: rest_of_page_def patch_pages_def comp_def)

lemma patch_pages_files:
  "concat (map pg_files (patch_pages m ps)) = map (patch_file m) (concat (map pg_files ps))"
  by (simp add: patch_pages_def comp_def map_concat)

lemma pendingIds_files:
  "pendingIds (Some ps) =
    map fd_id (filter (\<lambda>f. unsettled (fd_previewStatus f)) (concat (map pg_files ps)))"
  by (simp add: pendingIds_def filter_concat map_concat comp_def)

lemma patch_file_keeps_url:
  "fd_previewUrl f = Some u \<Longrightarrow> \<exists>v. fd_previewUrl (patch_file m f) = Some v"
  by (auto simp: patch_file_def split: option.splits)

lemma patch_file_id [simp]: "fd_id (patch_file m f) = fd_id f"
  by (simp add: patch_file_def split: option.splits prod.splits)

section \<open>Properties\<close>

text \<open>
  A tick is safe: it never throws; with nothing unsettled it makes no call; a failed call
  leaves the cache as it is; and an answer changes nothing but preview statuses and URLs of files
  in the entry of the query key. No page or file is added, dropped or moved, no URL is lost, no
  other entry is touched, an absent entry stays absent.
\<close>

theorem poll_tick_safe:
  assumes "poll_tick call pages key s = (r, s')"
  shows "r = Inr ()
    \<and> (pendingIds pages = [] \<longrightarrow> s' = s)
    \<and> (\<forall>e. fst (call (pendingIds pages) (ps_world s)) = Inl e \<longrightarrow> ps_cache s' = ps_cache s)
    \<and> (\<forall>k. map_option (map rest_of_page) (ps_cache s' k) = map_option (map rest_of_page) (ps_cache s k))
    \<and> (\<forall>k. k \<noteq> key \<longrightarrow> ps_cache s' k = ps_cache s k)
    \<and> (\<forall>ps ps' i. ps_cache s key = Some ps \<longrightarrow> ps_cache s' key = Some ps' \<longrightarrow>
         i < length (concat (map pg_files ps)) \<longrightarrow>
         fd_previewUrl (concat (map pg_files ps) ! i) \<noteq> None \<longrightarrow>
         fd_previewUrl (concat (map pg_files ps') ! i) \<noteq> None)"
proof (cases "pendingIds pages = []")
  case True
  with assms show ?thesis by (simp add: poll_tick_def)
next
  case False
  obtain ans w' where c: "call (pendingIds pages) (ps_world s) = (ans, w')" by force
  show ?thesis
  proof (cases ans)
    case (Inl e)
    with False assms c show ?thesis by (auto simp: poll_tick_def Let_def)
  next
    case (Inr res)
    with False assms c have s': "r = Inr ()" "s' = s\<lparr>ps_world := w',
        ps_cache := setQueryData key (patch_pages (byId res)) (ps_cache s)\<rparr>"
      by (simp_all add: poll_tick_def)
    with False c Inr show ?thesis
      by (auto simp: setQueryData_def option.map_comp comp_def patch_pages_files patch_file_keeps_url)
  qed
qed

text \<open>A page with one file that is being processed.\<close>

definition processing_page :: "unit page" where
  "processing_page = \<lparr>pg_files = [\<lparr>fd_id = js ''1'', fd_key = js ''a'', fd_contentType = [],
     fd_sizeBytes = 1, fd_createdAt = None, fd_updatedAt = None, fd_takenAt = None, fd_previewUrl = None,
     fd_previewWidth = None, fd_previewHeight = None, fd_previewStatus = PREVIEW_PROCESSING\<rparr>],
     pg_rest = ()\<rparr>"

definition ready_answer :: "jsstring list \<Rightarrow> (FilePreviewStatusDto list, unit) async" where
  "ready_answer ids = ret (map (\<lambda>i. \<lparr>psd_id = i, psd_previewStatus = PREVIEW_READY,
     psd_previewUrl = Some (js ''u'')\<rparr>) ids)"

definition processing_state :: "(unit, nat, unit) poll_state" where
  "processing_state = \<lparr>ps_world = (), ps_cache = [0 \<mapsto> [processing_page]]\<rparr>"

theorem poll_tick_safe_witness:
  "map_option (map rest_of_page)
      (ps_cache (snd (poll_tick ready_answer (Some [processing_page]) 0 processing_state)) 0) =
    map_option (map rest_of_page) (ps_cache processing_state 0)"
  using poll_tick_safe [OF surjective_pairing, of ready_answer "Some [processing_page]" 0 processing_state]
  by blast

end
