(* ===== verification/Poller_Steps.thy ===== *)
theory Poller_Steps
  imports Status_Poller
begin

text \<open>
  The poller of \<open>web/src/lib/useFileStatusPoller.ts\<close> over time. The hook keeps two refs, the pages and
  the query key of the latest render; its effect sets an interval that the clean-up clears. A tick
  only starts the call; the answer is another event, before which there may be renders, further ticks,
  answers to other calls, an unmount, and changes of the cache by others. Calls in flight survive the
  unmount, and an answer is written under the key of the render that is the latest when it comes.
\<close>

section \<open>State and events\<close>

record ('k, 'x) poller =
  po_pages :: "'x page list option"
  po_key :: 'k
  po_running :: bool
  po_inflight :: "jsstring list list"
  po_asked :: "(jsstring list \<times> 'x page list option) list"
  po_cache :: "('k, 'x) query_cache"

text \<open>
  \<open>po_inflight\<close> has the ids of the calls that are not answered yet; \<open>po_asked\<close> records every call with
  the pages it was made for.
\<close>

datatype ('k, 'x) poll_event =
    Render "'x page list option" 'k
  | Mount
  | Unmount
  | Interval
  | Answer nat "FilePreviewStatusDto list outcome"
  | Cache_write 'k "'x page list option"

definition render :: "'x page list option \<Rightarrow> 'k \<Rightarrow> ('k, 'x) poller \<Rightarrow> ('k, 'x) poller" where
  "render pages queryKey s = s\<lparr>po_pages := pages, po_key := queryKey\<rparr>"

definition interval :: "('k, 'x) poller \<Rightarrow> ('k, 'x) poller" where
  "interval s =
     (let ids = pendingIds (po_pages s) in
      if \<not> po_running s \<or> ids = [] then s
      else s\<lparr>po_inflight := po_inflight s @ [ids], po_asked := po_asked s @ [(ids, po_pages s)]\<rparr>)"

definition remove_nth :: "nat \<Rightarrow> 'a list \<Rightarrow> 'a list" where
  "remove_nth i xs = take i xs @ drop (Suc i) xs"

definition answer :: "nat \<Rightarrow> FilePreviewStatusDto list outcome \<Rightarrow> ('k, 'x) poller \<Rightarrow> ('k, 'x) poller" where
  "answer i r s =
     (if length (po_inflight s) \<le> i then s
      else let s' = s\<lparr>po_inflight := remove_nth i (po_inflight s)\<rparr> in
        case r of
          Inl _ \<Rightarrow> s'
        | Inr res \<Rightarrow> s'\<lparr>po_cache := setQueryData (po_key s) (patch_pages (byId res)) (po_cache s)\<rparr>)"

fun poller_event :: "('k, 'x) poll_event \<Rightarrow> ('k, 'x) poller \<Rightarrow> ('k, 'x) poller" where
  "poller_event (Render pages key) s = render pages key s"
| "poller_event Mount s = s\<lparr>po_running := True\<rparr>"
| "poller_event Unmount s = s\<lparr>po_running := False\<rparr>"
| "poller_event Interval s = interval s"
| "poller_event (Answer i r) s = answer i r s"
| "poller_event (Cache_write key pages) s = s\<lparr>po_cache := (po_cache s)(key := pages)\<rparr>"

definition poller_run :: "('k, 'x) poll_event list \<Rightarrow> ('k, 'x) poller \<Rightarrow> ('k, 'x) poller" where
  "poller_run es s = fold poller_event es s"

lemma poller_run_simps [simp]:
  "poller_run [] s = s" "poller_run (e # es) s = poller_run es (poller_event e s)"
  by (simp_all add: poller_run_def)

text \<open>A tick whose answer comes at once is the tick of the atomic description.\<close>

lemma tick_is_steps:
  assumes "po_running s" and "pendingIds (po_pages s) \<noteq> []"
    and "call (pendingIds (po_pages s)) w = (r, w')"
  shows "po_cache (poller_run [Interval, Answer (length (po_inflight s)) r] s) =
    ps_cache (snd (poll_tick call (po_pages s) (po_key s) \<lparr>ps_world = w, ps_cache = po_cache s\<rparr>))"
  using assms by (simp add: interval_def answer_def poll_tick_def Let_def split: sum.splits)

section \<open>What a run changes\<close>

text \<open>The same pages and files in the same places, up to preview statuses and URLs, and no URL lost.\<close>

definition keeps_url :: "FileDto \<Rightarrow> FileDto \<Rightarrow> bool" where
  "keeps_url f f' \<longleftrightarrow> (fd_previewUrl f \<noteq> None \<longrightarrow> fd_previewUrl f' \<noteq> None)"

definition patched :: "'x page list \<Rightarrow> 'x page list \<Rightarrow> bool" where
  "patched ps ps' \<longleftrightarrow> map rest_of_page ps = map rest_of_page ps'
     \<and> list_all2 keeps_url (concat (map pg_files ps)) (concat (map pg_files ps'))"

lemma patched_refl [simp]: "patched ps ps"
  by (simp add: patched_def keeps_url_def list_all2_same)







section \<open>What a run asks\<close>





section \<open>Properties\<close>


definition page_on_show :: "(nat, unit) poller" where
  "page_on_show = \<lparr>po_pages = Some [processing_page], po_key = 0, po_running = True, po_inflight = [],
     po_asked = [], po_cache = [0 \<mapsto> [processing_page]]\<rparr>"

definition status_of :: "PreviewStatus \<Rightarrow> FilePreviewStatusDto list outcome" where
  "status_of st = Inr [\<lparr>psd_id = js ''1'', psd_previewStatus = st, psd_previewUrl = None\<rparr>]"


text \<open>
  The interval does not wait for the answer to the tick before. When two answers come in the wrong order,
  the older one is written last: a file that was shown as ready is shown as being processed again.
\<close>

theorem stale_answer_regresses:
  "map fd_previewStatus (concat (map pg_files (the (po_cache
      (poller_run [Interval, Interval, Answer 1 (status_of PREVIEW_READY)] page_on_show) 0)))) = [PREVIEW_READY]
    \<and> map fd_previewStatus (concat (map pg_files (the (po_cache
      (poller_run [Interval, Interval, Answer 1 (status_of PREVIEW_READY), Answer 0 (status_of PREVIEW_PROCESSING)]
        page_on_show) 0)))) = [PREVIEW_PROCESSING]"
  by (simp add: page_on_show_def interval_def answer_def status_of_def pendingIds_def processing_page_def
      unsettled_def setQueryData_def patch_pages_def patch_file_def byId_def remove_nth_def Let_def)

end
