(* ===== verification/Paging.thy ===== *)
theory Paging
  imports Impl "HOL-Library.Sublist"
begin

text \<open>
  What the three infinite lists of the web application share (\<open>FileList.tsx\<close>, \<open>DirectoryList.tsx\<close>,
  \<open>PhotoWall.tsx\<close>): a request per page parameter, the parameter of the next page, and the
  observer that loads a page when the sentinel below the list becomes visible. \<open>useInfiniteQuery\<close> is
  the query library's; what the components rely on is the predicate \<open>infinite_data\<close>. The locale
  \<open>paged_list\<close> states what the requests of a list promise and gives the list's correctness.
\<close>

section \<open>The next page\<close>

text \<open>\<open>lastPage.nextPageToken || undefined\<close>\<close>

definition getNextPageParam :: "jsstring \<Rightarrow> jsstring option" where
  "getNextPageParam nextPageToken = (if nextPageToken = [] then None else Some nextPageToken)"

text \<open>
  The callback of the intersection observer, on the entries' \<open>isIntersecting\<close>: whether it calls
  \<open>fetchNextPage\<close>.
\<close>

definition on_intersection :: "bool list \<Rightarrow> bool \<Rightarrow> bool \<Rightarrow> bool" where
  "on_intersection entries hasNextPage isFetchingNextPage \<longleftrightarrow>
     list_ex id entries \<and> hasNextPage \<and> \<not> isFetchingNextPage"

section \<open>What the query library documents\<close>

text \<open>
  The pages of an infinite query are the answers to a chain of page parameters: the first is the
  initial one, each later one is what \<open>getNextPageParam\<close> gave for the page before.
  \<open>answers t p\<close>: the query function, called with \<open>t\<close>, resolved to \<open>p\<close>.
\<close>

fun chained :: "(jsstring \<Rightarrow> 'p \<Rightarrow> bool) \<Rightarrow> ('p \<Rightarrow> jsstring option) \<Rightarrow> jsstring \<Rightarrow> 'p list \<Rightarrow> bool" where
  "chained answers next t [] = True"
| "chained answers next t (p # ps) =
     (answers t p \<and> (case next p of None \<Rightarrow> ps = [] | Some u \<Rightarrow> chained answers next u ps))"

definition infinite_data ::
  "(jsstring \<Rightarrow> 'p \<Rightarrow> bool) \<Rightarrow> ('p \<Rightarrow> jsstring option) \<Rightarrow> jsstring \<Rightarrow> 'p list \<Rightarrow> bool \<Rightarrow> bool" where
  "infinite_data answers next initial pages hasNextPage \<longleftrightarrow>
     pages \<noteq> [] \<and> chained answers next initial pages \<and> (hasNextPage \<longleftrightarrow> next (last pages) \<noteq> None)"

text \<open>A listing that does not change while it is read: all its pages, up to the last.\<close>

definition whole_listing ::
  "(jsstring \<Rightarrow> 'p \<Rightarrow> bool) \<Rightarrow> ('p \<Rightarrow> jsstring option) \<Rightarrow> jsstring \<Rightarrow> 'p list \<Rightarrow> bool" where
  "whole_listing answers next initial ps \<longleftrightarrow>
     infinite_data answers next initial ps False \<and> (\<forall>t p q. answers t p \<longrightarrow> answers t q \<longrightarrow> p = q)"

lemma chained_prefix:
  assumes "chained answers next t whole" and "next (last whole) = None" and "whole \<noteq> []"
    and "chained answers next t ps" and "\<And>t p q. answers t p \<Longrightarrow> answers t q \<Longrightarrow> p = q"
  shows "prefix ps whole"
  using assms(1-4)
proof (induction ps arbitrary: t whole)
  case (Cons p ps)
  then obtain whole' where w: "whole = p # whole'"
    using assms(5) by (cases whole) auto
  show ?case
  proof (cases "next p")
    case (Some u)
    with Cons w have "whole' \<noteq> []" by auto
    with Cons Some w show ?thesis by auto
  qed (use Cons w in auto)
qed simp

lemma infinite_data_prefix:
  assumes "whole_listing answers next initial whole"
    and "infinite_data answers next initial pages hasNextPage"
  shows "prefix pages whole" and "\<not> hasNextPage \<Longrightarrow> pages = whole"
proof -
  show pre: "prefix pages whole"
    using assms chained_prefix [of answers "next" initial whole pages]
    by (auto simp: whole_listing_def infinite_data_def)
  assume "\<not> hasNextPage"
  then have none: "next (last pages) = None" and "pages \<noteq> []" and "chained answers next initial pages"
    using assms(2) by (auto simp: infinite_data_def)
  with assms(1) chained_prefix [of answers "next" initial pages whole]
  have "prefix whole pages" by (auto simp: whole_listing_def infinite_data_def)
  with pre show "pages = whole" by (simp add: prefix_order.antisym)
qed

text \<open>The answers of a server function, called with the request of a page parameter.\<close>

definition page_answers :: "('i \<Rightarrow> ('p, 'w) async) \<Rightarrow> (jsstring \<Rightarrow> 'i) \<Rightarrow> jsstring \<Rightarrow> 'p \<Rightarrow> bool" where
  "page_answers call request t p \<longleftrightarrow> (\<exists>w w'. call (request t) w = (Inr p, w'))"

text \<open>
  The pages a component shows, and the whole listing, for its request and the token of a page.
\<close>

definition shown_pages ::
  "('i \<Rightarrow> ('p, 'w) async) \<Rightarrow> (jsstring \<Rightarrow> 'i) \<Rightarrow> ('p \<Rightarrow> jsstring) \<Rightarrow> 'p list \<Rightarrow> bool \<Rightarrow> bool" where
  "shown_pages call request token pages hasNextPage \<longleftrightarrow>
     infinite_data (page_answers call request) (getNextPageParam \<circ> token) [] pages hasNextPage"

definition listing_pages ::
  "('i \<Rightarrow> ('p, 'w) async) \<Rightarrow> (jsstring \<Rightarrow> 'i) \<Rightarrow> ('p \<Rightarrow> jsstring) \<Rightarrow> 'p list \<Rightarrow> bool" where
  "listing_pages call request token whole \<longleftrightarrow>
     whole_listing (page_answers call request) (getNextPageParam \<circ> token) [] whole"

text \<open>
  A service that answers from the parameters and the token of a request alone, as long as nothing
  changes, and the pages it has for given parameters.
\<close>

definition answers_by ::
  "('i \<Rightarrow> 'k) \<Rightarrow> ('i \<Rightarrow> jsstring option) \<Rightarrow> ('k \<Rightarrow> jsstring option \<Rightarrow> 'p outcome) \<Rightarrow>
     ('i \<Rightarrow> ('p, 'w) async) \<Rightarrow> bool" where
  "answers_by params_of token_of svc call \<longleftrightarrow> (\<forall>i w. call i w = (svc (params_of i) (token_of i), w))"

definition service_pages ::
  "('k \<Rightarrow> jsstring option \<Rightarrow> 'p outcome) \<Rightarrow> 'k \<Rightarrow> ('p \<Rightarrow> jsstring) \<Rightarrow> 'p list \<Rightarrow> bool" where
  "service_pages svc params token whole \<longleftrightarrow>
     infinite_data (\<lambda>t p. svc params (Some t) = Inr p) (getNextPageParam \<circ> token) [] whole False"

section \<open>The contract of a list\<close>

text \<open>
  A request differs from the requests of the other pages in the token only: the service binds a token
  to the parameters it was issued for.
\<close>

locale paged_list =
  fixes request :: "jsstring \<Rightarrow> 'i"
    and token_of :: "'i \<Rightarrow> jsstring option"
    and params_of :: "'i \<Rightarrow> 'k"
    and next_token :: "'p \<Rightarrow> jsstring"
  assumes request_token: "token_of (request t) = Some t"
    and request_params: "params_of (request t) = params_of (request u)"
begin

text \<open>All pages are pages of one query: of the parameters of any one of the requests.\<close>

lemma one_query:
  assumes "answers_by params_of token_of svc call"
  shows "page_answers call request t p \<longleftrightarrow> svc (params_of (request u)) (Some t) = Inr p"
  using assms request_params [of t u]
  by (auto simp: page_answers_def answers_by_def request_token)

lemma service_listing:
  assumes "answers_by params_of token_of svc call"
    and "service_pages svc (params_of (request u)) next_token whole"
  shows "listing_pages call request next_token whole"
proof -
  have "page_answers call request = (\<lambda>t p. svc (params_of (request u)) (Some t) = Inr p)"
    using one_query [OF assms(1)] by (simp add: fun_eq_iff)
  then show ?thesis
    using assms(2) by (simp add: listing_pages_def whole_listing_def service_pages_def)
qed

text \<open>The rows of the pages shown begin the rows of the listing; when nothing is left they are all.\<close>

lemma shown_rows:
  assumes "shown_pages call request next_token pages hasNextPage"
    and "listing_pages call request next_token whole"
  shows "prefix (concat (map rows pages)) (concat (map rows whole))"
    and "\<not> hasNextPage \<Longrightarrow> concat (map rows pages) = concat (map rows whole)"
proof -
  note data = infinite_data_prefix [OF assms(2) [unfolded listing_pages_def] assms(1) [unfolded shown_pages_def]]
  show "prefix (concat (map rows pages)) (concat (map rows whole))"
    using data(1) by (auto simp: prefix_def)
  show "concat (map rows pages) = concat (map rows whole)" if "\<not> hasNextPage"
    using data(2) that by simp
qed

text \<open>While pages are missing, a visible sentinel loads the next one unless one is loading already.\<close>

lemma scroll_progress:
  assumes "shown_pages call request next_token pages hasNextPage"
    and "listing_pages call request next_token whole"
    and "pages \<noteq> whole" and "list_ex id entries"
  shows "on_intersection entries hasNextPage False"
  using assms(3,4)
    infinite_data_prefix(2) [OF assms(2) [unfolded listing_pages_def] assms(1) [unfolded shown_pages_def]]
  by (auto simp: on_intersection_def)

end

end
