(* ===== verification/Formatting.thy ===== *)
theory Formatting
  imports Js_Dates
begin

text \<open>
  The display helpers: \<open>formatDate\<close> of \<open>web/src/lib/formatDate.ts\<close>, \<open>getFileIcon\<close> of
  \<open>web/src/lib/fileIcon.ts\<close> and \<open>formatBytes\<close> of \<open>web/src/components/FileMetadataTable.tsx\<close>.
\<close>

section \<open>Dates\<close>

text \<open>\<open>other\<close> reads the date texts that are not in the complete UTC form, see \<open>Date_parse\<close>.\<close>

definition formatDate :: "(jsstring \<Rightarrow> Date) \<Rightarrow> jsstring option \<Rightarrow> jsstring" where
  "formatDate other isoDate =
     (case isoDate of
        None \<Rightarrow> []
      | Some s \<Rightarrow>
          if s = [] then []
          else (case Date_parse other s of None \<Rightarrow> s | Some t \<Rightarrow> format_en_US t))"

lemma formatDate_iso:
  assumes "\<bar>t\<bar> \<le> max_time" and "toISOString (Some t) = Inr s"
  shows "formatDate other (Some s) = format_en_US t"
proof -
  have "s \<noteq> []"
    using assms(2) by (auto simp: Let_def iso_year_def padded_def split: prod.splits if_splits)
  then show ?thesis by (simp add: formatDate_def Date_parse_toISOString [OF assms])
qed

section \<open>Icons\<close>

record FileIcon =
  ic_emoji :: jsstring
  ic_label :: jsstring

definition archive_types :: "jsstring list" where
  "archive_types =
     [js ''application/zip'', js ''application/x-tar'', js ''application/gzip'',
      js ''application/x-bzip2'', js ''application/x-7z-compressed'',
      js ''application/x-rar-compressed'', js ''application/x-zip-compressed'']"

definition getFileIcon :: "jsstring \<Rightarrow> FileIcon" where
  "getFileIcon contentType =
     (if startsWith contentType (js ''text/'')
      then \<lparr>ic_emoji = [0xD83D, 0xDCC4], ic_label = js ''Text file''\<rparr>
      else if contentType = js ''application/pdf''
      then \<lparr>ic_emoji = [0xD83D, 0xDCD5], ic_label = js ''PDF''\<rparr>
      else if startsWith contentType (js ''video/'')
      then \<lparr>ic_emoji = [0xD83C, 0xDFAC], ic_label = js ''Video''\<rparr>
      else if startsWith contentType (js ''audio/'')
      then \<lparr>ic_emoji = [0xD83C, 0xDFB5], ic_label = js ''Audio''\<rparr>
      else if contentType \<in> set archive_types
      then \<lparr>ic_emoji = [0xD83D, 0xDCE6], ic_label = js ''Archive''\<rparr>
      else \<lparr>ic_emoji = [0xD83D, 0xDCCE], ic_label = js ''File''\<rparr>)"

section \<open>Sizes\<close>

text \<open>
  Dividing a double by 1024 only changes its exponent, so the loop of \<open>formatBytes\<close> is exact and the
  value is a rational.
\<close>

definition units :: "jsstring list" where
  "units = [js ''KB'', js ''MB'', js ''GB'', js ''TB'']"

function scale :: "rat \<Rightarrow> nat \<Rightarrow> rat \<times> nat" where
  "scale value unit =
     (if 1024 \<le> value \<and> unit < length units - 1 then scale (value / 1024) (unit + 1)
      else (value, unit))"
  by pat_completeness auto
termination by (relation "measure (\<lambda>(value, unit). length units - unit)") auto

declare scale.simps [simp del]

definition formatBytes :: "int \<Rightarrow> jsstring" where
  "formatBytes bytes =
     (if bytes < 1024 then bigint_toString bytes @ js '' B''
      else (case scale (of_int bytes / 1024) 0 of
              (value, unit) \<Rightarrow> toFixed1 value @ js '' '' @ units ! unit))"

lemma scale_result:
  assumes "scale w k = (v, u)" and "1 \<le> w" and "k \<le> 3"
  shows "w = v * 1024 ^ (u - k) \<and> k \<le> u \<and> u \<le> 3 \<and> 1 \<le> v \<and> (u < 3 \<longrightarrow> v < 1024)"
  using assms
proof (induction w k rule: scale.induct)
  case (1 w k)
  have len: "length units = 4" by (simp add: units_def)
  show ?case
  proof (cases "1024 \<le> w \<and> k < 3")
    case True
    then have "scale (w / 1024) (k + 1) = (v, u)"
      using 1(2) by (simp add: scale.simps [of w] len)
    then have IH: "w / 1024 = v * 1024 ^ (u - (k + 1)) \<and> k + 1 \<le> u \<and> u \<le> 3 \<and> 1 \<le> v
        \<and> (u < 3 \<longrightarrow> v < 1024)"
      using 1(1) True len by simp
    then have "u - k = Suc (u - (k + 1))" by linarith
    with IH show ?thesis by (auto simp: field_simps)
  next
    case False
    then have "v = w" "u = k" using 1(2) by (auto simp: scale.simps [of w] len)
    with False 1(3,4) show ?thesis by auto
  qed
qed

lemma toFixed1_near:
  assumes "0 \<le> x"
  obtains n where "toFixed1 x = dec (n div 10) @ js ''.'' @ dec (n mod 10)"
    and "\<bar>of_nat n / 10 - x\<bar> \<le> 1 / 20"
proof -
  define n where "n = nat \<lfloor>10 * x + 1 / 2\<rfloor>"
  have "0 \<le> \<lfloor>10 * x + 1 / 2\<rfloor>" using assms by simp
  then have n: "(of_nat n :: rat) = of_int \<lfloor>10 * x + 1 / 2\<rfloor>" by (simp add: n_def)
  have "(of_int \<lfloor>10 * x + 1 / 2\<rfloor> :: rat) \<le> 10 * x + 1 / 2"
    and "10 * x + 1 / 2 < of_int \<lfloor>10 * x + 1 / 2\<rfloor> + (1 :: rat)"
    by linarith+
  with n have "\<bar>of_nat n / 10 - x\<bar> \<le> 1 / 20" by linarith
  then show thesis using that [of n] by (simp add: toFixed1_def n_def Let_def)
qed

text \<open>
  C31. A size of a kilobyte or more is shown in the largest unit, up to terabytes, in which it is at
  least one, with one decimal, within a twentieth of a unit of the exact value.
\<close>

theorem formatBytes_correct:
  assumes "1024 \<le> bytes"
  shows "\<exists>u n. u \<le> 3
    \<and> formatBytes bytes = dec (n div 10) @ js ''.'' @ dec (n mod 10) @ js '' '' @ units ! u
    \<and> \<bar>of_nat n / 10 - of_int bytes / (1024 :: rat) ^ (u + 1)\<bar> \<le> 1 / 20
    \<and> 1024 ^ (u + 1) \<le> bytes \<and> (u < 3 \<longrightarrow> bytes < 1024 ^ (u + 2))"
proof -
  obtain v u where sc: "scale (of_int bytes / 1024) 0 = (v, u)" by force
  have "(1 :: rat) \<le> of_int bytes / 1024" using assms by simp
  note s = scale_result [OF sc this, simplified]
  from s have exact: "of_int bytes = v * 1024 ^ (u + 1)" by (simp add: field_simps)
  then have v: "v = of_int bytes / 1024 ^ (u + 1)" by simp
  obtain n where n: "toFixed1 v = dec (n div 10) @ js ''.'' @ dec (n mod 10)"
    "\<bar>of_nat n / 10 - v\<bar> \<le> 1 / 20"
    using toFixed1_near [of v] s by auto
  have "of_int (1024 ^ (u + 1)) \<le> (of_int bytes :: rat)"
    unfolding exact using s mult_right_mono [of 1 v "1024 ^ (u + 1)"] by simp
  then have lower: "1024 ^ (u + 1) \<le> bytes" by (simp only: of_int_le_iff)
  have "u < 3 \<longrightarrow> (of_int bytes :: rat) < of_int (1024 ^ (u + 2))"
    unfolding exact using s by simp
  then have upper: "u < 3 \<longrightarrow> bytes < 1024 ^ (u + 2)" by (simp only: of_int_less_iff)
  have "formatBytes bytes = dec (n div 10) @ js ''.'' @ dec (n mod 10) @ js '' '' @ units ! u"
    using assms sc n(1) by (simp add: formatBytes_def)
  with s n(2) lower upper show ?thesis unfolding v by blast
qed

theorem formatBytes_correct_witness:
  "formatBytes 1048575 = js ''1024.0 KB''
    \<and> (\<exists>u n. u \<le> 3 \<and> formatBytes 1048575 = dec (n div 10) @ js ''.'' @ dec (n mod 10) @ js '' '' @ units ! u)"
proof
  have "nat \<lfloor>10 * (1048575 / 1024) + 1 / 2 :: rat\<rfloor> = 10240" 
  proof -
    have "\<lfloor>10 * (1048575 / 1024) + 1 / 2 :: rat\<rfloor> = 10240" by (rule floor_unique) simp_all
    then show ?thesis by simp
  qed
  moreover have "dec 1024 @ js ''.'' @ dec 0 @ js '' '' @ js ''KB'' = js ''1024.0 KB''" by code_simp
  ultimately show "formatBytes 1048575 = js ''1024.0 KB''"
    by (simp add: formatBytes_def scale.simps toFixed1_def Let_def units_def)
  show "\<exists>u n. u \<le> 3 \<and> formatBytes 1048575 =
      dec (n div 10) @ js ''.'' @ dec (n mod 10) @ js '' '' @ units ! u"
    using formatBytes_correct [of 1048575] by auto
qed

end
