(* ===== verification/Move_Dialog.thy ===== *)
theory Move_Dialog
  imports Path_Ui
begin

text \<open>
  The destination picker of \<open>web/src/components/MoveFileDialog.tsx\<close>: its state, one definition per
  handler, and what it hands to \<open>onConfirm\<close>. The table and the file page turn that path into the
  key they send, \<open>confirmed_key\<close>. The states the dialog can be in are those reachable by its
  handlers, with folders as the listing returns them.
\<close>

section \<open>State and handlers\<close>

record move_dialog =
  mv_viewPath :: jsstring
  mv_showAddFolder :: bool
  mv_newFolderName :: jsstring
  mv_newFolderError :: "jsstring option"

definition fileName :: "jsstring \<Rightarrow> jsstring" where
  "fileName fileKey = slice fileKey (lastIndexOf fileKey slash + 1) None"

definition currentFolder :: "jsstring \<Rightarrow> jsstring" where
  "currentFolder fileKey = slice fileKey 0 (Some (lastIndexOf fileKey slash + 1))"

definition open_dialog :: "jsstring \<Rightarrow> move_dialog" where
  "open_dialog fileKey =
     \<lparr>mv_viewPath = currentFolder fileKey, mv_showAddFolder = False, mv_newFolderName = [],
      mv_newFolderError = None\<rparr>"

definition destinationKey :: "jsstring \<Rightarrow> move_dialog \<Rightarrow> jsstring" where
  "destinationKey fileKey s = mv_viewPath s @ fileName fileKey"

definition unchanged :: "jsstring \<Rightarrow> move_dialog \<Rightarrow> bool" where
  "unchanged fileKey s \<longleftrightarrow> destinationKey fileKey s = fileKey"

definition navigateTo :: "jsstring \<Rightarrow> move_dialog \<Rightarrow> move_dialog" where
  "navigateTo path s =
     s\<lparr>mv_viewPath := path, mv_showAddFolder := False, mv_newFolderName := [],
       mv_newFolderError := None\<rparr>"

definition handleNewFolderSubmit :: "move_dialog \<Rightarrow> move_dialog" where
  "handleNewFolderSubmit s =
     (let name = trim (mv_newFolderName s) in
      if name = [] then s\<lparr>mv_newFolderError := Some (js ''Folder name cannot be empty'')\<rparr>
      else if name = js ''.'' \<or> name = js ''..''
      then s\<lparr>mv_newFolderError := Some (js ''Folder name cannot be \".\" or \"..\"'')\<rparr>
      else if slash \<in> set name
      then s\<lparr>mv_newFolderError := Some (js ''Folder name cannot contain \"/\"'')\<rparr>
      else
        let prefix = (if mv_viewPath s = [] then []
                      else if endsWith (mv_viewPath s) [slash] then mv_viewPath s
                      else mv_viewPath s @ [slash])
        in navigateTo (prefix @ name @ [slash]) s)"

definition showAddFolder :: "move_dialog \<Rightarrow> move_dialog" where
  "showAddFolder s = s\<lparr>mv_showAddFolder := True\<rparr>"

definition changeName :: "jsstring \<Rightarrow> move_dialog \<Rightarrow> move_dialog" where
  "changeName t s = s\<lparr>mv_newFolderName := t, mv_newFolderError := None\<rparr>"

definition cancelAddFolder :: "move_dialog \<Rightarrow> move_dialog" where
  "cancelAddFolder s =
     s\<lparr>mv_showAddFolder := False, mv_newFolderName := [], mv_newFolderError := None\<rparr>"

text \<open>The button that confirms, and the key its owner sends for the chosen path.\<close>

definition confirm_enabled :: "jsstring \<Rightarrow> bool \<Rightarrow> move_dialog \<Rightarrow> bool" where
  "confirm_enabled fileKey moving s \<longleftrightarrow> \<not> (moving \<or> unchanged fileKey s)"

definition confirmed_key :: "jsstring \<Rightarrow> jsstring \<Rightarrow> jsstring" where
  "confirmed_key fileKey destinationPath =
     destinationPath @ slice fileKey (lastIndexOf fileKey slash + 1) None"

text \<open>
  The overlay of this dialog and of the confirmations: a click on the backdrop itself, or Escape,
  cancels; a click inside, or another key, does nothing.
\<close>

datatype overlay_event = Overlay_click bool | Overlay_key jsstring

definition overlay :: "('s \<Rightarrow> 's) \<Rightarrow> overlay_event \<Rightarrow> 's \<Rightarrow> 's" where
  "overlay onCancel e s =
     (case e of
        Overlay_click on_backdrop \<Rightarrow> if on_backdrop then onCancel s else s
      | Overlay_key key \<Rightarrow> if key = js ''Escape'' then onCancel s else s)"

section \<open>What the dialog shows\<close>

text \<open>The folder list, from the state of its query (\<open>None\<close> while it is pending): paths and names.\<close>

datatype folder_area =
    Area_loading
  | Area_failed jsstring
  | Area_empty
  | Area_folders "(jsstring \<times> jsstring) list"

definition folder_area_of :: "jsstring list outcome option \<Rightarrow> folder_area" where
  "folder_area_of q =
     (case q of
        None \<Rightarrow> Area_loading
      | Some (Inl e) \<Rightarrow> Area_failed (js ''Failed to load folders: '' @ String_of_error e)
      | Some (Inr []) \<Rightarrow> Area_empty
      | Some (Inr dirs) \<Rightarrow> Area_folders (map (\<lambda>dir. (dir, folder_name dir)) dirs))"

record dialog_view =
  dv_fileName :: jsstring
  dv_homeCurrent :: bool
  dv_crumbs :: "Crumb list"
  dv_addFolderButton :: bool
  dv_form :: "(jsstring \<times> jsstring option) option"
  dv_folders :: folder_area
  dv_destination :: jsstring
  dv_alert :: "jsstring option"
  dv_confirmEnabled :: bool
  dv_confirmLabel :: jsstring

text \<open>The owner passes the error as a text or null; an empty text is falsy.\<close>

definition MoveFileDialog ::
  "jsstring \<Rightarrow> bool \<Rightarrow> jsstring option \<Rightarrow> jsstring list outcome option \<Rightarrow> move_dialog \<Rightarrow> dialog_view" where
  "MoveFileDialog fileKey moving error subdirs s =
     \<lparr>dv_fileName = fileName fileKey,
      dv_homeCurrent = (mv_viewPath s = []),
      dv_crumbs = dialog_crumbs (mv_viewPath s),
      dv_addFolderButton = (\<not> mv_showAddFolder s),
      dv_form = (if mv_showAddFolder s then Some (mv_newFolderName s, mv_newFolderError s) else None),
      dv_folders = folder_area_of subdirs,
      dv_destination = destinationKey fileKey s,
      dv_alert = (case error of Some (c # t) \<Rightarrow> Some (js ''Move failed: '' @ c # t) | _ \<Rightarrow> None),
      dv_confirmEnabled = confirm_enabled fileKey moving s,
      dv_confirmLabel = (if moving then js ''Moving'' @ ellipsis else js ''Move here'')\<rparr>"

section \<open>Reachable states\<close>

text \<open>
  The targets a click can have: Home, a crumb of the bar that is a button, a folder of the listing,
  whose path is the viewed path, a name and a separator.
\<close>

definition click_target :: "move_dialog \<Rightarrow> jsstring \<Rightarrow> bool" where
  "click_target s path \<longleftrightarrow>
     path = [] \<or> path \<in> cr_path ` set (filter cr_clickable (dialog_crumbs (mv_viewPath s)))
     \<or> (\<exists>n. slash \<notin> set n \<and> path = mv_viewPath s @ n @ [slash])"

inductive dialog_reach :: "jsstring \<Rightarrow> move_dialog \<Rightarrow> bool" for fileKey where
  opened: "dialog_reach fileKey (open_dialog fileKey)"
| clicked: "dialog_reach fileKey s \<Longrightarrow> click_target s path \<Longrightarrow> dialog_reach fileKey (navigateTo path s)"
| add: "dialog_reach fileKey s \<Longrightarrow> \<not> mv_showAddFolder s \<Longrightarrow> dialog_reach fileKey (showAddFolder s)"
| typed: "dialog_reach fileKey s \<Longrightarrow> mv_showAddFolder s \<Longrightarrow> dialog_reach fileKey (changeName t s)"
| submitted: "dialog_reach fileKey s \<Longrightarrow> mv_showAddFolder s \<Longrightarrow>
    dialog_reach fileKey (handleNewFolderSubmit s)"
| cancelled: "dialog_reach fileKey s \<Longrightarrow> mv_showAddFolder s \<Longrightarrow>
    dialog_reach fileKey (cancelAddFolder s)"

inductive_simps dialog_reach_opened: "dialog_reach fileKey (open_dialog fileKey)"

text \<open>A directory path, and the invariant of the dialog.\<close>

definition dir_path :: "jsstring \<Rightarrow> bool" where
  "dir_path p \<longleftrightarrow> p = [] \<or> last p = slash"

definition dialog_inv :: "move_dialog \<Rightarrow> bool" where
  "dialog_inv s \<longleftrightarrow> dir_path (mv_viewPath s)
     \<and> (mv_newFolderError s \<noteq> None \<longrightarrow> mv_showAddFolder s)
     \<and> (\<not> mv_showAddFolder s \<longrightarrow> mv_newFolderName s = [])"

lemma dir_path_simps [simp]: "dir_path []" "dir_path (p @ [slash])" "dir_path (p @ q @ [slash])"
  by (simp_all add: dir_path_def)

lemma currentFolder_dir_path: "dir_path (currentFolder key)"
  using dir_part_ends [of key] by (auto simp: dir_path_def currentFolder_def dir_part_def)

lemma dialog_crumbs_dir_path: "c \<in> set (dialog_crumbs p) \<Longrightarrow> dir_path (cr_path c)"
  by (auto simp: dialog_crumbs_def crumb_def)

lemma click_target_dir_path: "click_target s path \<Longrightarrow> dir_path path"
  by (auto simp: click_target_def dest: dialog_crumbs_dir_path)

lemma submit_inv: "dialog_inv s \<Longrightarrow> mv_showAddFolder s \<Longrightarrow> dialog_inv (handleNewFolderSubmit s)"
  by (auto simp: handleNewFolderSubmit_def Let_def dialog_inv_def navigateTo_def)

lemma dialog_reach_inv: "dialog_reach fileKey s \<Longrightarrow> dialog_inv s"
proof (induction rule: dialog_reach.induct)
  case opened
  then show ?case by (simp add: dialog_inv_def open_dialog_def currentFolder_dir_path)
next
  case (clicked s path)
  then show ?case by (simp add: dialog_inv_def navigateTo_def click_target_dir_path)
next
  case (submitted s)
  then show ?case by (simp add: submit_inv)
qed (simp_all add: dialog_inv_def showAddFolder_def changeName_def cancelAddFolder_def)

section \<open>Destinations\<close>

lemma reachable_destination:
  assumes "dialog_reach fileKey s"
  shows "dir_path (mv_viewPath s)
    \<and> confirmed_key fileKey (mv_viewPath s) = destinationKey fileKey s
    \<and> base_part (destinationKey fileKey s) = base_part fileKey
    \<and> dir_part (destinationKey fileKey s) = mv_viewPath s
    \<and> (confirm_enabled fileKey moving s \<longleftrightarrow> \<not> moving \<and> mv_viewPath s \<noteq> dir_part fileKey)"
proof -
  have dp: "mv_viewPath s = [] \<or> last (mv_viewPath s) = slash"
    using dialog_reach_inv [OF assms] by (simp add: dialog_inv_def dir_path_def)
  have name: "fileName fileKey = base_part fileKey" by (simp add: fileName_def base_part_def)
  have "base_part (mv_viewPath s @ base_part fileKey) = base_part fileKey"
    and "dir_part (mv_viewPath s @ base_part fileKey) = mv_viewPath s"
    using base_part_dir [OF dp base_part_no_slash] dir_part_dir [OF dp base_part_no_slash] by auto
  moreover have "destinationKey fileKey s = fileKey \<longleftrightarrow> mv_viewPath s = dir_part fileKey"
    by (metis append_same_eq destinationKey_def dir_base_part name)
  ultimately show ?thesis
    using dp by (auto simp: dir_path_def destinationKey_def confirmed_key_def name confirm_enabled_def
        unchanged_def fileName_def [symmetric])
qed

section \<open>Properties\<close>

text \<open>
  C38. Whatever the user does in the dialog, what it can confirm is a move of this file to another
  directory: in every reachable state the viewed path is a directory path, the key that is sent for it
  is the key shown, its name is the file's name, and when the button is enabled that key differs from
  the file's key and the viewed path from the file's folder.
\<close>

theorem dialog_destination:
  assumes "dialog_reach fileKey s"
  shows "dir_path (mv_viewPath s)
    \<and> confirmed_key fileKey (mv_viewPath s) = destinationKey fileKey s
    \<and> base_part (destinationKey fileKey s) = base_part fileKey
    \<and> dir_part (destinationKey fileKey s) = mv_viewPath s
    \<and> (confirm_enabled fileKey moving s \<longleftrightarrow> \<not> moving \<and> mv_viewPath s \<noteq> dir_part fileKey)"
  using assms by (rule reachable_destination)

theorem dialog_destination_witness:
  "confirmed_key (js ''a/b'') (mv_viewPath (navigateTo [] (open_dialog (js ''a/b'')))) =
    destinationKey (js ''a/b'') (navigateTo [] (open_dialog (js ''a/b'')))"
  using dialog_destination [OF dialog_reach.clicked [OF dialog_reach.opened]]
  by (simp add: click_target_def)

text \<open>
  A folder name is refused or used as it is: submitting changes nothing but the error, or it
  enters the viewed directory's child of the trimmed name, which is then neither empty, nor a dot
  name, and has no separator; the form is closed and empty.
\<close>

theorem new_folder_submit:
  assumes "dialog_inv s"
  shows "(\<exists>e. handleNewFolderSubmit s = s\<lparr>mv_newFolderError := Some e\<rparr>)
    \<and> (trim (mv_newFolderName s) \<in> {[], js ''.'', js ''..''} \<or> slash \<in> set (trim (mv_newFolderName s)))
    \<or> handleNewFolderSubmit s =
        \<lparr>mv_viewPath = mv_viewPath s @ trim (mv_newFolderName s) @ [slash], mv_showAddFolder = False,
         mv_newFolderName = [], mv_newFolderError = None\<rparr>
      \<and> trim (mv_newFolderName s) \<notin> {[], js ''.'', js ''..''}
      \<and> slash \<notin> set (trim (mv_newFolderName s))"
  using assms
  by (auto simp: handleNewFolderSubmit_def Let_def navigateTo_def endsWith_single dialog_inv_def dir_path_def)

theorem new_folder_submit_witness:
  "handleNewFolderSubmit \<lparr>mv_viewPath = js ''a/'', mv_showAddFolder = True, mv_newFolderName = js '' c '',
      mv_newFolderError = None\<rparr> =
    \<lparr>mv_viewPath = js ''a/c/'', mv_showAddFolder = False, mv_newFolderName = [], mv_newFolderError = None\<rparr>"
proof -
  let ?s = "\<lparr>mv_viewPath = js ''a/'', mv_showAddFolder = True, mv_newFolderName = js '' c '',
      mv_newFolderError = None\<rparr>"
  have trim: "trim (js '' c '') = js ''c''" by code_simp
  have c: "slash \<notin> set (js ''c'')" and p: "js ''a/'' @ js ''c'' @ [slash] = js ''a/c/''"
    by (simp_all add: js_def slash_def)
  have "dialog_inv ?s" by (simp add: dialog_inv_def dir_path_def js_def slash_def)
  from new_folder_submit [OF this] show ?thesis
    by (simp add: trim c p)
qed

end
