(* ===== verification/File_Table.thy ===== *)
theory File_Table
  imports Formatting Move_Dialog Impl Query_Keys
begin

text \<open>
  The table of \<open>web/src/components/FileTable.tsx\<close> with the two dialogs it owns, and the confirmation
  dialogs \<open>DeleteFileConfirmation.tsx\<close> and \<open>DeleteFolderConfirmation.tsx\<close>. The state of the table
  has one field per \<open>useState\<close> and per mutation, the effects outside it that the code starts
  (invalidated query keys, windows opened) and the world the server functions act on. A handler is a
  state transformer. A mutation is two steps, so that other events may come in between: the
  confirmation starts it and records its variables as in flight, and when the call settles its
  \<open>onSuccess\<close> or \<open>onError\<close> runs.
\<close>

section \<open>State\<close>

record row_ref =
  rr_id :: jsstring
  rr_key :: jsstring

record folder_row =
  fr_path :: jsstring
  fr_name :: jsstring

record 'w table_state =
  tb_openFileMenuId :: "jsstring option"
  tb_openFolderMenuPath :: "jsstring option"
  tb_fileToDelete :: "row_ref option"
  tb_fileToMove :: "row_ref option"
  tb_moveError :: "jsstring option"
  tb_deleteError :: "js_error option"
  tb_deleting :: "jsstring option"
  tb_moving :: "(jsstring \<times> jsstring) option"
  tb_invalidated :: "query_key list"
  tb_windows :: "jsstring list"
  tb_world :: 'w

definition initial_table :: "'w \<Rightarrow> 'w table_state" where
  "initial_table w =
     \<lparr>tb_openFileMenuId = None, tb_openFolderMenuPath = None, tb_fileToDelete = None,
      tb_fileToMove = None, tb_moveError = None, tb_deleteError = None, tb_deleting = None,
      tb_moving = None, tb_invalidated = [], tb_windows = [], tb_world = w\<rparr>"

section \<open>Menus\<close>

definition closeMenus :: "'w table_state \<Rightarrow> 'w table_state" where
  "closeMenus s = s\<lparr>tb_openFileMenuId := None, tb_openFolderMenuPath := None\<rparr>"

definition toggleFileMenu :: "jsstring \<Rightarrow> 'w table_state \<Rightarrow> 'w table_state" where
  "toggleFileMenu fid s =
     s\<lparr>tb_openFileMenuId := (if tb_openFileMenuId s = Some fid then None else Some fid),
       tb_openFolderMenuPath := None\<rparr>"

definition toggleFolderMenu :: "jsstring \<Rightarrow> 'w table_state \<Rightarrow> 'w table_state" where
  "toggleFolderMenu path s =
     s\<lparr>tb_openFolderMenuPath := (if tb_openFolderMenuPath s = Some path then None else Some path),
       tb_openFileMenuId := None\<rparr>"

definition anyMenuOpen :: "'w table_state \<Rightarrow> bool" where
  "anyMenuOpen s \<longleftrightarrow> tb_openFileMenuId s \<noteq> None \<or> tb_openFolderMenuPath s \<noteq> None"

text \<open>The document listeners are installed while a menu is open.\<close>

definition handleClickOutside :: "bool \<Rightarrow> 'w table_state \<Rightarrow> 'w table_state" where
  "handleClickOutside inside s = (if anyMenuOpen s \<and> \<not> inside then closeMenus s else s)"

definition handleEscape :: "jsstring \<Rightarrow> 'w table_state \<Rightarrow> 'w table_state" where
  "handleEscape key s = (if anyMenuOpen s \<and> key = js ''Escape'' then closeMenus s else s)"

section \<open>Actions of a row\<close>

definition handleDownload ::
  "(jsstring \<Rightarrow> (jsstring, 'w) async) \<Rightarrow> jsstring \<Rightarrow> (unit, 'w table_state) async" where
  "handleDownload getDownloadUrl fid s =
     (case getDownloadUrl fid (tb_world s) of
        (Inl e, w') \<Rightarrow> (Inl e, s\<lparr>tb_world := w'\<rparr>)
      | (Inr url, w') \<Rightarrow> (Inr (), s\<lparr>tb_world := w', tb_windows := tb_windows s @ [url]\<rparr>))"

definition click_download ::
  "(jsstring \<Rightarrow> (jsstring, 'w) async) \<Rightarrow> FileDto \<Rightarrow> (unit, 'w table_state) async" where
  "click_download getDownloadUrl file s = handleDownload getDownloadUrl (fd_id file) (closeMenus s)"

definition click_move :: "FileDto \<Rightarrow> 'w table_state \<Rightarrow> 'w table_state" where
  "click_move file s =
     (closeMenus s)\<lparr>tb_fileToMove := Some \<lparr>rr_id = fd_id file, rr_key = fd_key file\<rparr>\<rparr>"

definition click_delete :: "(jsstring \<Rightarrow> jsstring) \<Rightarrow> FileDto \<Rightarrow> 'w table_state \<Rightarrow> 'w table_state" where
  "click_delete displayKey file s =
     (closeMenus s)\<lparr>tb_fileToDelete := Some \<lparr>rr_id = fd_id file, rr_key = displayKey (fd_key file)\<rparr>\<rparr>"

text \<open>The entry of a folder's menu; the path is what \<open>onDeleteFolder\<close> is called with.\<close>

definition click_delete_folder :: "folder_row \<Rightarrow> 'w table_state \<Rightarrow> 'w table_state \<times> jsstring" where
  "click_delete_folder folder s = (closeMenus s, fr_path folder)"

section \<open>The delete mutation\<close>

definition run_delete ::
  "(jsstring \<Rightarrow> (unit, 'w) async) \<Rightarrow> query_key list \<Rightarrow> jsstring \<Rightarrow> 'w table_state \<Rightarrow> 'w table_state" where
  "run_delete deleteFile invalidateKeys fid s =
     (case deleteFile fid (tb_world s) of
        (Inl e, w') \<Rightarrow> s\<lparr>tb_world := w', tb_deleteError := Some e\<rparr>
      | (Inr _, w') \<Rightarrow>
          s\<lparr>tb_world := w', tb_deleteError := None,
            tb_invalidated := tb_invalidated s @ invalidateKeys, tb_fileToDelete := None\<rparr>)"

text \<open>The confirm button is disabled while a delete is in flight.\<close>

definition confirm_delete :: "'w table_state \<Rightarrow> 'w table_state" where
  "confirm_delete s =
     (case tb_fileToDelete s of
        None \<Rightarrow> s
      | Some f \<Rightarrow>
          if tb_deleting s = None then s\<lparr>tb_deleting := Some (rr_id f), tb_deleteError := None\<rparr> else s)"

definition settle_delete ::
  "(jsstring \<Rightarrow> (unit, 'w) async) \<Rightarrow> query_key list \<Rightarrow> 'w table_state \<Rightarrow> 'w table_state" where
  "settle_delete deleteFile invalidateKeys s =
     (case tb_deleting s of
        None \<Rightarrow> s
      | Some fid \<Rightarrow> run_delete deleteFile invalidateKeys fid (s\<lparr>tb_deleting := None\<rparr>))"

definition cancel_delete :: "'w table_state \<Rightarrow> 'w table_state" where
  "cancel_delete s = s\<lparr>tb_fileToDelete := None\<rparr>"

section \<open>The move mutation\<close>

text \<open>\<open>ConnectError.from(err)\<close> of the RPC library: the code and the message it reads from an error.\<close>

record connect_error =
  ce_alreadyExists :: bool
  ce_message :: jsstring

text \<open>The test \<open>/already_exists/i\<close>: the text occurs, in whatever case of the ASCII letters.\<close>

definition ascii_lower :: "code_unit \<Rightarrow> code_unit" where
  "ascii_lower c = (if 65 \<le> c \<and> c \<le> 90 then c + 32 else c)"

fun occurs :: "jsstring \<Rightarrow> jsstring \<Rightarrow> bool" where
  "occurs p [] = (p = [])"
| "occurs p (c # s) = (startsWith (c # s) p \<or> occurs p s)"

definition mentions_already_exists :: "jsstring \<Rightarrow> bool" where
  "mentions_already_exists s = occurs (js ''already_exists'') (map ascii_lower s)"

definition move_error_text :: "connect_error \<Rightarrow> jsstring" where
  "move_error_text ce =
     (if ce_alreadyExists ce \<or> mentions_already_exists (ce_message ce)
      then js ''A file with this name already exists there'' else ce_message ce)"

definition run_move ::
  "(js_error \<Rightarrow> connect_error) \<Rightarrow> (jsstring \<Rightarrow> jsstring \<Rightarrow> (unit, 'w) async) \<Rightarrow>
     jsstring \<Rightarrow> jsstring \<Rightarrow> 'w table_state \<Rightarrow> 'w table_state" where
  "run_move connectFrom moveFile fid destination s =
     (case moveFile fid destination (tb_world s) of
        (Inl e, w') \<Rightarrow> s\<lparr>tb_world := w', tb_moveError := Some (move_error_text (connectFrom e))\<rparr>
      | (Inr _, w') \<Rightarrow>
          s\<lparr>tb_world := w',
            tb_invalidated := tb_invalidated s @ moved_keys,
            tb_fileToMove := None, tb_moveError := None\<rparr>)"

text \<open>\<open>destinationPath\<close> is what the dialog confirmed; its button is disabled while a move is in flight.\<close>

definition confirm_move :: "jsstring \<Rightarrow> 'w table_state \<Rightarrow> 'w table_state" where
  "confirm_move destinationPath s =
     (case tb_fileToMove s of
        None \<Rightarrow> s
      | Some f \<Rightarrow>
          if tb_moving s = None
          then s\<lparr>tb_moving := Some (rr_id f, confirmed_key (rr_key f) destinationPath)\<rparr> else s)"

definition settle_move ::
  "(js_error \<Rightarrow> connect_error) \<Rightarrow> (jsstring \<Rightarrow> jsstring \<Rightarrow> (unit, 'w) async) \<Rightarrow>
     'w table_state \<Rightarrow> 'w table_state" where
  "settle_move connectFrom moveFile s =
     (case tb_moving s of
        None \<Rightarrow> s
      | Some (fid, destination) \<Rightarrow>
          run_move connectFrom moveFile fid destination (s\<lparr>tb_moving := None\<rparr>))"

definition cancel_move :: "'w table_state \<Rightarrow> 'w table_state" where
  "cancel_move s = s\<lparr>tb_fileToMove := None, tb_moveError := None\<rparr>"

section \<open>What a row shows\<close>

datatype preview_view =
    Cell_image jsstring "int option" "int option"
  | Cell_processing
  | Cell_indexing
  | Cell_failed
  | Cell_no_preview
  | Cell_icon FileIcon

definition preview_cell :: "FileDto \<Rightarrow> preview_view" where
  "preview_cell file =
     (let isImage = startsWith (fd_contentType file) (js ''image/'') in
      case fd_previewUrl file of
        Some (c # url) \<Rightarrow> Cell_image (c # url) (fd_previewWidth file) (fd_previewHeight file)
      | _ \<Rightarrow>
          if fd_previewStatus file = PREVIEW_PENDING \<or> fd_previewStatus file = PREVIEW_PROCESSING
          then (if isImage then Cell_processing else Cell_indexing)
          else if fd_previewStatus file = PREVIEW_FAILED then Cell_failed
          else if isImage then Cell_no_preview
          else Cell_icon (getFileIcon (fd_contentType file)))"

record table_row =
  tr_preview :: preview_view
  tr_key :: jsstring
  tr_size :: jsstring
  tr_created :: jsstring

definition file_row :: "(jsstring \<Rightarrow> Date) \<Rightarrow> (jsstring \<Rightarrow> jsstring) \<Rightarrow> FileDto \<Rightarrow> table_row" where
  "file_row other displayKey file =
     \<lparr>tr_preview = preview_cell file, tr_key = displayKey (fd_key file),
      tr_size = formatBytes (fd_sizeBytes file), tr_created = formatDate other (fd_createdAt file)\<rparr>"

section \<open>Confirmation dialogs\<close>

record confirmation =
  cf_subject :: jsstring
  cf_summary :: "jsstring option"
  cf_alert :: "jsstring option"
  cf_enabled :: bool
  cf_label :: jsstring

definition confirm_label :: "bool \<Rightarrow> jsstring" where
  "confirm_label pending = (if pending then js ''Deleting'' @ ellipsis else js ''Confirm delete'')"

definition delete_alert :: "js_error option \<Rightarrow> jsstring option" where
  "delete_alert error = map_option (\<lambda>e. js ''Delete failed: '' @ String_of_error e) error"

definition DeleteFileConfirmation :: "jsstring \<Rightarrow> bool \<Rightarrow> js_error option \<Rightarrow> confirmation" where
  "DeleteFileConfirmation fileKey pending error =
     \<lparr>cf_subject = fileKey, cf_summary = Some (js ''This cannot be undone.''),
      cf_alert = delete_alert error, cf_enabled = (\<not> pending), cf_label = confirm_label pending\<rparr>"

text \<open>The state of the stats query, in the order the dialog tests it.\<close>

datatype stats_query = Stats_pending | Stats_error js_error | Stats DirectoryStatsDto | Stats_none

definition stats_summary :: "stats_query \<Rightarrow> jsstring option" where
  "stats_summary q =
     (case q of
        Stats_pending \<Rightarrow> Some (js ''Checking contents'' @ ellipsis)
      | Stats_error e \<Rightarrow> Some (js ''Failed to load folder contents: '' @ String_of_error e)
      | Stats st \<Rightarrow>
          Some (js ''This deletes '' @ bigint_toString (dsd_fileCount st) @ js '' file''
            @ (if dsd_fileCount st = 1 then [] else js ''s'')
            @ js '' ('' @ formatBytes (dsd_totalBytes st)
            @ js ''). This cannot be undone, and is not atomic: on a partial failure some files may already be gone while others remain.'')
      | Stats_none \<Rightarrow> None)"

definition DeleteFolderConfirmation ::
  "jsstring \<Rightarrow> stats_query \<Rightarrow> bool \<Rightarrow> js_error option \<Rightarrow> confirmation" where
  "DeleteFolderConfirmation folderPath q deletePending deleteError =
     \<lparr>cf_subject = folderPath, cf_summary = stats_summary q, cf_alert = delete_alert deleteError,
      cf_enabled = (\<not> (q = Stats_pending \<or> deletePending)), cf_label = confirm_label deletePending\<rparr>"

text \<open>The dialog of the table, when it is shown.\<close>

definition delete_dialog :: "'w table_state \<Rightarrow> confirmation option" where
  "delete_dialog s =
     map_option (\<lambda>f. DeleteFileConfirmation (rr_key f) (tb_deleting s \<noteq> None) (tb_deleteError s))
       (tb_fileToDelete s)"

section \<open>What the table shows\<close>

text \<open>The menu of a row, shown while it is open, by the labels of its entries.\<close>

definition row_menu :: "bool \<Rightarrow> string list \<Rightarrow> jsstring list option" where
  "row_menu isMenuOpen entries = (if isMenuOpen then Some (map js entries) else None)"

record folder_view =
  fv_path :: jsstring
  fv_name :: jsstring
  fv_menu :: "jsstring list option"

record file_view =
  iv_id :: jsstring
  iv_row :: table_row
  iv_menu :: "jsstring list option"

text \<open>What the move dialog is given by its owner.\<close>

record move_props =
  mp_fileKey :: jsstring
  mp_moving :: bool
  mp_error :: "jsstring option"

record table_view =
  tv_folders :: "folder_view list"
  tv_files :: "file_view list"
  tv_delete :: "confirmation option"
  tv_move :: "move_props option"

definition folder_table_row :: "'w table_state \<Rightarrow> folder_row \<Rightarrow> folder_view" where
  "folder_table_row s folder =
     \<lparr>fv_path = fr_path folder, fv_name = fr_name folder,
      fv_menu = row_menu (tb_openFolderMenuPath s = Some (fr_path folder)) [''Delete folder'']\<rparr>"

definition file_table_row ::
  "(jsstring \<Rightarrow> Date) \<Rightarrow> (jsstring \<Rightarrow> jsstring) \<Rightarrow> 'w table_state \<Rightarrow> FileDto \<Rightarrow> file_view" where
  "file_table_row other displayKey s file =
     \<lparr>iv_id = fd_id file, iv_row = file_row other displayKey file,
      iv_menu = row_menu (tb_openFileMenuId s = Some (fd_id file)) [''Download'', ''Move'', ''Delete'']\<rparr>"

definition FileTable ::
  "(jsstring \<Rightarrow> Date) \<Rightarrow> (jsstring \<Rightarrow> jsstring) \<Rightarrow> folder_row list option \<Rightarrow> FileDto list \<Rightarrow>
     'w table_state \<Rightarrow> table_view" where
  "FileTable other displayKey folders files s =
     \<lparr>tv_folders = (case folders of None \<Rightarrow> [] | Some fs \<Rightarrow> map (folder_table_row s) fs),
      tv_files = map (file_table_row other displayKey s) files,
      tv_delete = delete_dialog s,
      tv_move = map_option (\<lambda>f. \<lparr>mp_fileKey = rr_key f, mp_moving = (tb_moving s \<noteq> None), mp_error = tb_moveError s\<rparr>)
        (tb_fileToMove s)\<rparr>"

section \<open>Reachable states\<close>

text \<open>
  The states a table can be in that shows, over time, the files \<open>rows\<close>, with any behaviour of the
  server functions. A menu entry can be clicked while its menu is open, a dialog's buttons while the
  dialog is; the move dialog confirms the path it views, in any state it can be in, if its button is
  enabled. A call in flight may settle at any time, also when its dialog has been closed.
\<close>

inductive table_reach ::
  "(jsstring \<Rightarrow> jsstring) \<Rightarrow> FileDto set \<Rightarrow> 'w table_state \<Rightarrow> bool" for displayKey rows where
  initial: "table_reach displayKey rows (initial_table w)"
| file_menu: "table_reach displayKey rows s \<Longrightarrow> f \<in> rows \<Longrightarrow>
    table_reach displayKey rows (toggleFileMenu (fd_id f) s)"
| folder_menu: "table_reach displayKey rows s \<Longrightarrow> table_reach displayKey rows (toggleFolderMenu path s)"
| outside: "table_reach displayKey rows s \<Longrightarrow> table_reach displayKey rows (handleClickOutside inside s)"
| escape: "table_reach displayKey rows s \<Longrightarrow> table_reach displayKey rows (handleEscape key s)"
| download: "table_reach displayKey rows s \<Longrightarrow> f \<in> rows \<Longrightarrow> tb_openFileMenuId s = Some (fd_id f) \<Longrightarrow>
    click_download get f s = (r, s') \<Longrightarrow> table_reach displayKey rows s'"
| move: "table_reach displayKey rows s \<Longrightarrow> f \<in> rows \<Longrightarrow> tb_openFileMenuId s = Some (fd_id f) \<Longrightarrow>
    table_reach displayKey rows (click_move f s)"
| delete: "table_reach displayKey rows s \<Longrightarrow> f \<in> rows \<Longrightarrow> tb_openFileMenuId s = Some (fd_id f) \<Longrightarrow>
    table_reach displayKey rows (click_delete displayKey f s)"
| delete_folder: "table_reach displayKey rows s \<Longrightarrow> tb_openFolderMenuPath s = Some (fr_path folder) \<Longrightarrow>
    table_reach displayKey rows (fst (click_delete_folder folder s))"
| do_delete: "table_reach displayKey rows s \<Longrightarrow> table_reach displayKey rows (confirm_delete s)"
| deleted: "table_reach displayKey rows s \<Longrightarrow> table_reach displayKey rows (settle_delete del keys s)"
| no_delete: "table_reach displayKey rows s \<Longrightarrow> table_reach displayKey rows (cancel_delete s)"
| do_move: "table_reach displayKey rows s \<Longrightarrow> tb_fileToMove s = Some f \<Longrightarrow> dialog_reach (rr_key f) d \<Longrightarrow>
    confirm_enabled (rr_key f) (tb_moving s \<noteq> None) d \<Longrightarrow>
    table_reach displayKey rows (confirm_move (mv_viewPath d) s)"
| moved: "table_reach displayKey rows s \<Longrightarrow> table_reach displayKey rows (settle_move cf mv s)"
| no_move: "table_reach displayKey rows s \<Longrightarrow> table_reach displayKey rows (cancel_move s)"

text \<open>The requests in flight: of a row, and a move to another directory under the same name.\<close>

definition move_of_row :: "FileDto set \<Rightarrow> jsstring \<Rightarrow> jsstring \<Rightarrow> bool" where
  "move_of_row rows fid destination \<longleftrightarrow>
     (\<exists>f \<in> rows. fid = fd_id f \<and> destination \<noteq> fd_key f \<and> base_part destination = base_part (fd_key f))"

definition table_inv :: "(jsstring \<Rightarrow> jsstring) \<Rightarrow> FileDto set \<Rightarrow> 'w table_state \<Rightarrow> bool" where
  "table_inv displayKey rows s \<longleftrightarrow>
     (tb_openFileMenuId s = None \<or> tb_openFolderMenuPath s = None)
     \<and> (case tb_fileToDelete s of None \<Rightarrow> True
         | Some ref \<Rightarrow> ref \<in> (\<lambda>f. \<lparr>rr_id = fd_id f, rr_key = displayKey (fd_key f)\<rparr>) ` rows)
     \<and> (case tb_fileToMove s of None \<Rightarrow> True
         | Some ref \<Rightarrow> ref \<in> (\<lambda>f. \<lparr>rr_id = fd_id f, rr_key = fd_key f\<rparr>) ` rows)
     \<and> (case tb_deleting s of None \<Rightarrow> True | Some fid \<Rightarrow> fid \<in> fd_id ` rows)
     \<and> (case tb_moving s of None \<Rightarrow> True | Some (fid, dest) \<Rightarrow> move_of_row rows fid dest)"

lemmas table_handlers = closeMenus_def toggleFileMenu_def toggleFolderMenu_def handleClickOutside_def
  handleEscape_def click_delete_folder_def click_move_def click_delete_def confirm_delete_def settle_delete_def run_delete_def
  cancel_delete_def confirm_move_def settle_move_def run_move_def cancel_move_def initial_table_def

lemma download_frame:
  "click_download get f s = (r, s') \<Longrightarrow> tb_openFileMenuId s' = None \<and> tb_openFolderMenuPath s' = None
    \<and> tb_fileToDelete s' = tb_fileToDelete s \<and> tb_fileToMove s' = tb_fileToMove s
    \<and> tb_deleting s' = tb_deleting s \<and> tb_moving s' = tb_moving s"
  by (auto simp: click_download_def handleDownload_def closeMenus_def split: prod.splits sum.splits)

lemma confirmed_move_of_row:
  assumes "f \<in> rows" and "dialog_reach (fd_key f) d" and "confirm_enabled (fd_key f) moving d"
  shows "move_of_row rows (fd_id f) (confirmed_key (fd_key f) (mv_viewPath d))"
proof -
  have "confirmed_key (fd_key f) (mv_viewPath d) \<noteq> fd_key f"
    using reachable_destination [OF assms(2)] assms(3)
    by (auto simp: confirm_enabled_def unchanged_def)
  moreover have "base_part (confirmed_key (fd_key f) (mv_viewPath d)) = base_part (fd_key f)"
    using reachable_destination [OF assms(2)] by simp
  ultimately show ?thesis using assms(1) by (auto simp: move_of_row_def)
qed

lemma table_invariant: "table_reach displayKey rows s \<Longrightarrow> table_inv displayKey rows s"
proof (induction rule: table_reach.induct)
  case (download s f get r s')
  then show ?case using download_frame [of get f s r s'] by (simp add: table_inv_def)
next
  case (do_delete s)
  then show ?case by (auto simp: table_inv_def confirm_delete_def split: option.splits)
next
  case (deleted s del keys)
  then show ?case
    by (auto simp: table_inv_def settle_delete_def run_delete_def split: option.splits prod.splits sum.splits)
next
  case (do_move s f d)
  then obtain g where "g \<in> rows" and "f = \<lparr>rr_id = fd_id g, rr_key = fd_key g\<rparr>"
    by (auto simp: table_inv_def)
  with do_move confirmed_move_of_row [of g rows d] show ?case
    by (auto simp: table_inv_def confirm_move_def)
next
  case (moved s cf mv)
  then show ?case
    by (auto simp: table_inv_def settle_move_def run_move_def split: option.splits prod.splits sum.splits)
qed (auto simp: table_inv_def table_handlers split: option.splits)

text \<open>The menus shown: none but the one of the row whose id or path is the open one.\<close>

lemma open_menus_one:
  assumes "distinct (map f xs)"
  shows "length (filter (\<lambda>x. Some (f x) = m) xs) \<le> 1"
proof (cases m)
  case (Some a)
  have "length (filter (\<lambda>x. f x = a) xs) \<le> 1"
    using assms
  proof (induction xs)
    case (Cons x xs)
    show ?case
    proof (cases "f x = a")
      case True
      with Cons.prems have "filter (\<lambda>y. f y = a) xs = []"
        by (auto simp: filter_empty_conv image_iff)
      with True show ?thesis by simp
    qed (use Cons in simp)
  qed simp
  with Some show ?thesis by simp
qed simp

definition open_menus :: "table_view \<Rightarrow> nat" where
  "open_menus v = length (filter (\<lambda>r. fv_menu r \<noteq> None) (tv_folders v))
     + length (filter (\<lambda>r. iv_menu r \<noteq> None) (tv_files v))"

lemma open_menus_view:
  assumes "tb_openFileMenuId s = None \<or> tb_openFolderMenuPath s = None"
    and "distinct (map fd_id files)" and "distinct (map fr_path folders)"
  shows "open_menus (FileTable other displayKey (Some folders) files s) \<le> 1"
proof -
  have "filter (\<lambda>r. fv_menu r \<noteq> None) (map (folder_table_row s) folders) =
      map (folder_table_row s) (filter (\<lambda>f. Some (fr_path f) = tb_openFolderMenuPath s) folders)"
    by (auto simp: filter_map comp_def folder_table_row_def row_menu_def intro!: filter_cong arg_cong [of _ _ "map _"])
  moreover have "filter (\<lambda>r. iv_menu r \<noteq> None) (map (file_table_row other displayKey s) files) =
      map (file_table_row other displayKey s) (filter (\<lambda>f. Some (fd_id f) = tb_openFileMenuId s) files)"
    by (auto simp: filter_map comp_def file_table_row_def row_menu_def intro!: filter_cong arg_cong [of _ _ "map _"])
  ultimately have "open_menus (FileTable other displayKey (Some folders) files s) =
      length (filter (\<lambda>f. Some (fr_path f) = tb_openFolderMenuPath s) folders)
      + length (filter (\<lambda>f. Some (fd_id f) = tb_openFileMenuId s) files)"
    by (simp add: open_menus_def FileTable_def)
  then show ?thesis
    using assms(1) open_menus_one [OF assms(2)] open_menus_one [OF assms(3)] by auto
qed

text \<open>
  C39. The table stays consistent whatever the user clicks, whatever the server answers and
  however the two interleave: it shows at most one menu; the delete dialog is about one of the rows,
  under the key the row displays, the move dialog about one of the rows with its own key; a delete in
  flight is of a row, a move in flight of a row to another directory under the same name.
\<close>

theorem table_reach_inv:
  assumes "table_reach displayKey rows s" and "distinct (map fd_id files)" and "distinct (map fr_path folders)"
  shows "open_menus (FileTable other displayKey (Some folders) files s) \<le> 1
    \<and> pred_option (\<lambda>d. cf_subject d \<in> (displayKey \<circ> fd_key) ` rows)
        (tv_delete (FileTable other displayKey (Some folders) files s))
    \<and> pred_option (\<lambda>m. mp_fileKey m \<in> fd_key ` rows) (tv_move (FileTable other displayKey (Some folders) files s))
    \<and> pred_option (\<lambda>fid. fid \<in> fd_id ` rows) (tb_deleting s)
    \<and> pred_option (\<lambda>(fid, dest). move_of_row rows fid dest) (tb_moving s)"
proof (intro conjI)
  have inv: "table_inv displayKey rows s" by (rule table_invariant [OF assms(1)])
  then show "open_menus (FileTable other displayKey (Some folders) files s) \<le> 1"
    by (intro open_menus_view [OF _ assms(2,3)]) (simp add: table_inv_def)
  show "pred_option (\<lambda>d. cf_subject d \<in> (displayKey \<circ> fd_key) ` rows)
      (tv_delete (FileTable other displayKey (Some folders) files s))"
    using inv by (auto simp: table_inv_def FileTable_def delete_dialog_def DeleteFileConfirmation_def
        option.pred_map pred_option_def)
  show "pred_option (\<lambda>m. mp_fileKey m \<in> fd_key ` rows) (tv_move (FileTable other displayKey (Some folders) files s))"
    using inv by (auto simp: table_inv_def FileTable_def pred_option_def)
  show "pred_option (\<lambda>fid. fid \<in> fd_id ` rows) (tb_deleting s)"
    using inv by (auto simp: table_inv_def pred_option_def)
  show "pred_option (\<lambda>(fid, dest). move_of_row rows fid dest) (tb_moving s)"
    using inv by (auto simp: table_inv_def pred_option_def)
qed

definition sample_row :: FileDto where
  "sample_row =
     \<lparr>fd_id = js ''7'', fd_key = js ''docs/a.txt'', fd_contentType = js ''text/plain'', fd_sizeBytes = 3,
      fd_createdAt = None, fd_updatedAt = None, fd_takenAt = None, fd_previewUrl = None,
      fd_previewWidth = None, fd_previewHeight = None, fd_previewStatus = PREVIEW_NONE\<rparr>"

theorem table_reach_inv_witness:
  "open_menus (FileTable (\<lambda>_. None) id (Some [\<lparr>fr_path = js ''a/'', fr_name = js ''a''\<rparr>]) [sample_row]
      (toggleFileMenu (js ''7'') (initial_table ()))) \<le> 1
    \<and> iv_menu (file_table_row (\<lambda>_. None) id (toggleFileMenu (js ''7'') (initial_table ())) sample_row) \<noteq> None"
proof
  have "table_reach id {sample_row} (toggleFileMenu (fd_id sample_row) (initial_table ()))"
    by (rule table_reach.file_menu [OF table_reach.initial]) simp
  from table_reach_inv [OF this, of "[sample_row]" "[\<lparr>fr_path = js ''a/'', fr_name = js ''a''\<rparr>]"]
  show "open_menus (FileTable (\<lambda>_. None) id (Some [\<lparr>fr_path = js ''a/'', fr_name = js ''a''\<rparr>]) [sample_row]
      (toggleFileMenu (js ''7'') (initial_table ()))) \<le> 1"
    by (simp add: sample_row_def)
  show "iv_menu (file_table_row (\<lambda>_. None) id (toggleFileMenu (js ''7'') (initial_table ())) sample_row) \<noteq> None"
    by (simp add: file_table_row_def row_menu_def toggleFileMenu_def initial_table_def sample_row_def)
qed

section \<open>What the dialogs keep\<close>

text \<open>
  The error of a failed delete outlives its dialog: when it is dismissed and the dialog of another
  file is opened, that dialog already shows the failure, although nothing was tried for this file.
\<close>

theorem stale_delete_error:
  assumes "tb_fileToDelete s = Some a" and "tb_deleting s = None"
    and "del (rr_id a) (tb_world s) = (Inl e, w')"
  shows "delete_dialog (click_delete displayKey f (cancel_delete (settle_delete del keys (confirm_delete s)))) =
    Some (DeleteFileConfirmation (displayKey (fd_key f)) False (Some e))"
  using assms by (simp add: delete_dialog_def table_handlers)

text \<open>
  A dialog can be closed by the answer to another request: the delete of one file is dismissed while
  it is in flight and the dialog of another is opened; the first one's success closes the second's
  dialog without its file being deleted.
\<close>

theorem late_success_closes_dialog:
  assumes "tb_fileToDelete s = Some a" and "tb_deleting s = None"
    and "del (rr_id a) (tb_world s) = (Inr (), w')"
  shows "tb_fileToDelete (click_delete displayKey f (cancel_delete (confirm_delete s))) =
      Some \<lparr>rr_id = fd_id f, rr_key = displayKey (fd_key f)\<rparr>
    \<and> tb_fileToDelete (settle_delete del keys
        (click_delete displayKey f (cancel_delete (confirm_delete s)))) = None
    \<and> tb_world (settle_delete del keys
        (click_delete displayKey f (cancel_delete (confirm_delete s)))) = w'"
  using assms by (simp add: table_handlers)

end
