(* ===== verification/Photo_Wall.thy ===== *)
theory Photo_Wall
  imports Formatting Dto
begin

text \<open>
  The photo wall of \<open>web/src/components/PhotoWall.tsx\<close>: the grouping of the loaded photos by day and
  what a thumbnail shows.
\<close>

section \<open>Grouping\<close>

record DayGroup =
  dg_date :: jsstring
  dg_files :: "FileDto list"

definition effective_date :: "FileDto \<Rightarrow> jsstring option" where
  "effective_date file =
     (case fd_takenAt file of Some d \<Rightarrow> Some d
      | None \<Rightarrow> (case fd_updatedAt file of Some d \<Rightarrow> Some d | None \<Rightarrow> fd_createdAt file))"

definition photo_date :: "(jsstring \<Rightarrow> Date) \<Rightarrow> FileDto \<Rightarrow> jsstring" where
  "photo_date other file = formatDate other (effective_date file)"

text \<open>The body of the loop over the files.\<close>

definition add_photo :: "(jsstring \<Rightarrow> Date) \<Rightarrow> DayGroup list \<Rightarrow> FileDto \<Rightarrow> DayGroup list" where
  "add_photo other groups file =
     (let date = photo_date other file in
      if groups = [] \<or> dg_date (last groups) \<noteq> date
      then groups @ [\<lparr>dg_date = date, dg_files = [file]\<rparr>]
      else butlast groups @ [(last groups)\<lparr>dg_files := dg_files (last groups) @ [file]\<rparr>])"

definition groupByDay :: "(jsstring \<Rightarrow> Date) \<Rightarrow> FileDto list \<Rightarrow> DayGroup list" where
  "groupByDay other files = foldl (add_photo other) [] files"

section \<open>Thumbnails\<close>

datatype thumbnail =
    Preview_image jsstring "int option" "int option"
  | Processing
  | Preview_failed
  | No_preview

text \<open>An empty URL is falsy, like null.\<close>

definition PhotoThumbnail :: "FileDto \<Rightarrow> thumbnail" where
  "PhotoThumbnail file =
     (case fd_previewUrl file of
        Some (c # url) \<Rightarrow> Preview_image (c # url) (fd_previewWidth file) (fd_previewHeight file)
      | _ \<Rightarrow>
          if fd_previewStatus file = PREVIEW_PENDING \<or> fd_previewStatus file = PREVIEW_PROCESSING
          then Processing
          else if fd_previewStatus file = PREVIEW_FAILED then Preview_failed
          else No_preview)"

section \<open>Correctness of the grouping\<close>

lemma groupByDay_snoc:
  "groupByDay other (files @ [f]) = add_photo other (groupByDay other files) f"
  by (simp add: groupByDay_def)

lemma groupByDay_Nil [simp]: "groupByDay other [] = []"
  by (simp add: groupByDay_def)

lemma groupByDay_single [simp]:
  "groupByDay other [f] = [\<lparr>dg_date = photo_date other f, dg_files = [f]\<rparr>]"
  by (simp add: groupByDay_def add_photo_def)

text \<open>Adjacent groups have different dates; every group is a run of photos of its date.\<close>

definition day_runs :: "(jsstring \<Rightarrow> Date) \<Rightarrow> DayGroup list \<Rightarrow> bool" where
  "day_runs other groups \<longleftrightarrow>
     distinct_adj (map dg_date groups)
     \<and> list_all (\<lambda>g. dg_files g \<noteq> [] \<and> list_all (\<lambda>f. photo_date other f = dg_date g) (dg_files g)) groups"

lemma add_photo_runs:
  assumes "day_runs other groups"
  shows "day_runs other (add_photo other groups f)"
    and "concat (map dg_files (add_photo other groups f)) = concat (map dg_files groups) @ [f]"
    and "add_photo other groups f \<noteq> []" and "dg_date (last (add_photo other groups f)) = photo_date other f"
  using assms
  by (cases groups rule: rev_cases;
      auto simp: add_photo_def day_runs_def Let_def distinct_adj_append_iff last_map)+

lemma groupByDay_runs: "day_runs other (groupByDay other files)"
proof (induction files rule: rev_induct)
  case Nil
  then show ?case by (simp add: day_runs_def)
next
  case (snoc f files)
  then show ?case by (simp add: groupByDay_snoc add_photo_runs(1))
qed

lemma groupByDay_concat: "concat (map dg_files (groupByDay other files)) = files"
proof (induction files rule: rev_induct)
  case (snoc f files)
  then show ?case by (simp add: groupByDay_snoc add_photo_runs(2) [OF groupByDay_runs])
qed simp

lemma add_run:
  assumes "run \<noteq> []" and "list_all (\<lambda>f. photo_date other f = d) run"
    and "gs = [] \<or> dg_date (last gs) \<noteq> d"
  shows "foldl (add_photo other) gs run = gs @ [\<lparr>dg_date = d, dg_files = run\<rparr>]"
  using assms(1,2)
proof (induction run rule: rev_nonempty_induct)
  case (single f)
  with assms(3) show ?case by (auto simp: add_photo_def Let_def)
next
  case (snoc f run)
  then show ?case by (simp add: add_photo_def Let_def)
qed

lemma groupByDay_unique:
  "day_runs other gs \<Longrightarrow> groupByDay other (concat (map dg_files gs)) = gs"
proof (induction gs rule: rev_induct)
  case (snoc g gs)
  then have gs: "day_runs other gs" and run: "dg_files g \<noteq> []"
      "list_all (\<lambda>f. photo_date other f = dg_date g) (dg_files g)"
    and new: "gs = [] \<or> dg_date (last gs) \<noteq> dg_date g"
    by (auto simp: day_runs_def distinct_adj_append_iff last_map)
  have "groupByDay other (concat (map dg_files (gs @ [g]))) = foldl (add_photo other) gs (dg_files g)"
    using snoc.IH [OF gs] by (simp add: groupByDay_def)
  also have "\<dots> = gs @ [g]" using add_run [OF run new] by simp
  finally show ?case .
qed simp

lemma add_photo_dates:
  "map dg_date (add_photo other groups f) =
    (if groups \<noteq> [] \<and> dg_date (last groups) = photo_date other f then map dg_date groups
     else map dg_date groups @ [photo_date other f])"
  by (cases groups rule: rev_cases) (simp_all add: add_photo_def Let_def)

lemma groupByDay_dates: "map dg_date (groupByDay other files) = remdups_adj (map (photo_date other) files)"
proof (induction files rule: rev_induct)
  case (snoc f files)
  have last: "dg_date (last (groupByDay other files)) = photo_date other (last files)" if "files \<noteq> []"
    using that add_photo_runs(4) [OF groupByDay_runs]
    by (cases files rule: rev_cases) (simp_all add: groupByDay_snoc)
  have "groupByDay other files = [] \<longleftrightarrow> files = []"
    by (metis groupByDay_concat groupByDay_Nil list.simps(8) concat.simps(1))
  with last have step: "map dg_date (groupByDay other (files @ [f])) =
      (if files \<noteq> [] \<and> photo_date other (last files) = photo_date other f
       then map dg_date (groupByDay other files)
       else map dg_date (groupByDay other files) @ [photo_date other f])"
    by (cases "files = []") (simp_all add: groupByDay_snoc add_photo_dates)
  show ?case
    unfolding step snoc.IH by (cases files rule: rev_cases) (simp_all add: remdups_adj_append_two)
qed simp

section \<open>Properties\<close>

text \<open>
  C32. The groups are the runs of photos of one day: put together they are the photos in their order,
  no group is empty, all photos of a group have its date, adjacent groups have different dates; and
  there is no other division with these properties.
\<close>

theorem groupByDay_correct:
  "concat (map dg_files (groupByDay other files)) = files
    \<and> day_runs other (groupByDay other files)
    \<and> (day_runs other gs \<and> concat (map dg_files gs) = files \<longleftrightarrow> gs = groupByDay other files)"
  by (auto simp: groupByDay_concat groupByDay_runs groupByDay_unique)

lemma day_of_mono: "t \<le> u \<Longrightarrow> day_of t \<le> day_of u"
  by (simp add: day_of_def ms_per_day_def zdiv_mono1)

lemma labels_distinct:
  "sorted_wrt (\<ge>) ts \<Longrightarrow> (\<And>t. t \<in> set ts \<Longrightarrow> min_timestamp_ms \<le> t) \<Longrightarrow>
    distinct (remdups_adj (map format_en_US ts))"
proof (induction ts rule: induct_list012)
  case (3 x y ts)
  have IH: "distinct (remdups_adj (map format_en_US (y # ts)))"
    using 3(2-4) by simp
  show ?case
  proof (cases "format_en_US x = format_en_US y")
    case False
    then have xy: "day_of y < day_of x"
      using 3(3,4) day_of_mono [of y x] format_en_US_eq_iff [of x y] by fastforce
    have "format_en_US x \<noteq> format_en_US z" if "z \<in> set (y # ts)" for z
    proof -
      have "day_of z \<le> day_of y" using 3(3) that by (auto intro: day_of_mono)
      with xy that 3(4) format_en_US_eq_iff [of x z] show ?thesis by auto
    qed
    with IH False show ?thesis by auto
  qed (use IH in simp)
qed simp_all

text \<open>The day label of a photo whose date is the text of an instant.\<close>

definition taken :: "FileDto \<Rightarrow> int \<Rightarrow> bool" where
  "taken file t \<longleftrightarrow> min_timestamp_ms \<le> t \<and> t \<le> max_time
     \<and> map_option Inr (effective_date file) = Some (toISOString (Some t))"

lemma photo_date_taken: "taken f t \<Longrightarrow> photo_date other f = format_en_US t"
proof -
  assume t: "taken f t"
  then obtain s where "effective_date f = Some s" "toISOString (Some t) = Inr s"
    by (auto simp: taken_def simp del: toISOString.simps)
  moreover have "\<bar>t\<bar> \<le> max_time" 
    using t by (auto simp: taken_def max_time_def min_timestamp_ms_def simp del: toISOString.simps)
  ultimately show ?thesis by (simp add: photo_date_def formatDate_iso del: toISOString.simps)
qed

text \<open>
  On a wall of photos in the order the service lists them, newest first, every day has one
  section: the dates of the groups are distinct, and two photos are in the same group exactly if
  they were taken on the same day in UTC.
\<close>

theorem groupByDay_newest_first:
  assumes "list_all2 taken files ts" and "sorted_wrt (\<ge>) ts"
  shows "distinct (map dg_date (groupByDay other files))
    \<and> (\<forall>i j. i < length ts \<longrightarrow> j < length ts \<longrightarrow>
         (photo_date other (files ! i) = photo_date other (files ! j) \<longleftrightarrow> day_of (ts ! i) = day_of (ts ! j)))"
proof -
  have label: "map (photo_date other) files = map format_en_US ts"
    using assms(1) by (induction rule: list_all2_induct) (auto simp: photo_date_taken)
  have lo: "min_timestamp_ms \<le> t" if "t \<in> set ts" for t
    using assms(1) that by (induction rule: list_all2_induct) (auto simp: taken_def)
  have "distinct (map dg_date (groupByDay other files))"
    unfolding groupByDay_dates label using labels_distinct [OF assms(2) lo] .
  moreover have "photo_date other (files ! i) = format_en_US (ts ! i)" if "i < length ts" for i
    using label that assms(1) by (metis list_all2_lengthD nth_map)
  ultimately show ?thesis using lo by (auto simp: format_en_US_eq_iff)
qed

theorem groupByDay_newest_first_witness:
  "\<exists>s. toISOString (Some 0) = Inr s \<and> distinct (map dg_date (groupByDay (\<lambda>_. None)
    [\<lparr>fd_id = js ''1'', fd_key = js ''a'', fd_contentType = [], fd_sizeBytes = 1, fd_createdAt = None,
      fd_updatedAt = Some s, fd_takenAt = None, fd_previewUrl = None, fd_previewWidth = None,
      fd_previewHeight = None, fd_previewStatus = PREVIEW_NONE\<rparr>]))"
proof -
  obtain s where s: "toISOString (Some 0) = Inr s"
    by (cases "civil_from_days (day_of 0)") (simp add: Let_def)
  then have "taken \<lparr>fd_id = js ''1'', fd_key = js ''a'', fd_contentType = [], fd_sizeBytes = 1, fd_createdAt = None,
      fd_updatedAt = Some s, fd_takenAt = None, fd_previewUrl = None, fd_previewWidth = None,
      fd_previewHeight = None, fd_previewStatus = PREVIEW_NONE\<rparr> 0"
    by (simp add: taken_def effective_date_def min_timestamp_ms_def max_time_def del: toISOString.simps)
  then have "distinct (map dg_date (groupByDay (\<lambda>_. None) [\<lparr>fd_id = js ''1'', fd_key = js ''a'', fd_contentType = [], fd_sizeBytes = 1, fd_createdAt = None,
      fd_updatedAt = Some s, fd_takenAt = None, fd_previewUrl = None, fd_previewWidth = None,
      fd_previewHeight = None, fd_previewStatus = PREVIEW_NONE\<rparr>]))"
    by (intro conjunct1 [OF groupByDay_newest_first [of _ "[0]"]]) simp_all
  with s show ?thesis by blast
qed

end
