(* ===== verification/Listings.thy ===== *)
theory Listings
  imports Paging File_Table Photo_Wall Status_Poller
begin

text \<open>
  The listings of the web application: \<open>FileList.tsx\<close>, on the search page and on Recents, the query
  and the view of \<open>DirectoryList.tsx\<close>, and the query of \<open>PhotoWall.tsx\<close>. Each has the request it
  sends for a page parameter and the view it renders from the state of its query; each is an
  instance of the locale \<open>paged_list\<close>.
\<close>

section \<open>Requests\<close>

definition FILE_PAGE_SIZE :: int where
  "FILE_PAGE_SIZE = 50"

definition file_list_request :: "SearchFilters \<Rightarrow> jsstring \<Rightarrow> ListFilesInput" where
  "file_list_request filters pageParam =
     \<lparr>lfi_pageSize = Some FILE_PAGE_SIZE, lfi_pageToken = Some pageParam,
      lfi_query = Some (qf_query filters), lfi_contentType = Some (qf_type filters),
      lfi_sortField = Some (qf_sort filters), lfi_sortOrder = Some (qf_order filters)\<rparr>"

definition DIRECTORY_PAGE_SIZE :: int where
  "DIRECTORY_PAGE_SIZE = 50"

definition directory_list_request ::
  "jsstring \<Rightarrow> SortFieldInput \<Rightarrow> SortOrderInput \<Rightarrow> jsstring \<Rightarrow> ListDirectoryInput" where
  "directory_list_request path srt ord pageParam =
     \<lparr>ldi_path = Some path, ldi_pageSize = Some DIRECTORY_PAGE_SIZE, ldi_pageToken = Some pageParam,
      ldi_sortField = Some srt, ldi_sortOrder = Some ord\<rparr>"

definition PHOTO_PAGE_SIZE :: int where
  "PHOTO_PAGE_SIZE = 24"

definition photo_request :: "jsstring \<Rightarrow> ListFilesInput" where
  "photo_request pageParam =
     \<lparr>lfi_pageSize = Some PHOTO_PAGE_SIZE, lfi_pageToken = Some pageParam, lfi_query = Some [],
      lfi_contentType = Some (js ''image/''), lfi_sortField = Some SF_takenAt,
      lfi_sortOrder = Some SO_desc\<rparr>"

section \<open>The state of a query\<close>

text \<open>What \<open>useInfiniteQuery\<close> returns: \<open>isPending\<close>, \<open>isError\<close> with the error, or data.\<close>

datatype 'p query_state = Pending | Failed js_error | Loaded "'p list"

definition loaded_pages :: "'p query_state \<Rightarrow> 'p list" where
  "loaded_pages q = (case q of Loaded ps \<Rightarrow> ps | _ \<Rightarrow> [])"

datatype 'v list_view =
    Loading
  | Load_failed jsstring
  | Nothing_there jsstring
  | Rows 'v

section \<open>FileList\<close>

text \<open>
  \<open>base.charAt(0).toUpperCase() + base.slice(1)\<close>. \<open>upper\<close> is \<open>toUpperCase\<close> on a text of one code
  unit, whose table is Unicode's; on ASCII, of which MIME categories are made, it is \<open>ascii_upper\<close>.
\<close>

definition categoryLabel :: "(code_unit \<Rightarrow> jsstring) \<Rightarrow> jsstring \<Rightarrow> jsstring" where
  "categoryLabel upper category =
     (let base = (if endsWith category [slash] then slice category 0 (Some (-1)) else category)
      in (case base of [] \<Rightarrow> [] | c # _ \<Rightarrow> upper c) @ slice base 1 None)"

definition ascii_upper :: "code_unit \<Rightarrow> jsstring" where
  "ascii_upper c = [if 97 \<le> c \<and> c \<le> 122 then c - 32 else c]"

definition optionValues :: "jsstring \<Rightarrow> jsstring list option \<Rightarrow> jsstring list" where
  "optionValues selected contentTypes =
     (let categories = or_default contentTypes [] in
      if selected \<noteq> [] \<and> selected \<notin> set categories then selected # categories else categories)"

text \<open>The options of the select: the value and the label, or no select at all.\<close>

definition type_options ::
  "(code_unit \<Rightarrow> jsstring) \<Rightarrow> bool \<Rightarrow> SearchFilters \<Rightarrow> jsstring list option \<Rightarrow> (jsstring \<times> jsstring) list option" where
  "type_options upper hideSearchFilters filters contentTypes =
     (if hideSearchFilters then None
      else Some (([], js ''All types'') #
        map (\<lambda>v. (v, categoryLabel upper v)) (optionValues (qf_type filters) contentTypes)))"

definition change_type :: "SearchFilters \<Rightarrow> jsstring \<Rightarrow> SearchFilters" where
  "change_type filters value = filters\<lparr>qf_type := value\<rparr>"

definition isFiltered :: "SearchFilters \<Rightarrow> bool" where
  "isFiltered filters \<longleftrightarrow> qf_query filters \<noteq> [] \<or> qf_type filters \<noteq> []"

definition FileList :: "SearchFilters \<Rightarrow> ListFilesResult query_state \<Rightarrow> FileDto list list_view" where
  "FileList filters q =
     (case q of
        Pending \<Rightarrow> Loading
      | Failed e \<Rightarrow> Load_failed (js ''Failed to load files: '' @ String_of_error e)
      | Loaded pages \<Rightarrow>
          let files = concat (map lfr_files pages) in
          if files = []
          then Nothing_there (if isFiltered filters then js ''No files match your filters.'' else js ''No files.'')
          else Rows files)"

section \<open>DirectoryList\<close>

definition DirectoryList ::
  "jsstring \<Rightarrow> ListDirectoryResult query_state \<Rightarrow> (folder_row list \<times> FileDto list) list_view" where
  "DirectoryList path q =
     (case q of
        Pending \<Rightarrow> Loading
      | Failed e \<Rightarrow> Load_failed (js ''Failed to load directory: '' @ String_of_error e)
      | Loaded pages \<Rightarrow>
          let directories = concat (map ldr_directories pages); files = concat (map ldr_files pages) in
          if directories = [] \<and> files = []
          then Nothing_there (js ''No files yet '' @ [0x2014] @ js '' upload here, or navigate into a subfolder.'')
          else Rows (map (\<lambda>dir. \<lparr>fr_path = dir, fr_name = dirName path dir\<rparr>) directories, files))"

section \<open>PhotoWall\<close>

definition PhotoWall :: "(jsstring \<Rightarrow> Date) \<Rightarrow> ListFilesResult query_state \<Rightarrow> DayGroup list list_view" where
  "PhotoWall other q =
     (let files = concat (map lfr_files (loaded_pages q)); groups = groupByDay other files in
      case q of
        Pending \<Rightarrow> Loading
      | Failed e \<Rightarrow> Load_failed (js ''Failed to load photos: '' @ String_of_error e)
      | Loaded _ \<Rightarrow> if files = [] then Nothing_there (js ''No photos.'') else Rows groups)"

section \<open>The listings as paged lists\<close>

interpretation file_list: paged_list "file_list_request filters" lfi_pageToken
  "\<lambda>i. i\<lparr>lfi_pageToken := None\<rparr>" lfr_nextPageToken for filters
  by unfold_locales (simp_all add: file_list_request_def)

interpretation dir_list: paged_list "directory_list_request path srt ord" ldi_pageToken
  "\<lambda>i. i\<lparr>ldi_pageToken := None\<rparr>" ldr_nextPageToken for path srt ord
  by unfold_locales (simp_all add: directory_list_request_def)

interpretation photo_list: paged_list photo_request lfi_pageToken
  "\<lambda>i. i\<lparr>lfi_pageToken := None\<rparr>" lfr_nextPageToken
  by unfold_locales (simp_all add: photo_request_def)

section \<open>Properties\<close>

lemma categoryLabel_category:
  assumes "slash \<notin> set cs"
  shows "categoryLabel upper (c # cs @ [slash]) = upper c @ cs"
proof -
  have "nat (1 + int (length cs)) = Suc (length cs)" by simp
  then show ?thesis using assms by (simp add: categoryLabel_def endsWith_def slice_def Let_def)
qed

text \<open>The active type stays selectable, and every option is there once.\<close>

lemma optionValues_set:
  "set (optionValues selected types) = set (or_default types []) \<union> {t. t = selected \<and> t \<noteq> []}"
  by (auto simp: optionValues_def Let_def)

lemma optionValues_distinct:
  "distinct (or_default types []) \<Longrightarrow> distinct (optionValues selected types)"
  by (simp add: optionValues_def Let_def)

text \<open>
  Scrolling a directory: as long as the directory does not change, the folders and the files shown
  are those of the service's listing for exactly this path and sorting, in its order, from the
  start, none twice and none left out in between; while pages are missing, making the sentinel
  visible loads one; and when none is left the view is the view of the whole listing.
\<close>

theorem directory_scroll:
  assumes "answers_by (\<lambda>i. i\<lparr>ldi_pageToken := None\<rparr>) ldi_pageToken svc listDirectory"
    and "service_pages svc
      \<lparr>ldi_path = Some path, ldi_pageSize = Some 50, ldi_pageToken = None, ldi_sortField = Some srt,
       ldi_sortOrder = Some ord\<rparr> ldr_nextPageToken whole"
    and "shown_pages listDirectory (directory_list_request path srt ord) ldr_nextPageToken pages hasNextPage"
  shows "prefix (concat (map ldr_directories pages)) (concat (map ldr_directories whole))
    \<and> prefix (concat (map ldr_files pages)) (concat (map ldr_files whole))
    \<and> (pages \<noteq> whole \<longrightarrow> on_intersection [True] hasNextPage False)
    \<and> (\<not> hasNextPage \<longrightarrow> DirectoryList path (Loaded pages) = DirectoryList path (Loaded whole))"
proof -
  have "service_pages svc ((directory_list_request path srt ord [])\<lparr>ldi_pageToken := None\<rparr>) ldr_nextPageToken whole"
    using assms(2) by (simp add: directory_list_request_def DIRECTORY_PAGE_SIZE_def)
  note listing = dir_list.service_listing [OF assms(1) this]
  note rows = dir_list.shown_rows [OF assms(3) listing]
  have "on_intersection [True] hasNextPage False" if "pages \<noteq> whole"
    using dir_list.scroll_progress [OF assms(3) listing that] by simp
  then show ?thesis
    using rows(1) [of ldr_directories] rows(1) [of ldr_files] rows(2) [of ldr_directories] rows(2) [of ldr_files]
    by (auto simp: DirectoryList_def)
qed

text \<open>A directory of two pages.\<close>

definition two_pages :: "ListDirectoryInput \<Rightarrow> jsstring option \<Rightarrow> ListDirectoryResult outcome" where
  "two_pages i t =
     (if t = Some [] then Inr \<lparr>ldr_directories = [js ''a/''], ldr_files = [], ldr_nextPageToken = js ''t''\<rparr>
      else if t = Some (js ''t'')
      then Inr \<lparr>ldr_directories = [js ''b/''], ldr_files = [], ldr_nextPageToken = []\<rparr>
      else Inl unavailable)"

theorem directory_scroll_witness:
  "prefix [js ''a/''] [js ''a/'', js ''b/''] \<and> on_intersection [True] True False"
proof -
  let ?call = "\<lambda>i (w :: unit). (two_pages (i\<lparr>ldi_pageToken := None\<rparr>) (ldi_pageToken i), w)"
  let ?p = "\<lparr>ldr_directories = [js ''a/''], ldr_files = [], ldr_nextPageToken = js ''t''\<rparr>"
  let ?q = "\<lparr>ldr_directories = [js ''b/''], ldr_files = [], ldr_nextPageToken = []\<rparr>"
  have "answers_by (\<lambda>i. i\<lparr>ldi_pageToken := None\<rparr>) ldi_pageToken two_pages ?call"
    by (simp add: answers_by_def)
  moreover have "service_pages two_pages
      \<lparr>ldi_path = Some [], ldi_pageSize = Some 50, ldi_pageToken = None, ldi_sortField = Some SF_key,
       ldi_sortOrder = Some SO_asc\<rparr> ldr_nextPageToken [?p, ?q]"
    by (simp add: service_pages_def infinite_data_def getNextPageParam_def two_pages_def)
  moreover have "shown_pages ?call (directory_list_request [] SF_key SO_asc) ldr_nextPageToken [?p] True"
    by (simp add: shown_pages_def infinite_data_def getNextPageParam_def two_pages_def page_answers_def
        directory_list_request_def)
  ultimately show ?thesis using directory_scroll by fastforce
qed

lemma add_photo_butlast:
  "prefix (butlast groups) (butlast (add_photo other groups f))"
  by (cases groups rule: rev_cases) (auto simp: add_photo_def Let_def butlast_append)

lemma groupByDay_append_prefix:
  "prefix (butlast (groupByDay other xs)) (butlast (groupByDay other (xs @ ys)))"
proof (induction ys rule: rev_induct)
  case (snoc y ys)
  have "groupByDay other (xs @ ys @ [y]) = add_photo other (groupByDay other (xs @ ys)) y"
    using groupByDay_snoc [of other "xs @ ys" y] by simp
  with snoc add_photo_butlast show ?case by (metis prefix_order.trans)
qed simp

text \<open>
  Loading more photos disturbs nothing above: when pages are appended, every section of the wall but
  the last stays as it is and where it is; the last one can only grow, and the sections together are
  all the photos loaded, in order.
\<close>

theorem photo_wall_grows:
  assumes "PhotoWall other (Loaded pages) = Rows gs"
  shows "\<exists>gs'. PhotoWall other (Loaded (pages @ extra)) = Rows gs'
    \<and> prefix (butlast gs) gs' \<and> length gs \<le> length gs'
    \<and> concat (map dg_files gs') = concat (map lfr_files (pages @ extra))"
proof -
  let ?old = "concat (map lfr_files pages)" and ?new = "concat (map lfr_files (pages @ extra))"
  have old: "?old \<noteq> []" and gs: "gs = groupByDay other ?old"
    using assms by (auto simp: PhotoWall_def Let_def loaded_pages_def split: if_splits)
  then have view: "PhotoWall other (Loaded (pages @ extra)) = Rows (groupByDay other ?new)"
    by (auto simp: PhotoWall_def Let_def loaded_pages_def)
  have pre: "prefix (butlast gs) (butlast (groupByDay other ?new))"
    using groupByDay_append_prefix [of other ?old "concat (map lfr_files extra)"] by (simp add: gs)
  have "groupByDay other ?new \<noteq> []"
    using old groupByDay_concat [of other ?new] by auto
  with prefix_length_le [OF pre] have "length gs \<le> length (groupByDay other ?new)"
    by (cases "groupByDay other ?new" rule: rev_cases) auto
  moreover have "prefix (butlast gs) (groupByDay other ?new)"
    using pre prefix_order.trans prefixeq_butlast by blast
  ultimately show ?thesis using view groupByDay_concat [of other ?new] by blast
qed

definition sample_photo :: FileDto where
  "sample_photo =
     \<lparr>fd_id = js ''1'', fd_key = js ''a.jpg'', fd_contentType = js ''image/jpeg'', fd_sizeBytes = 1,
      fd_createdAt = None, fd_updatedAt = None, fd_takenAt = None, fd_previewUrl = None,
      fd_previewWidth = None, fd_previewHeight = None, fd_previewStatus = PREVIEW_NONE\<rparr>"

theorem photo_wall_grows_witness:
  "\<exists>gs'. PhotoWall (\<lambda>_. None) (Loaded ([\<lparr>lfr_files = [sample_photo], lfr_nextPageToken = js ''t''\<rparr>] @
      [\<lparr>lfr_files = [sample_photo], lfr_nextPageToken = []\<rparr>])) = Rows gs'
    \<and> concat (map dg_files gs') = [sample_photo, sample_photo]"
proof -
  have "PhotoWall (\<lambda>_. None) (Loaded [\<lparr>lfr_files = [sample_photo], lfr_nextPageToken = js ''t''\<rparr>]) =
      Rows [\<lparr>dg_date = photo_date (\<lambda>_. None) sample_photo, dg_files = [sample_photo]\<rparr>]"
    by (simp add: PhotoWall_def loaded_pages_def)
  from photo_wall_grows [OF this, of "[\<lparr>lfr_files = [sample_photo], lfr_nextPageToken = []\<rparr>]"]
  show ?thesis by auto
qed

end
