(* ===== verification/Listed_Service.thy ===== *)
theory Listed_Service
  imports Listings Server_Functions
begin

text \<open>
  What the listings show, all the way from the search service: the query function of a list calls the
  server function, which validates the request and lists by \<open>impl.ts\<close>; the pages are chained by the
  query library. A service whose answers depend on the request alone is a function of the request's
  parameters and its token; \<open>rpc_pages\<close> are its pages from the first to the last. The table of a
  directory and the sections of the photo wall are read off the views the components render.
\<close>

section \<open>Chains of answers\<close>

text \<open>A chain of pages that come one by one from other pages, with the same tokens, gives theirs.\<close>

lemma chained_related:
  assumes "chained answers nxt t ps"
    and "\<And>t p. answers t p \<Longrightarrow> \<exists>q. answers' t q \<and> R p q \<and> nxt' q = nxt p"
  shows "\<exists>qs. chained answers' nxt' t qs \<and> list_all2 R ps qs \<and> map nxt' qs = map nxt ps"
  using assms(1)
proof (induction ps arbitrary: t)
  case (Cons p ps)
  then have "answers t p" by simp
  then obtain q where q: "answers' t q" "R p q" "nxt' q = nxt p" using assms(2) by blast
  show ?case
  proof (cases "nxt p")
    case None
    with Cons.prems q show ?thesis by (intro exI [of _ "[q]"]) simp
  next
    case (Some u)
    with Cons.prems have "chained answers nxt u ps" by simp
    then obtain qs where "chained answers' nxt' u qs" "list_all2 R ps qs" "map nxt' qs = map nxt ps"
      using Cons.IH by blast
    with q Some show ?thesis by (intro exI [of _ "q # qs"]) simp
  qed
qed simp

text \<open>The whole listing of a service that answers by a function, for fixed parameters.\<close>

definition rpc_pages :: "(jsstring \<Rightarrow> 'r outcome) \<Rightarrow> ('r \<Rightarrow> jsstring) \<Rightarrow> 'r list \<Rightarrow> bool" where
  "rpc_pages svc token whole \<longleftrightarrow>
     infinite_data (\<lambda>t r. svc t = Inr r) (getNextPageParam \<circ> token) [] whole False"

lemma shown_from_service:
  assumes "shown_pages call request token pages hasNextPage"
    and "\<And>t p. page_answers call request t p \<Longrightarrow> \<exists>q. svc t = Inr q \<and> R p q \<and> token' q = token p"
    and "rpc_pages svc token' whole"
  obtains qs where "prefix qs whole" and "list_all2 R pages qs" and "\<not> hasNextPage \<Longrightarrow> qs = whole"
proof -
  let ?next = "getNextPageParam \<circ> token" and ?next' = "getNextPageParam \<circ> token'"
  have data: "pages \<noteq> []" "chained (page_answers call request) ?next [] pages"
    "hasNextPage \<longleftrightarrow> ?next (last pages) \<noteq> None"
    using assms(1) by (auto simp: shown_pages_def infinite_data_def)
  obtain qs where qs: "chained (\<lambda>t r. svc t = Inr r) ?next' [] qs" "list_all2 R pages qs"
    "map ?next' qs = map ?next pages"
    using chained_related [OF data(2), of "\<lambda>t r. svc t = Inr r" R ?next'] assms(2)
    by (metis comp_apply)
  have whole: "whole_listing (\<lambda>t r. svc t = Inr r) ?next' [] whole"
    using assms(3) by (auto simp: whole_listing_def rpc_pages_def)
  have "qs \<noteq> []" using qs(3) data(1) by auto
  moreover have "?next' (last qs) = ?next (last pages)"
    using qs(3) data(1) \<open>qs \<noteq> []\<close> by (metis last_map)
  ultimately have "infinite_data (\<lambda>t r. svc t = Inr r) ?next' [] qs hasNextPage"
    using qs(1) data(3) by (simp add: infinite_data_def)
  from infinite_data_prefix [OF whole this] qs(2) that show thesis by blast
qed

text \<open>While pages are missing, making the sentinel visible loads one.\<close>

lemma missing_has_next:
  assumes "list_all2 R pages qs" and "prefix qs whole" and "\<not> hasNextPage \<Longrightarrow> qs = whole"
    and "length pages < length whole"
  shows "on_intersection [True] hasNextPage False"
  using assms list_all2_lengthD [OF assms(1)] by (auto simp: on_intersection_def)

lemma rows_prefix:
  assumes "list_all2 R pages qs" and "prefix qs whole" and "\<And>p q. R p q \<Longrightarrow> f p = g q"
  shows "prefix (concat (map f pages)) (concat (map g whole))"
proof -
  have "map f pages = map g qs"
    using assms(1,3) by (auto simp: list_all2_conv_all_nth intro: nth_equalityI)
  then show ?thesis using assms(2) by (auto simp: prefix_def)
qed

lemma shown_take:
  assumes "list_all2 R pages qs" and "prefix qs whole"
  shows "qs = take (length pages) whole" and "length pages \<le> length whole"
  using assms list_all2_lengthD [OF assms(1)] by (auto simp: prefix_def)

lemma prefix_rows_take [simp]:
  "prefix (map g (concat (map f (take n xs)))) (map g (concat (map f xs)))"
proof -
  have "concat (map f xs) = concat (map f (take n xs)) @ concat (map f (drop n xs))"
    by (metis append_take_drop_id concat_append map_append)
  then show ?thesis by simp
qed

section \<open>One page\<close>

text \<open>What a row shows of its file: the id and the key, which every projection keeps.\<close>

abbreviation shown_row :: "FileDto \<Rightarrow> jsstring \<times> jsstring" where
  "shown_row d \<equiv> (fd_id d, fd_key d)"

abbreviation service_row :: "FileInfo \<Rightarrow> jsstring \<times> jsstring" where
  "service_row f \<equiv> (bigint_toString (fi_id f), fi_key f)"

lemma resolved_rows:
  assumes "traverse (toFileDto td) fs = Inr dtos" and "resolve_previews files fs dtos w = (Inr ds, w')"
  shows "map shown_row ds = map service_row fs"
proof -
  have "map without_preview ds = map without_preview dtos"
    using resolve_previews_Inr [of files fs dtos w] assms(2) by auto
  then have "map (shown_row \<circ> without_preview) ds = map (shown_row \<circ> without_preview) dtos"
    by (metis map_map)
  then have "map shown_row ds = map shown_row dtos"
    by (simp add: without_preview_def comp_def)
  then show ?thesis
    using traverse_toFileDto_plain(2,3) [OF assms(1)]
    by (auto simp: list_eq_iff_nth_eq dest: arg_cong [where f = length])
qed

definition directory_page :: "ListDirectoryResult \<Rightarrow> ListDirectoryResponse \<Rightarrow> bool" where
  "directory_page p r \<longleftrightarrow> ldr_directories p = ld_res_directories r
     \<and> map shown_row (ldr_files p) = map service_row (ld_res_files r)"

definition file_page :: "ListFilesResult \<Rightarrow> ListFilesResponse \<Rightarrow> bool" where
  "file_page p r \<longleftrightarrow> map shown_row (lfr_files p) = map service_row (lf_res_files r)"

lemma directory_answer:
  assumes "served wire (listDirectory td c) call" and "wf_pageSize (ldi_pageSize i)"
    and "call (send_ListDirectoryInput i) w = (Inr p, w')"
  shows "\<exists>r. fst (sc_listDirectory (getSearchClient c) (list_directory_request i) w) = Inr r
    \<and> directory_page p r \<and> ld_res_nextPageToken r = ldr_nextPageToken p"
proof -
  have "listDirectoryImpl td (getSearchClient c) (getFilesClient c) i w = (Inr p, w')"
    using list_directory_fn.sent_served [OF assms(1,2)] assms(3) by (simp add: listDirectory_def wired_Inr)
  then show ?thesis
    unfolding listDirectoryImpl_def
    by (elim await_InrE) (auto simp: lift_run directory_page_def intro: resolved_rows)
qed

lemma files_answer:
  assumes "served wire (listFiles td c) call" and "wf_pageSize (lfi_pageSize i)"
    and "call (send_ListFilesInput i) w = (Inr p, w')"
  shows "\<exists>r. fst (sc_listFiles (getSearchClient c) (list_files_request i) w) = Inr r
    \<and> file_page p r \<and> lf_res_nextPageToken r = lfr_nextPageToken p"
proof -
  have "listFilesImpl td (getSearchClient c) (getFilesClient c) i w = (Inr p, w')"
    using list_files_fn.sent_served [OF assms(1,2)] assms(3) by (simp add: listFiles_def wired_Inr)
  then show ?thesis
    unfolding listFilesImpl_def
    by (elim await_InrE) (auto simp: lift_run file_page_def intro: resolved_rows)
qed

text \<open>The lists of files, by their request.\<close>

lemma files_shown:
  assumes "served wire (listFiles td c) call"
    and "\<And>req w. fst (sc_listFiles (getSearchClient c) req w) = svc req"
    and "\<And>t. wf_pageSize (lfi_pageSize (request t))"
    and "rpc_pages (\<lambda>t. svc (list_files_request (request t))) lf_res_nextPageToken whole"
    and "shown_pages (call \<circ> send_ListFilesInput) request lfr_nextPageToken pages hasNextPage"
  shows "length pages \<le> length whole
    \<and> map shown_row (concat (map lfr_files pages)) =
        map service_row (concat (map lf_res_files (take (length pages) whole)))
    \<and> prefix (map shown_row (concat (map lfr_files pages))) (map service_row (concat (map lf_res_files whole)))
    \<and> (length pages < length whole \<longrightarrow> on_intersection [True] hasNextPage False)
    \<and> (\<not> hasNextPage \<longrightarrow>
        map shown_row (concat (map lfr_files pages)) = map service_row (concat (map lf_res_files whole)) \<and> length pages = length whole)"
proof -
  have answer: "\<exists>r. svc (list_files_request (request t)) = Inr r \<and> file_page p r
      \<and> lf_res_nextPageToken r = lfr_nextPageToken p"
    if "page_answers (call \<circ> send_ListFilesInput) request t p" for t p
  proof -
    obtain w w' where "call (send_ListFilesInput (request t)) w = (Inr p, w')"
      using \<open>page_answers _ _ t p\<close> by (auto simp: page_answers_def)
    from files_answer [OF assms(1,3) this] show ?thesis by (simp add: assms(2))
  qed
  obtain qs where qs: "prefix qs whole" "list_all2 file_page pages qs" "\<not> hasNextPage \<Longrightarrow> qs = whole"
    using shown_from_service [OF assms(5), where R = file_page, OF answer assms(4)] by metis
  have "map (map shown_row \<circ> lfr_files) pages = map (map service_row \<circ> lf_res_files) qs"
    using qs(2) by (auto simp: list_all2_conv_all_nth file_page_def intro!: nth_equalityI)
  from arg_cong [OF this, of concat]
  have "map shown_row (concat (map lfr_files pages)) = map service_row (concat (map lf_res_files qs))"
    by (simp add: map_concat comp_def)
  moreover have "on_intersection [True] hasNextPage False" if "length pages < length whole"
    using missing_has_next [OF qs(2,1,3) that] by simp
  moreover note shown_take [OF qs(2,1)]
  ultimately show ?thesis using qs(3) by auto
qed

section \<open>Properties\<close>

text \<open>
  What the page of a directory shows of its query: the folders of the table, each with the path its
  row opens and the name on it, and the files, each with the id its row opens and the key on it.
\<close>

definition directory_table ::
  "(jsstring \<Rightarrow> Date) \<Rightarrow> jsstring \<Rightarrow> ListDirectoryResult query_state \<Rightarrow> 'w table_state \<Rightarrow>
     (jsstring \<times> jsstring) list \<times> (jsstring \<times> jsstring) list" where
  "directory_table other path q s =
     (case DirectoryList path q of
        Rows (folders, files) \<Rightarrow>
          let v = FileTable other (basename path) (Some folders) files s
          in (map (\<lambda>r. (fv_path r, fv_name r)) (tv_folders v),
              map (\<lambda>r. (iv_id r, tr_key (iv_row r))) (tv_files v))
      | _ \<Rightarrow> ([], []))"

text \<open>
  What the service's answers say there is: the folders and the files, under the rest of their key
  after the path, a folder without its trailing slash.
\<close>

definition directory_content ::
  "jsstring \<Rightarrow> ListDirectoryResponse list \<Rightarrow> (jsstring \<times> jsstring) list \<times> (jsstring \<times> jsstring) list" where
  "directory_content path rs =
     (map (\<lambda>d. (d, strip_trailing_slash (drop (length path) d))) (concat (map ld_res_directories rs)),
      map (\<lambda>f. (bigint_toString (fi_id f), drop (length path) (fi_key f))) (concat (map ld_res_files rs)))"

lemma basename_drop: "basename path key = drop (length path) key"
  using slice_from [of key "length path"] by (simp add: basename_def)

lemma directory_table_rows:
  "directory_table other path (Loaded pages) s =
    (map (\<lambda>d. (d, strip_trailing_slash (drop (length path) d))) (concat (map ldr_directories pages)),
     map (\<lambda>d. (fd_id d, drop (length path) (fd_key d))) (concat (map ldr_files pages)))"
  by (simp add: directory_table_def DirectoryList_def Let_def FileTable_def folder_table_row_def
      file_table_row_def file_row_def dirName_def basename_drop comp_def)

lemma table_shows_content:
  assumes "list_all2 directory_page pages rs"
  shows "directory_table other path (Loaded pages) s = directory_content path rs"
proof -
  have dirs: "map ldr_directories pages = map ld_res_directories rs"
    and files: "map (map shown_row \<circ> ldr_files) pages = map (map service_row \<circ> ld_res_files) rs"
    using assms by (auto simp: list_all2_conv_all_nth directory_page_def intro!: nth_equalityI)
  have "map shown_row (concat (map ldr_files pages)) = map service_row (concat (map ld_res_files rs))"
    using arg_cong [OF files, of concat] by (simp add: map_concat comp_def)
  from arg_cong [OF this, of "map (\<lambda>(i, k). (i, drop (length path) k))"] dirs show ?thesis
    by (simp add: directory_table_rows directory_content_def comp_def)
qed

text \<open>
  C14. Scrolling a directory shows the service's directory: as long as the search service answers the
  same, the table on the page has exactly the folders and the files of as many pages of the service's
  listing of this path under this sorting as were loaded, from the first page on, in the service's
  order: each folder under its path and each file under its id, named by what follows the path; the
  rows act under the files' own keys; while pages are missing, making the sentinel visible loads one;
  and when none is left the table has the whole directory.
\<close>

theorem directory_shows_service:
  assumes "served wire (listDirectory td c) call"
    and "\<And>req w. fst (sc_listDirectory (getSearchClient c) req w) = svc req"
    and "rpc_pages (\<lambda>t. svc \<lparr>ld_req_path = path, ld_req_pageSize = 50, ld_req_pageToken = t,
        ld_req_sortField = SORT_FIELD_PB srt, ld_req_sortOrder = SORT_ORDER_PB ord\<rparr>) ld_res_nextPageToken whole"
    and "shown_pages (call \<circ> send_ListDirectoryInput) (directory_list_request path srt ord) ldr_nextPageToken
        pages hasNextPage"
  shows "directory_table other path (Loaded pages) s = directory_content path (take (length pages) whole)
    \<and> length pages \<le> length whole
    \<and> prefix (concat (map ldr_directories pages)) (concat (map ld_res_directories whole))
    \<and> prefix (map shown_row (concat (map ldr_files pages))) (map service_row (concat (map ld_res_files whole)))
    \<and> (length pages < length whole \<longrightarrow> on_intersection [True] hasNextPage False)
    \<and> (\<not> hasNextPage \<longrightarrow> directory_table other path (Loaded pages) s = directory_content path whole
        \<and> concat (map ldr_directories pages) = concat (map ld_res_directories whole)
        \<and> map shown_row (concat (map ldr_files pages)) = map service_row (concat (map ld_res_files whole)))"
proof -
  let ?svc = "\<lambda>t. svc \<lparr>ld_req_path = path, ld_req_pageSize = 50, ld_req_pageToken = t,
      ld_req_sortField = SORT_FIELD_PB srt, ld_req_sortOrder = SORT_ORDER_PB ord\<rparr>"
  have req: "list_directory_request (directory_list_request path srt ord t) = \<lparr>ld_req_path = path,
      ld_req_pageSize = 50, ld_req_pageToken = t, ld_req_sortField = SORT_FIELD_PB srt,
      ld_req_sortOrder = SORT_ORDER_PB ord\<rparr>" for t
    by (simp add: list_directory_request_def directory_list_request_def or_default_def DIRECTORY_PAGE_SIZE_def)
  have answer: "\<exists>r. ?svc t = Inr r \<and> directory_page p r \<and> ld_res_nextPageToken r = ldr_nextPageToken p"
    if "page_answers (call \<circ> send_ListDirectoryInput) (directory_list_request path srt ord) t p" for t p
  proof -
    obtain w w' where "call (send_ListDirectoryInput (directory_list_request path srt ord t)) w = (Inr p, w')"
      using \<open>page_answers _ _ t p\<close> by (auto simp: page_answers_def)
    from directory_answer [OF assms(1) _ this] show ?thesis
      by (simp add: assms(2) req) (simp add: wf_pageSize_def directory_list_request_def DIRECTORY_PAGE_SIZE_def)
  qed
  obtain qs where qs: "prefix qs whole" "list_all2 directory_page pages qs" "\<not> hasNextPage \<Longrightarrow> qs = whole"
    using shown_from_service [OF assms(4), where R = directory_page, OF answer assms(3)] by metis
  have dirs: "map ldr_directories pages = map ld_res_directories qs"
    and files: "map (map shown_row \<circ> ldr_files) pages = map (map service_row \<circ> ld_res_files) qs"
    using qs(2) by (auto simp: list_all2_conv_all_nth directory_page_def intro!: nth_equalityI)
  have rows: "map shown_row (concat (map ldr_files pages)) = map service_row (concat (map ld_res_files qs))"
    using arg_cong [OF files, of concat] by (simp add: map_concat comp_def)
  with dirs qs(1) have "prefix (concat (map ldr_directories pages)) (concat (map ld_res_directories whole))"
    and "prefix (map shown_row (concat (map ldr_files pages))) (map service_row (concat (map ld_res_files whole)))"
    by (auto simp: prefix_def)
  moreover have "on_intersection [True] hasNextPage False" if "length pages < length whole"
    using missing_has_next [OF qs(2,1,3) that] by simp
  ultimately show ?thesis
    using table_shows_content [OF qs(2), of other path s] shown_take [OF qs(2,1)] dirs qs(3) rows by auto
qed

text \<open>A search service with a directory of two pages, the second with a file.\<close>

definition two_page_listing :: "ListDirectoryRequest \<Rightarrow> ListDirectoryResponse outcome" where
  "two_page_listing req =
     (if ld_req_pageToken req = []
      then Inr \<lparr>ld_res_directories = [js ''a/''], ld_res_files = [], ld_res_nextPageToken = js ''t''\<rparr>
      else Inr \<lparr>ld_res_directories = [js ''b/''], ld_res_files = [sample_file 7], ld_res_nextPageToken = []\<rparr>)"

definition two_page_clients :: "unit clients" where
  "two_page_clients =
     \<lparr>getSearchClient = down_search_client\<lparr>sc_listDirectory := (\<lambda>req w. (two_page_listing req, w))\<rparr>,
      getFilesClient = down_files_client\<rparr>"

lemma two_page_first:
  "local_call (listDirectory epoch two_page_clients) (send_ListDirectoryInput (directory_list_request [] SF_key SO_asc [])) () =
    (Inr \<lparr>ldr_directories = [js ''a/''], ldr_files = [], ldr_nextPageToken = js ''t''\<rparr>, ())"
proof -
  let ?i = "directory_list_request [] SF_key SO_asc []"
  let ?r = "\<lparr>ld_res_directories = [js ''a/''], ld_res_files = [], ld_res_nextPageToken = js ''t''\<rparr>"
  have "sc_listDirectory (getSearchClient two_page_clients) (list_directory_request ?i) () = (Inr ?r, ())"
    by (simp add: two_page_clients_def two_page_listing_def list_directory_request_def directory_list_request_def
        or_default_def)
  from listDirectoryImpl_run [OF this, of epoch "[]" "getFilesClient two_page_clients" "[]" "()"]
  have "listDirectoryImpl epoch (getSearchClient two_page_clients) (getFilesClient two_page_clients) ?i () =
      (Inr \<lparr>ldr_directories = [js ''a/''], ldr_files = [], ldr_nextPageToken = js ''t''\<rparr>, ())"
    by (simp add: resolve_previews_run preview_ids_def)
  then show ?thesis
    using list_directory_fn.sent_served [OF local_call_served [of "listDirectory epoch two_page_clients"], of ?i "()"]
    by (simp add: listDirectory_def wf_pageSize_def directory_list_request_def DIRECTORY_PAGE_SIZE_def wired_def)
qed

theorem directory_shows_service_witness:
  "directory_table (\<lambda>_. None) [] (Loaded [\<lparr>ldr_directories = [js ''a/''], ldr_files = [], ldr_nextPageToken = js ''t''\<rparr>])
      (initial_table ()) = ([(js ''a/'', js ''a'')], [])
    \<and> on_intersection [True] True False"
proof -
  let ?call = "local_call (listDirectory epoch two_page_clients)"
  let ?p = "\<lparr>ldr_directories = [js ''a/''], ldr_files = [], ldr_nextPageToken = js ''t''\<rparr>"
  let ?r1 = "\<lparr>ld_res_directories = [js ''a/''], ld_res_files = [], ld_res_nextPageToken = js ''t''\<rparr>"
  let ?r2 = "\<lparr>ld_res_directories = [js ''b/''], ld_res_files = [sample_file 7], ld_res_nextPageToken = []\<rparr>"
  have t: "js ''t'' \<noteq> []" by (simp add: js_def)
  have rpc: "rpc_pages (\<lambda>t. two_page_listing \<lparr>ld_req_path = [], ld_req_pageSize = 50, ld_req_pageToken = t,
      ld_req_sortField = SORT_FIELD_PB SF_key, ld_req_sortOrder = SORT_ORDER_PB SO_asc\<rparr>) ld_res_nextPageToken [?r1, ?r2]"
    by (simp add: rpc_pages_def infinite_data_def two_page_listing_def getNextPageParam_def t)
  have shown: "shown_pages (?call \<circ> send_ListDirectoryInput) (directory_list_request [] SF_key SO_asc)
      ldr_nextPageToken [?p] True"
    using two_page_first by (auto simp: shown_pages_def infinite_data_def page_answers_def getNextPageParam_def t)
  have svc: "fst (sc_listDirectory (getSearchClient two_page_clients) req w) = two_page_listing req" for req w
    by (simp add: two_page_clients_def)
  show ?thesis
    using directory_shows_service [OF local_call_served [of "listDirectory epoch two_page_clients"] svc rpc shown,
        of "\<lambda>_. None" "initial_table ()"]
    by (simp add: directory_content_def js_def strip_trailing_slash_def slash_def)
qed

text \<open>What the sections of the wall show, put together: per photo the id its button opens and its key.\<close>

definition wall_photos ::
  "(jsstring \<Rightarrow> Date) \<Rightarrow> ListFilesResult query_state \<Rightarrow> (jsstring \<times> jsstring) list" where
  "wall_photos other q =
     (case PhotoWall other q of Rows gs \<Rightarrow> concat (map (map shown_row \<circ> dg_files) gs) | _ \<Rightarrow> [])"

lemma wall_photos_loaded:
  "wall_photos other (Loaded pages) = map shown_row (concat (map lfr_files pages))"
proof -
  let ?files = "concat (map lfr_files pages)"
  have "concat (map (map shown_row \<circ> dg_files) (groupByDay other ?files)) =
      map shown_row (concat (map dg_files (groupByDay other ?files)))"
    by (simp add: map_concat comp_def)
  then show ?thesis
    by (simp add: wall_photos_def PhotoWall_def Let_def loaded_pages_def groupByDay_concat)
qed

text \<open>
  C9. The photo wall shows the service's images: as long as the search service answers the same, the
  sections of the wall have, put together, exactly the photos of as many pages of the service's
  listing of all images by the day they were taken, newest first, as were loaded, from the first page
  on, in the service's order, each under its own id and key; while pages are missing, making the
  sentinel visible loads one, and when none is left the wall has all of them.
\<close>

theorem photos_show_service:
  assumes "served wire (listFiles td c) call"
    and "\<And>req w. fst (sc_listFiles (getSearchClient c) req w) = svc req"
    and "rpc_pages (\<lambda>t. svc \<lparr>lf_req_pageSize = 24, lf_req_pageToken = t, lf_req_query = [],
        lf_req_contentType = js ''image/'', lf_req_sortField = SORT_FIELD_TAKEN_AT,
        lf_req_sortOrder = SORT_ORDER_DESC\<rparr>) lf_res_nextPageToken whole"
    and "shown_pages (call \<circ> send_ListFilesInput) photo_request lfr_nextPageToken pages hasNextPage"
  shows "wall_photos other (Loaded pages) =
      map service_row (concat (map lf_res_files (take (length pages) whole)))
    \<and> length pages \<le> length whole
    \<and> (length pages < length whole \<longrightarrow> on_intersection [True] hasNextPage False)
    \<and> (\<not> hasNextPage \<longrightarrow>
        wall_photos other (Loaded pages) = map service_row (concat (map lf_res_files whole)))"
proof -
  have "list_files_request (photo_request t) = \<lparr>lf_req_pageSize = 24, lf_req_pageToken = t, lf_req_query = [],
      lf_req_contentType = js ''image/'', lf_req_sortField = SORT_FIELD_TAKEN_AT, lf_req_sortOrder = SORT_ORDER_DESC\<rparr>"
    and "wf_pageSize (lfi_pageSize (photo_request t))" for t
    by (simp_all add: list_files_request_def photo_request_def or_default_def PHOTO_PAGE_SIZE_def wf_pageSize_def)
  with files_shown [OF assms(1,2), of photo_request whole pages hasNextPage] assms(3,4) show ?thesis
    by (simp add: wall_photos_loaded)
qed

text \<open>
  C15. The search results are what the search service finds: as long as it answers the same, the files
  listed are those of its listing for exactly this text, type and sorting, in its order, from the
  start, each under its own id and key; while pages are missing, making the sentinel visible loads
  one, and when none is left all are shown.
\<close>

theorem search_shows_service:
  assumes "served wire (listFiles td c) call"
    and "\<And>req w. fst (sc_listFiles (getSearchClient c) req w) = svc req"
    and "rpc_pages (\<lambda>t. svc \<lparr>lf_req_pageSize = 50, lf_req_pageToken = t, lf_req_query = qf_query f,
        lf_req_contentType = qf_type f, lf_req_sortField = SORT_FIELD_PB (qf_sort f),
        lf_req_sortOrder = SORT_ORDER_PB (qf_order f)\<rparr>) lf_res_nextPageToken whole"
    and "shown_pages (call \<circ> send_ListFilesInput) (file_list_request f) lfr_nextPageToken pages hasNextPage"
  shows "prefix (map shown_row (concat (map lfr_files pages))) (map service_row (concat (map lf_res_files whole)))
    \<and> (length pages < length whole \<longrightarrow> on_intersection [True] hasNextPage False)
    \<and> (\<not> hasNextPage \<longrightarrow>
        map shown_row (concat (map lfr_files pages)) = map service_row (concat (map lf_res_files whole)))"
proof -
  have "list_files_request (file_list_request f t) = \<lparr>lf_req_pageSize = 50, lf_req_pageToken = t,
      lf_req_query = qf_query f, lf_req_contentType = qf_type f, lf_req_sortField = SORT_FIELD_PB (qf_sort f),
      lf_req_sortOrder = SORT_ORDER_PB (qf_order f)\<rparr>"
    and "wf_pageSize (lfi_pageSize (file_list_request f t))" for t
    by (simp_all add: list_files_request_def file_list_request_def or_default_def FILE_PAGE_SIZE_def wf_pageSize_def)
  with files_shown [OF assms(1,2), of "file_list_request f" whole pages hasNextPage] assms(3,4) show ?thesis by simp
qed

text \<open>A search service that finds one file whatever is asked.\<close>

definition one_hit :: ListFilesResponse where
  "one_hit = \<lparr>lf_res_files = [sample_file 7], lf_res_nextPageToken = []\<rparr>"

definition one_hit_clients :: "unit clients" where
  "one_hit_clients =
     \<lparr>getSearchClient = down_search_client\<lparr>sc_listFiles := (\<lambda>req w. (Inr one_hit, w))\<rparr>,
      getFilesClient = down_files_client\<rparr>"

lemma one_hit_shown:
  assumes "\<And>t. wf_pageSize (lfi_pageSize (request t))"
  obtains p where "shown_pages (local_call (listFiles epoch one_hit_clients) \<circ> send_ListFilesInput) request
    lfr_nextPageToken [p] False"
proof -
  let ?i = "request []" and ?call = "local_call (listFiles epoch one_hit_clients)"
  obtain d where d: "toFileDto epoch (sample_file 7) = Inr d"
    using sample_file_timestamps [of 7] toFileDto_Inr_iff [of epoch "sample_file 7"] by blast
  obtain ds w' where ds: "resolve_previews (getFilesClient one_hit_clients) [sample_file 7] [d] () = (Inr ds, w')"
    by (rule resolve_previews_Inr [of _ _ _ "()"])
  have "listFilesImpl epoch (getSearchClient one_hit_clients) (getFilesClient one_hit_clients) ?i () =
      (Inr \<lparr>lfr_files = ds, lfr_nextPageToken = []\<rparr>, w')"
    using listFilesImpl_run [of "getSearchClient one_hit_clients" ?i "()" one_hit "()" epoch "[d]"] d ds
    by (simp add: one_hit_clients_def one_hit_def)
  then have "?call (send_ListFilesInput ?i) () = (Inr \<lparr>lfr_files = ds, lfr_nextPageToken = []\<rparr>, w')"
    using list_files_fn.sent_served [OF local_call_served [of "listFiles epoch one_hit_clients"] assms, of "[]" "()"]
    by (simp add: listFiles_def wired_def)
  then have "shown_pages (?call \<circ> send_ListFilesInput) request lfr_nextPageToken
      [\<lparr>lfr_files = ds, lfr_nextPageToken = []\<rparr>] False"
    by (auto simp: shown_pages_def infinite_data_def page_answers_def getNextPageParam_def)
  then show thesis by (rule that)
qed

lemma one_hit_pages: "rpc_pages (\<lambda>t. (\<lambda>_. Inr one_hit) (request t)) lf_res_nextPageToken [one_hit]"
  by (simp add: rpc_pages_def infinite_data_def getNextPageParam_def one_hit_def)

lemma one_hit_service: "fst (sc_listFiles (getSearchClient one_hit_clients) req w) = (\<lambda>_. Inr one_hit) req"
  by (simp add: one_hit_clients_def)

theorem search_shows_service_witness:
  "\<exists>p. shown_pages (local_call (listFiles epoch one_hit_clients) \<circ> send_ListFilesInput)
      (file_list_request DEFAULT_SEARCH_FILTERS) lfr_nextPageToken [p] False
    \<and> map shown_row (lfr_files p) = [service_row (sample_file 7)]"
proof -
  have "wf_pageSize (lfi_pageSize (file_list_request DEFAULT_SEARCH_FILTERS t))" for t
    by (simp add: wf_pageSize_def file_list_request_def FILE_PAGE_SIZE_def)
  then obtain p where p: "shown_pages (local_call (listFiles epoch one_hit_clients) \<circ> send_ListFilesInput)
      (file_list_request DEFAULT_SEARCH_FILTERS) lfr_nextPageToken [p] False"
    by (rule one_hit_shown)
  from search_shows_service [OF local_call_served [of "listFiles epoch one_hit_clients"] one_hit_service
      one_hit_pages p] p
  show ?thesis by (intro exI [of _ p]) (simp add: one_hit_def)
qed

theorem photos_show_service_witness:
  "\<exists>p. shown_pages (local_call (listFiles epoch one_hit_clients) \<circ> send_ListFilesInput)
      photo_request lfr_nextPageToken [p] False
    \<and> wall_photos (\<lambda>_. None) (Loaded [p]) = [service_row (sample_file 7)]"
proof -
  have "wf_pageSize (lfi_pageSize (photo_request t))" for t
    by (simp add: wf_pageSize_def photo_request_def PHOTO_PAGE_SIZE_def)
  then obtain p where p: "shown_pages (local_call (listFiles epoch one_hit_clients) \<circ> send_ListFilesInput)
      photo_request lfr_nextPageToken [p] False"
    by (rule one_hit_shown)
  from photos_show_service [OF local_call_served [of "listFiles epoch one_hit_clients"] one_hit_service
      one_hit_pages p, of "\<lambda>_. None"] p
  show ?thesis by (intro exI [of _ p]) (simp add: one_hit_def)
qed

end
