(* ===== verification/Folder_Tree.thy ===== *)
theory Folder_Tree
  imports Path_Ui Upload_Path Impl
begin

text \<open>
  The sidebar tree of \<open>web/src/components/FolderTree.tsx\<close> and the loader of the move dialog in
  \<open>web/src/components/MoveFileDialog.tsx\<close>: two loops that page through \<open>listDirectory\<close> for the
  child directories of a path, and the expansion state of a tree node. The first loop has no bound,
  so it is a partial function in which \<open>None\<close> means that it never returns; the second stops after a
  hundred pages.
\<close>

section \<open>Loading child directories\<close>

type_synonym 'w list_directory = "ListDirectoryInput \<Rightarrow> (ListDirectoryResult, 'w) async"

definition child_request :: "jsstring \<Rightarrow> jsstring option \<Rightarrow> ListDirectoryInput" where
  "child_request path pageToken =
     \<lparr>ldi_path = Some path, ldi_pageSize = None, ldi_pageToken = pageToken,
      ldi_sortField = Some SF_key, ldi_sortOrder = Some SO_asc\<rparr>"

partial_function (option) tree_loop ::
  "'w list_directory \<Rightarrow> jsstring \<Rightarrow> jsstring option \<Rightarrow> jsstring list \<Rightarrow> 'w \<Rightarrow>
     (jsstring list outcome \<times> 'w) option" where
  "tree_loop listDirectory path pageToken directories w =
     (case listDirectory (child_request path pageToken) w of
        (Inl e, w') \<Rightarrow> Some (Inl e, w')
      | (Inr page, w') \<Rightarrow>
          if ldr_files page \<noteq> [] then Some (Inr (directories @ ldr_directories page), w')
          else if ldr_nextPageToken page = [] then Some (Inr (directories @ ldr_directories page), w')
          else tree_loop listDirectory path (Some (ldr_nextPageToken page))
                 (directories @ ldr_directories page) w')"

definition fetchChildDirectories ::
  "'w list_directory \<Rightarrow> jsstring \<Rightarrow> 'w \<Rightarrow> (jsstring list outcome \<times> 'w) option" where
  "fetchChildDirectories listDirectory path w = tree_loop listDirectory path None [] w"

text \<open>The loader of the move dialog; the number is the pages it may still fetch.\<close>

definition maxPages :: nat where
  "maxPages = 100"

fun dialog_loop ::
  "'w list_directory \<Rightarrow> jsstring \<Rightarrow> nat \<Rightarrow> jsstring option \<Rightarrow> jsstring list \<Rightarrow>
     (jsstring list, 'w) async" where
  "dialog_loop listDirectory path 0 pageToken directories = ret directories"
| "dialog_loop listDirectory path (Suc n) pageToken directories =
     await (listDirectory (child_request path pageToken)) (\<lambda>page.
       if ldr_nextPageToken page = [] then ret (directories @ ldr_directories page)
       else dialog_loop listDirectory path n (Some (ldr_nextPageToken page))
              (directories @ ldr_directories page))"

definition dialog_fetchChildDirectories ::
  "'w list_directory \<Rightarrow> jsstring \<Rightarrow> (jsstring list, 'w) async" where
  "dialog_fetchChildDirectories listDirectory path = dialog_loop listDirectory path maxPages None []"

section \<open>A paginated listing\<close>

text \<open>
  \<open>pages_from tok ps\<close>: asked with the token \<open>tok\<close>, the service answers the first of the pages \<open>ps\<close>,
  whose token leads to the next one; the last page has the empty token. Reading changes nothing.
\<close>

fun pages_from ::
  "'w list_directory \<Rightarrow> jsstring \<Rightarrow> 'w \<Rightarrow> jsstring option \<Rightarrow> ListDirectoryResult list \<Rightarrow> bool" where
  "pages_from listDirectory path w tok [] = False"
| "pages_from listDirectory path w tok (p # ps) =
     (listDirectory (child_request path tok) w = (Inr p, w)
      \<and> (if ps = [] then ldr_nextPageToken p = []
         else ldr_nextPageToken p \<noteq> []
           \<and> pages_from listDirectory path w (Some (ldr_nextPageToken p)) ps))"

text \<open>The two phases: no directory on any page after one that has a file.\<close>

fun directories_first :: "ListDirectoryResult list \<Rightarrow> bool" where
  "directories_first [] = True"
| "directories_first (p # ps) =
     ((ldr_files p \<noteq> [] \<longrightarrow> list_all (\<lambda>q. ldr_directories q = []) ps) \<and> directories_first ps)"

lemma tree_loop_pages:
  "pages_from ld path w tok ps \<Longrightarrow> directories_first ps \<Longrightarrow>
    tree_loop ld path tok ds w = Some (Inr (ds @ concat (map ldr_directories ps)), w)"
proof (induction ps arbitrary: tok ds)
  case (Cons p ps)
  then have "concat (map ldr_directories ps) = []" if "ldr_files p \<noteq> []"
    using that by (auto simp: list_all_iff)
  with Cons show ?case
    by (subst tree_loop.simps) (auto split: if_splits)
qed simp

lemma dialog_loop_pages:
  "pages_from ld path w tok ps \<Longrightarrow>
    dialog_loop ld path n tok ds w = (Inr (ds @ concat (map ldr_directories (take n ps))), w)"
proof (induction ps arbitrary: tok ds n)
  case (Cons p ps)
  then show ?case
    by (cases n) (auto simp: async_simps split: if_splits)
qed simp

text \<open>The bounded loop makes at most as many calls as it may.\<close>

lemma dialog_loop_calls:
  assumes "\<And>i w. calls (snd (ld i w)) = calls w + (1 :: nat)"
  shows "calls (snd (dialog_loop ld path n tok ds w)) \<le> calls w + n"
proof (induction n arbitrary: tok ds w)
  case (Suc n)
  obtain r w' where p: "ld (child_request path tok) w = (r, w')" by force
  with assms [of "child_request path tok" w] have "calls w' = calls w + 1" by simp
  moreover have "calls (snd (dialog_loop ld path n (Some (ldr_nextPageToken b))
      (ds @ ldr_directories b) w')) \<le> calls w' + n" for b
    by (rule Suc.IH)
  ultimately show ?case
    using p by (cases r) (auto simp: async_simps)
qed (simp add: ret_def)

section \<open>Properties\<close>

text \<open>
  C36. The tree's loader returns every child directory: for a listing of any number of pages in which
  the directories come before the files, it returns, with the directories of all pages in order,
  although it stops at the first page that has a file.
\<close>

theorem fetchChildDirectories_complete:
  assumes "pages_from ld path w None ps" and "directories_first ps"
  shows "fetchChildDirectories ld path w = Some (Inr (concat (map ldr_directories ps)), w)"
  using tree_loop_pages [OF assms, of "[]"] by (simp add: fetchChildDirectories_def)

text \<open>
  C37. The move dialog's loader returns every child directory, whether or not the directories come
  before the files: for a listing of up to a hundred pages it returns the directories of all pages
  in order, the same as the tree's loader when the directories come first; and whatever the service
  answers, errors and endless listings included, the loader ends after at most a hundred requests
  per call.
\<close>

theorem dialog_fetch_complete:
  assumes "pages_from ld path w None ps" and "length ps \<le> 100"
    and "\<And>input v. calls (snd (ld' input v)) = calls v + (1 :: nat)"
  shows "dialog_fetchChildDirectories ld path w = (Inr (concat (map ldr_directories ps)), w)
    \<and> (directories_first ps \<longrightarrow>
        fetchChildDirectories ld path w = Some (dialog_fetchChildDirectories ld path w))
    \<and> calls (snd (dialog_fetchChildDirectories ld' path v)) \<le> calls v + 100"
  using dialog_loop_pages [OF assms(1), of 100 "[]"] tree_loop_pages [OF assms(1), of "[]"] assms(2)
    dialog_loop_calls [where calls = calls and ld = ld', OF assms(3), of path 100 None "[]" v]
  by (simp add: dialog_fetchChildDirectories_def fetchChildDirectories_def maxPages_def)

text \<open>On longer listings it leaves out the directories of the later pages without a sign.\<close>

theorem dialog_fetch_truncates:
  assumes "pages_from ld path w None ps"
  shows "dialog_fetchChildDirectories ld path w =
      (Inr (concat (map ldr_directories (take 100 ps))), w)
    \<and> (concat (map ldr_directories (drop 100 ps)) \<noteq> [] \<longrightarrow>
        fst (dialog_fetchChildDirectories ld path w) \<noteq> Inr (concat (map ldr_directories ps)))"
proof -
  have "concat (map ldr_directories ps) =
      concat (map ldr_directories (take 100 ps)) @ concat (map ldr_directories (drop 100 ps))"
    by (metis append_take_drop_id concat_append map_append)
  then show ?thesis
    using dialog_loop_pages [OF assms, of 100 "[]"]
    by (simp add: dialog_fetchChildDirectories_def maxPages_def)
qed

text \<open>A listing with one page, for any path.\<close>

definition one_page :: "jsstring list \<Rightarrow> unit list_directory" where
  "one_page dirs input = ret \<lparr>ldr_directories = dirs, ldr_files = [], ldr_nextPageToken = []\<rparr>"

lemma one_page_pages:
  "pages_from (one_page dirs) path () tok [\<lparr>ldr_directories = dirs, ldr_files = [], ldr_nextPageToken = []\<rparr>]"
  by (simp add: one_page_def ret_def)

theorem fetchChildDirectories_complete_witness:
  "fetchChildDirectories (one_page [js ''a/'']) [] () = Some (Inr [js ''a/''], ())"
  using fetchChildDirectories_complete [OF one_page_pages [of "[js ''a/'']" "[]"]] by simp

text \<open>A service that counts its requests and fails them all.\<close>

definition counting_failure :: "nat list_directory" where
  "counting_failure input v = (Inl (Error (js ''unavailable'')), v + 1)"

theorem dialog_fetch_complete_witness:
  "dialog_fetchChildDirectories (one_page [js ''a/'', js ''b/'']) [] () = (Inr [js ''a/'', js ''b/''], ())
    \<and> snd (dialog_fetchChildDirectories counting_failure [] 0) \<le> 100"
proof -
  have "id (snd (counting_failure input v)) = id v + 1" for input v
    by (simp add: counting_failure_def)
  from dialog_fetch_complete [where calls = id and ld' = counting_failure, OF one_page_pages [of "[js ''a/'', js ''b/'']" "[]"] _ this, of 0]
  show ?thesis by simp
qed

definition endless :: "'w list_directory \<Rightarrow> jsstring \<Rightarrow> 'w \<Rightarrow> ListDirectoryResult \<Rightarrow> bool" where
  "endless listDirectory path w p \<longleftrightarrow>
     (\<forall>tok. listDirectory (child_request path tok) w = (Inr p, w))
     \<and> ldr_files p = [] \<and> ldr_nextPageToken p \<noteq> []"

text \<open>
  The tree's loader has no bound of its own: against a service that keeps answering pages without
  a file and with a non-empty token, it never returns.
\<close>

theorem fetchChildDirectories_diverges:
  assumes "\<And>tok. ld (child_request path tok) w = (Inr p, w)"
    and "ldr_files p = []" and "ldr_nextPageToken p \<noteq> []"
  shows "fetchChildDirectories ld path w = None"
proof -
  have "\<not> endless ld path w p" if "tree_loop ld path tok ds w = Some r" for tok ds r
  proof (rule tree_loop.raw_induct [where P = "\<lambda>ld path tok ds w r. \<not> endless ld path w p", OF _ that])
    fix loop ld path tok ds and w :: 'a and y
    assume IH: "\<And>ld path tok ds w r. loop ld path tok ds w = Some r \<Longrightarrow> \<not> endless ld path w p"
      and eq: "(case ld (child_request path tok) w of (Inl e, w') \<Rightarrow> Some (Inl e, w')
        | (Inr page, w') \<Rightarrow>
            if ldr_files page \<noteq> [] then Some (Inr (ds @ ldr_directories page), w')
            else if ldr_nextPageToken page = [] then Some (Inr (ds @ ldr_directories page), w')
            else loop ld path (Some (ldr_nextPageToken page)) (ds @ ldr_directories page) w') = Some y"
    show "\<not> endless ld path w p"
    proof
      assume e: "endless ld path w p"
      with eq have "loop ld path (Some (ldr_nextPageToken p)) (ds @ ldr_directories p) w = Some y"
        by (simp add: endless_def)
      with IH e show False by blast
    qed
  qed
  moreover have "endless ld path w p" using assms by (simp add: endless_def)
  ultimately have "tree_loop ld path None [] w = None"
    by (cases "tree_loop ld path None [] w") blast+
  then show ?thesis by (simp add: fetchChildDirectories_def)
qed

theorem fetchChildDirectories_diverges_witness:
  "fetchChildDirectories (\<lambda>input. ret \<lparr>ldr_directories = [], ldr_files = [], ldr_nextPageToken = js ''t''\<rparr>)
    [] () = None"
  by (rule fetchChildDirectories_diverges
      [where p = "\<lparr>ldr_directories = [], ldr_files = [], ldr_nextPageToken = js ''t''\<rparr>"])
    (simp_all add: ret_def)

section \<open>The state of a tree node\<close>

text \<open>
  A node shows a folder with the prefix \<open>prefix\<close>. Its state is the flag \<open>expanded\<close>; \<open>None\<close> for the
  current path is search mode. The effect on \<open>onCurrentPath\<close> runs after a render in which that
  value differs from the one of the render before.
\<close>

record tree_node =
  tn_currentPath :: "jsstring option"
  tn_expanded :: bool

definition onCurrentPath :: "jsstring \<Rightarrow> jsstring option \<Rightarrow> bool" where
  "onCurrentPath prefix currentPath =
     (case currentPath of None \<Rightarrow> False | Some p \<Rightarrow> startsWith p prefix)"

definition mount_node :: "jsstring \<Rightarrow> jsstring option \<Rightarrow> tree_node" where
  "mount_node prefix currentPath =
     \<lparr>tn_currentPath = currentPath, tn_expanded = onCurrentPath prefix currentPath\<rparr>"

definition toggle_node :: "tree_node \<Rightarrow> tree_node" where
  "toggle_node n = n\<lparr>tn_expanded := \<not> tn_expanded n\<rparr>"

definition navigate_node :: "jsstring \<Rightarrow> jsstring option \<Rightarrow> tree_node \<Rightarrow> tree_node" where
  "navigate_node prefix currentPath n =
     \<lparr>tn_currentPath = currentPath,
      tn_expanded = (tn_expanded n \<or>
        onCurrentPath prefix currentPath \<and> \<not> onCurrentPath prefix (tn_currentPath n))\<rparr>"

inductive node_reach :: "jsstring \<Rightarrow> bool \<Rightarrow> tree_node \<Rightarrow> bool" for prefix where
  mount: "node_reach prefix False (mount_node prefix currentPath)"
| navigate: "node_reach prefix b n \<Longrightarrow> node_reach prefix b (navigate_node prefix currentPath n)"
| toggle: "node_reach prefix b n \<Longrightarrow> node_reach prefix True (toggle_node n)"

inductive_cases node_reach_untouched: "node_reach prefix False n"

lemma untouched_expanded:
  "node_reach prefix touched n \<Longrightarrow> \<not> touched \<Longrightarrow> onCurrentPath prefix (tn_currentPath n) \<Longrightarrow> tn_expanded n"
  by (induction rule: node_reach.induct) (auto simp: mount_node_def navigate_node_def)

text \<open>
  Navigation opens and never closes: in a node the user has not toggled, the folder is expanded
  whenever the current path is inside it; and no navigation collapses a node that is expanded.
\<close>

theorem node_expansion:
  assumes "node_reach prefix touched n"
  shows "(tn_expanded n \<longrightarrow> tn_expanded (navigate_node prefix p n))
    \<and> (\<not> touched \<longrightarrow> onCurrentPath prefix (tn_currentPath n) \<longrightarrow> tn_expanded n)"
  using untouched_expanded [OF assms] by (auto simp: navigate_node_def)

theorem node_expansion_witness:
  "tn_expanded (mount_node (js ''a/'') (Some (js ''a/b/'')))"
proof -
  have "onCurrentPath (js ''a/'') (Some (js ''a/b/''))"
    by (simp add: onCurrentPath_def startsWith_def js_def)
  with node_expansion [OF node_reach.mount, of "js ''a/''" "Some (js ''a/b/'')"] show ?thesis
    by (simp add: mount_node_def)
qed

text \<open>
  But the browsed folder need not stay visible: once the user has collapsed a folder that holds the
  current path, navigating deeper inside it leaves it collapsed.
\<close>

theorem collapsed_ancestor_stays:
  assumes "onCurrentPath prefix (Some p)" and "onCurrentPath prefix (Some q)"
  shows "\<not> tn_expanded (navigate_node prefix (Some q) (toggle_node (mount_node prefix (Some p))))"
  using assms by (simp add: navigate_node_def toggle_node_def mount_node_def)

theorem collapsed_ancestor_stays_witness:
  "\<not> tn_expanded (navigate_node (js ''a/'') (Some (js ''a/b/''))
    (toggle_node (mount_node (js ''a/'') (Some (js ''a/'')))))"
  by (rule collapsed_ancestor_stays) (simp_all add: onCurrentPath_def startsWith_def js_def)

section \<open>What the tree shows\<close>

text \<open>
  One level of the tree, from the state of its query (\<open>None\<close> while it is pending), and one node. A
  nested level is rendered under an expanded node only, one step deeper.
\<close>

datatype level_view = Level_loading | Level_failed jsstring | Level_nodes "jsstring list"

definition FolderLevel :: "jsstring list outcome option \<Rightarrow> level_view" where
  "FolderLevel q =
     (case q of
        None \<Rightarrow> Level_loading
      | Some (Inl e) \<Rightarrow> Level_failed (js ''Failed to load folders: '' @ String_of_error e)
      | Some (Inr dirs) \<Rightarrow> Level_nodes dirs)"

record node_view =
  nv_name :: jsstring
  nv_toggleLabel :: jsstring
  nv_expanded :: bool
  nv_isCurrent :: bool
  nv_depth :: nat
  nv_level :: "(jsstring \<times> nat) option"

definition FolderNode :: "jsstring \<Rightarrow> nat \<Rightarrow> tree_node \<Rightarrow> node_view" where
  "FolderNode prefix depth n =
     (let name = folder_name prefix in
      \<lparr>nv_name = name,
       nv_toggleLabel = (if tn_expanded n then js ''Collapse folder '' else js ''Expand folder '') @ name,
       nv_expanded = tn_expanded n,
       nv_isCurrent = (tn_currentPath n = Some prefix),
       nv_depth = depth,
       nv_level = (if tn_expanded n then Some (prefix, depth + 1) else None)\<rparr>)"

text \<open>The root entry, whether it is current, and the first level.\<close>

definition FolderTree :: "jsstring option \<Rightarrow> jsstring \<times> bool \<times> (jsstring \<times> nat)" where
  "FolderTree currentPath = (js ''Home'', currentPath = Some [], ([], 1))"

text \<open>
  The folders in view: those of the root level, and those of the level of any folder in view that is
  expanded. \<open>children\<close> are the directories each level loaded, \<open>expanded\<close> the state of the nodes.
\<close>

inductive in_view :: "(jsstring \<Rightarrow> jsstring set) \<Rightarrow> (jsstring \<Rightarrow> bool) \<Rightarrow> jsstring \<Rightarrow> bool"
  for children expanded where
  top: "d \<in> children [] \<Longrightarrow> in_view children expanded d"
| nested: "in_view children expanded p \<Longrightarrow> expanded p \<Longrightarrow> d \<in> children p \<Longrightarrow> in_view children expanded d"

lemma startsWith_ancestor: "startsWith (path_of segs) (path_of (take i segs))"
proof -
  have "path_of segs = path_of (take i segs) @ path_of (drop i segs)"
    unfolding path_of_def by (metis append_take_drop_id concat_append map_append)
  then show ?thesis by (metis startsWith_self)
qed

lemma path_in_view:
  assumes "\<And>i. i < length segs \<Longrightarrow> path_of (take (Suc i) segs) \<in> children (path_of (take i segs))"
    and "\<And>i. expanded (path_of (take i segs))" and "i < length segs"
  shows "in_view children expanded (path_of (take (Suc i) segs))"
  using assms(3)
proof (induction i)
  case 0
  then have "path_of (take (Suc 0) segs) \<in> children []" using assms(1) [of 0] by simp
  then show ?case by (rule in_view.top)
next
  case (Suc i)
  from Suc have "in_view children expanded (path_of (take (Suc i) segs))" by linarith
  then show ?case using assms(2) assms(1) [OF Suc.prems] by (rule in_view.nested)
qed

text \<open>
  C20. The browsed folder is in view in a tree the user has not toggled: if every level has loaded the
  child that leads on to the browsed folder, then that folder is in view, because each of its
  ancestors is expanded by the navigation.
\<close>

theorem browsed_folder_in_view:
  assumes "\<And>i. i < length segs \<Longrightarrow> path_of (take (Suc i) segs) \<in> children (path_of (take i segs))"
    and "segs \<noteq> []"
    and "\<And>p. node_reach p False (node p) \<and> tn_currentPath (node p) = Some (path_of segs)"
  shows "in_view children (\<lambda>p. tn_expanded (node p)) (path_of segs)"
proof -
  have "tn_expanded (node (path_of (take i segs)))" for i
    by (rule untouched_expanded [of "path_of (take i segs)" False])
      (simp_all add: assms(3) startsWith_ancestor onCurrentPath_def)
  with assms(1,2) path_in_view [of segs children "\<lambda>p. tn_expanded (node p)" "length segs - 1"]
  show ?thesis by simp
qed

theorem browsed_folder_in_view_witness:
  "in_view (\<lambda>p. if p = [] then {js ''a/''} else {js ''a/b/''})
    (\<lambda>p. tn_expanded (mount_node p (Some (js ''a/b/'')))) (js ''a/b/'')"
proof -
  have path: "path_of [js ''a'', js ''b''] = js ''a/b/''" "path_of [js ''a''] = js ''a/''"
    by (simp_all add: path_of_def js_def slash_def)
  have "path_of (take (Suc i) [js ''a'', js ''b'']) \<in>
      (if path_of (take i [js ''a'', js ''b'']) = [] then {js ''a/''} else {js ''a/b/''})"
    if "i < length [js ''a'', js ''b'']" for i
    using that by (auto simp: less_Suc_eq js_def slash_def)
  moreover have "node_reach p False (mount_node p (Some (js ''a/b/'')))
      \<and> tn_currentPath (mount_node p (Some (js ''a/b/''))) = Some (path_of [js ''a'', js ''b''])" for p
    unfolding path using node_reach.mount [of p "Some (js ''a/b/'')"] by (simp add: mount_node_def)
  ultimately show ?thesis
    using browsed_folder_in_view [of "[js ''a'', js ''b'']" _ "\<lambda>p. mount_node p (Some (js ''a/b/''))"]
    by (simp add: path del: path_of_Cons)
qed

end
