(* ===== verification/Folder_Deletion.thy ===== *)
theory Folder_Deletion
  imports File_Table Listings
begin

text \<open>
  The two-step deletion of a folder in \<open>web/src/components/DirectoryList.tsx\<close>: the folder selected in
  the table, the query for its contents, the mutation and the dialog. The contents are cached by
  folder; a folder without an entry is still being asked about. As in the table, a mutation is
  started by one step and settled by another.
\<close>

section \<open>State\<close>

record 'w folder_state =
  fs_folderToDelete :: "jsstring option"
  fs_stats :: "jsstring \<rightharpoonup> DirectoryStatsDto outcome"
  fs_deleting :: "jsstring option"
  fs_deleteError :: "js_error option"
  fs_invalidated :: "query_key list"
  fs_world :: 'w

definition initial_folder :: "'w \<Rightarrow> 'w folder_state" where
  "initial_folder w =
     \<lparr>fs_folderToDelete = None, fs_stats = Map.empty, fs_deleting = None, fs_deleteError = None,
      fs_invalidated = [], fs_world = w\<rparr>"

section \<open>Steps\<close>

definition setFolderToDelete :: "jsstring option \<Rightarrow> 'w folder_state \<Rightarrow> 'w folder_state" where
  "setFolderToDelete p s = s\<lparr>fs_folderToDelete := p\<rparr>"

text \<open>The stats query runs while a folder is selected, and answers for that folder.\<close>

definition fetch_stats ::
  "(jsstring \<Rightarrow> (DirectoryStatsDto, 'w) async) \<Rightarrow> 'w folder_state \<Rightarrow> 'w folder_state" where
  "fetch_stats getDirectoryStats s =
     (case fs_folderToDelete s of
        None \<Rightarrow> s
      | Some p \<Rightarrow>
          (case getDirectoryStats p (fs_world s) of
             (r, w') \<Rightarrow> s\<lparr>fs_stats := (fs_stats s)(p \<mapsto> r), fs_world := w'\<rparr>))"

definition stats_of :: "jsstring \<Rightarrow> 'w folder_state \<Rightarrow> stats_query" where
  "stats_of p s =
     (case fs_stats s p of
        None \<Rightarrow> Stats_pending
      | Some (Inl e) \<Rightarrow> Stats_error e
      | Some (Inr st) \<Rightarrow> Stats st)"

definition folder_dialog :: "'w folder_state \<Rightarrow> confirmation option" where
  "folder_dialog s =
     map_option (\<lambda>p. DeleteFolderConfirmation p (stats_of p s) (fs_deleting s \<noteq> None) (fs_deleteError s))
       (fs_folderToDelete s)"

text \<open>A click on the confirm button, which has an effect only if the button is enabled.\<close>

definition confirm_folder :: "'w folder_state \<Rightarrow> 'w folder_state" where
  "confirm_folder s =
     (case (fs_folderToDelete s, folder_dialog s) of
        (Some p, Some d) \<Rightarrow> if cf_enabled d then s\<lparr>fs_deleting := Some p, fs_deleteError := None\<rparr> else s
      | _ \<Rightarrow> s)"

definition settle_folder ::
  "(jsstring \<Rightarrow> (int, 'w) async) \<Rightarrow> 'w folder_state \<Rightarrow> 'w folder_state" where
  "settle_folder deleteDirectory s =
     (case fs_deleting s of
        None \<Rightarrow> s
      | Some p \<Rightarrow>
          (case deleteDirectory p (fs_world s) of
             (Inl e, w') \<Rightarrow> s\<lparr>fs_deleting := None, fs_deleteError := Some e, fs_world := w'\<rparr>
           | (Inr _, w') \<Rightarrow>
               s\<lparr>fs_deleting := None, fs_deleteError := None, fs_world := w',
                 fs_invalidated := fs_invalidated s @ directory_changed_keys,
                 fs_folderToDelete := None\<rparr>))"

section \<open>Reachable states\<close>

inductive folder_reach :: "jsstring set \<Rightarrow> 'w folder_state \<Rightarrow> bool" for folders where
  initial: "folder_reach folders (initial_folder w)"
| selected: "folder_reach folders s \<Longrightarrow> p \<in> folders \<Longrightarrow> folder_reach folders (setFolderToDelete (Some p) s)"
| cancelled: "folder_reach folders s \<Longrightarrow> folder_reach folders (setFolderToDelete None s)"
| fetched: "folder_reach folders s \<Longrightarrow> folder_reach folders (fetch_stats get s)"
| confirmed: "folder_reach folders s \<Longrightarrow> folder_reach folders (confirm_folder s)"
| settled: "folder_reach folders s \<Longrightarrow> folder_reach folders (settle_folder del s)"

definition folder_inv :: "jsstring set \<Rightarrow> 'w folder_state \<Rightarrow> bool" where
  "folder_inv folders s \<longleftrightarrow>
     (\<forall>p. fs_folderToDelete s = Some p \<longrightarrow> p \<in> folders)
     \<and> (\<forall>p. fs_deleting s = Some p \<longrightarrow> p \<in> folders \<and> fs_stats s p \<noteq> None)"

lemma confirm_folder_cases:
  "confirm_folder s = s \<or> (\<exists>p. fs_folderToDelete s = Some p \<and> fs_stats s p \<noteq> None \<and> fs_deleting s = None
    \<and> confirm_folder s = s\<lparr>fs_deleting := Some p, fs_deleteError := None\<rparr>)"
  by (auto simp: confirm_folder_def folder_dialog_def DeleteFolderConfirmation_def stats_of_def
      split: option.splits)

lemma folder_reach_inv: "folder_reach folders s \<Longrightarrow> folder_inv folders s"
proof (induction rule: folder_reach.induct)
  case (confirmed s)
  then show ?case using confirm_folder_cases [of s] by (auto simp: folder_inv_def)
next
  case (settled s del)
  then show ?case
    by (auto simp: folder_inv_def settle_folder_def split: option.splits prod.splits sum.splits)
qed (auto simp: folder_inv_def initial_folder_def setFolderToDelete_def fetch_stats_def
    split: option.splits prod.splits)

text \<open>
  A folder is deleted in two steps: in every reachable state, however the answers and the clicks
  interleave, the deletion in flight, if any, is of a folder of the listing that was selected, whose
  contents the server had been asked for and had answered, or failed to; and the only call a
  settling step makes is the deletion of that folder.
\<close>

theorem folder_deletion_two_step:
  assumes "folder_reach folders s"
  shows "(fs_deleting s = None \<and> settle_folder del s = s)
    \<or> (\<exists>p. fs_deleting s = Some p \<and> p \<in> folders \<and> stats_of p s \<noteq> Stats_pending
        \<and> fs_world (settle_folder del s) = snd (del p (fs_world s)))"
  using folder_reach_inv [OF assms]
  by (cases "fs_deleting s")
    (auto simp: folder_inv_def settle_folder_def stats_of_def split: prod.splits sum.splits)

theorem folder_deletion_two_step_witness:
  "\<exists>p. fs_deleting (confirm_folder (fetch_stats (\<lambda>p w. (Inl unavailable, w))
      (setFolderToDelete (Some (js ''a/'')) (initial_folder ([] :: jsstring list))))) = Some p \<and> p \<in> {js ''a/''}
    \<and> fs_world (settle_folder (\<lambda>p w. (Inr 1, p # w)) (confirm_folder (fetch_stats (\<lambda>p w. (Inl unavailable, w))
        (setFolderToDelete (Some (js ''a/'')) (initial_folder []))))) = [js ''a/'']"
proof -
  let ?s = "confirm_folder (fetch_stats (\<lambda>p w. (Inl unavailable, w))
      (setFolderToDelete (Some (js ''a/'')) (initial_folder ([] :: jsstring list))))"
  have reach: "folder_reach {js ''a/''} ?s"
    by (intro folder_reach.intros) simp
  have "fs_deleting ?s = Some (js ''a/'')"
    by (simp add: confirm_folder_def fetch_stats_def setFolderToDelete_def initial_folder_def
        folder_dialog_def DeleteFolderConfirmation_def stats_of_def)
  moreover have "fs_world ?s = []"
    by (simp add: confirm_folder_def fetch_stats_def setFolderToDelete_def initial_folder_def
        folder_dialog_def DeleteFolderConfirmation_def stats_of_def)
  ultimately show ?thesis
    using folder_deletion_two_step [OF reach, of "\<lambda>p w. (Inr 1, p # w)"] by simp
qed

end
