(* ===== verification/File_Page.thy ===== *)
theory File_Page
  imports File_Table Listings
begin

text \<open>
  The page of one file, \<open>web/src/routes/file.$id.tsx\<close>, with the metadata rows of
  \<open>FileMetadataTable.tsx\<close> and the viewer of \<open>FileViewer.tsx\<close>. As in the table, a mutation is started
  by one step and settled by another. \<open>data\<close> is the metadata the query holds, at the time of the step.
\<close>

section \<open>Metadata rows\<close>

text \<open>
  The value of a row: a text, a number, or a number between two texts, which is how the templates
  with a unit build it.
\<close>

datatype cell = Cell_text jsstring | Cell_int int | Cell_num jsnum | Cell_unit jsstring jsnum jsstring

type_synonym metadata_row = "jsstring \<times> cell"

definition Row :: "string \<Rightarrow> cell option \<Rightarrow> metadata_row list" where
  "Row label value =
     (case value of
        None \<Rightarrow> []
      | Some c \<Rightarrow> if c = Cell_text [] then [] else [(js label, c)])"

text \<open>\<open>n ? `...${n}...` : undefined\<close>\<close>

definition truthy_num :: "jsnum \<Rightarrow> bool" where
  "truthy_num n \<longleftrightarrow> n \<noteq> NaN \<and> n \<noteq> Fin 0"

definition with_unit :: "string \<Rightarrow> jsnum option \<Rightarrow> string \<Rightarrow> cell option" where
  "with_unit before n after =
     (case n of
        None \<Rightarrow> None
      | Some x \<Rightarrow> if truthy_num x then Some (Cell_unit (js before) x (js after)) else None)"

definition exif_rows :: "ExifMetadataDto \<Rightarrow> metadata_row list" where
  "exif_rows exif =
     Row ''Image type'' (map_option Cell_text (xd_imageType exif))
     @ Row ''Camera make'' (map_option Cell_text (xd_cameraMake exif))
     @ Row ''Camera model'' (map_option Cell_text (xd_cameraModel exif))
     @ Row ''Camera serial'' (map_option Cell_text (xd_cameraSerial exif))
     @ Row ''Lens make'' (map_option Cell_text (xd_lensMake exif))
     @ Row ''Lens model'' (map_option Cell_text (xd_lensModel exif))
     @ Row ''Taken at'' (map_option Cell_text (xd_takenAt exif))
     @ Row ''ISO'' (map_option Cell_int (xd_iso exif))
     @ Row ''F-number'' (with_unit ''f/'' (xd_fNumber exif) '''')
     @ Row ''Exposure time'' (with_unit '''' (xd_exposureTime exif) ''s'')
     @ Row ''Focal length'' (with_unit '''' (xd_focalLength exif) ''mm'')
     @ Row ''Focal length (35mm equiv.)'' (with_unit '''' (xd_focalLength35mm exif) ''mm'')
     @ Row ''Exposure program'' (map_option Cell_int (xd_exposureProgram exif))
     @ Row ''Metering mode'' (map_option Cell_int (xd_meteringMode exif))
     @ Row ''Flash'' (map_option Cell_int (xd_flash exif))
     @ Row ''Orientation'' (map_option Cell_int (xd_orientation exif))
     @ Row ''Image width'' (map_option Cell_int (xd_imageWidth exif))
     @ Row ''Image height'' (map_option Cell_int (xd_imageHeight exif))
     @ Row ''Software'' (map_option Cell_text (xd_software exif))
     @ Row ''Artist'' (map_option Cell_text (xd_artist exif))
     @ Row ''Copyright'' (map_option Cell_text (xd_copyright exif))
     @ Row ''Description'' (map_option Cell_text (xd_imageDescription exif))"

definition gps_rows :: "ExifMetadataDto \<Rightarrow> metadata_row list" where
  "gps_rows exif =
     Row ''Latitude'' (map_option Cell_num (xd_gpsLatitude exif))
     @ Row ''Longitude'' (map_option Cell_num (xd_gpsLongitude exif))
     @ Row ''Altitude'' (with_unit '''' (xd_gpsAltitude exif) ''m'')
     @ Row ''GPS time'' (map_option Cell_text (xd_gpsAt exif))"

definition xmp_rows :: "ExifMetadataDto \<Rightarrow> metadata_row list" where
  "xmp_rows exif =
     Row ''Title'' (map_option Cell_text (xd_xmpTitle exif))
     @ Row ''Description'' (map_option Cell_text (xd_xmpDescription exif))
     @ Row ''Creator'' (map_option Cell_text (xd_xmpCreator exif))
     @ Row ''Label'' (map_option Cell_text (xd_xmpLabel exif))
     @ Row ''Rating'' (map_option Cell_int (xd_xmpRating exif))
     @ Row ''Keywords''
         (if xd_xmpKeywords exif = [] then None else Some (Cell_text (join (js '', '') (xd_xmpKeywords exif))))
     @ Row ''Created'' (map_option Cell_text (xd_xmpCreateDate exif))"

text \<open>The tables, each with its heading.\<close>

type_synonym metadata_table = "jsstring \<times> metadata_row list"

definition ExifSection :: "ExifMetadataDto \<Rightarrow> metadata_table list" where
  "ExifSection exif =
     (if xd_hasExif exif
      then [(js ''Camera (EXIF)'', exif_rows exif)]
        @ (if xd_gpsLatitude exif \<noteq> None \<and> xd_gpsLongitude exif \<noteq> None
           then [(js ''GPS'', gps_rows exif)] else [])
      else [])
     @ (if xd_hasXmp exif then [(js ''XMP'', xmp_rows exif)] else [])"

definition FileMetadataTable :: "(jsstring \<Rightarrow> Date) \<Rightarrow> FileMetadataDto \<Rightarrow> metadata_table list" where
  "FileMetadataTable other file =
     ([],
      Row ''Content type'' (Some (Cell_text (md_contentType file)))
      @ Row ''Size'' (Some (Cell_text (formatBytes (md_sizeBytes file))))
      @ Row ''Created'' (Some (Cell_text (formatDate other (md_createdAt file))))
      @ Row ''Updated'' (Some (Cell_text (formatDate other (md_updatedAt file)))))
     # (case md_exif file of None \<Rightarrow> [] | Some exif \<Rightarrow> ExifSection exif)"

definition FileBasicInfo :: "(jsstring \<Rightarrow> Date) \<Rightarrow> FileMetadataDto \<Rightarrow> jsstring" where
  "FileBasicInfo other file = js ''Updated '' @ formatDate other (md_updatedAt file)"

section \<open>The viewer\<close>

datatype viewer = View_image jsstring | View_video jsstring | View_frame jsstring

definition FileViewer :: "jsstring \<Rightarrow> jsstring \<Rightarrow> viewer" where
  "FileViewer contentType openUrl =
     (if startsWith contentType (js ''image/'') then View_image openUrl
      else if startsWith contentType (js ''video/'') then View_video openUrl
      else View_frame openUrl)"

section \<open>State of the page\<close>

record 'w page_state =
  fp_confirmDelete :: bool
  fp_metadataOpen :: bool
  fp_moveOpen :: bool
  fp_moveError :: "jsstring option"
  fp_deleting :: bool
  fp_deleteError :: "js_error option"
  fp_moving :: "jsstring option"
  fp_invalidated :: "query_key list"
  fp_navigated :: "BrowseFilters list"
  fp_windows :: "jsstring list"
  fp_world :: 'w

definition initial_page :: "'w \<Rightarrow> 'w page_state" where
  "initial_page w =
     \<lparr>fp_confirmDelete = False, fp_metadataOpen = False, fp_moveOpen = False, fp_moveError = None,
      fp_deleting = False, fp_deleteError = None, fp_moving = None, fp_invalidated = [],
      fp_navigated = [], fp_windows = [], fp_world = w\<rparr>"

definition parentPath :: "jsstring \<Rightarrow> jsstring" where
  "parentPath key = slice key 0 (Some (lastIndexOf key slash + 1))"

definition navigate_browse :: "jsstring \<Rightarrow> BrowseFilters" where
  "navigate_browse path = DEFAULT_BROWSE_FILTERS\<lparr>bf_path := path\<rparr>"

section \<open>Opening and downloading\<close>

definition open_window ::
  "(jsstring \<Rightarrow> (jsstring, 'w) async) \<Rightarrow> jsstring \<Rightarrow> (unit, 'w page_state) async" where
  "open_window getUrl fid s =
     (case getUrl fid (fp_world s) of
        (Inl e, w') \<Rightarrow> (Inl e, s\<lparr>fp_world := w'\<rparr>)
      | (Inr url, w') \<Rightarrow> (Inr (), s\<lparr>fp_world := w', fp_windows := fp_windows s @ [url]\<rparr>))"

definition handleOpen :: "(jsstring \<Rightarrow> (jsstring, 'w) async) \<Rightarrow> jsstring \<Rightarrow> (unit, 'w page_state) async" where
  "handleOpen getOpenUrl fid = open_window getOpenUrl fid"

definition page_handleDownload ::
  "(jsstring \<Rightarrow> (jsstring, 'w) async) \<Rightarrow> jsstring \<Rightarrow> (unit, 'w page_state) async" where
  "page_handleDownload getDownloadUrl fid = open_window getDownloadUrl fid"

section \<open>Deleting\<close>

definition ask_delete :: "'w page_state \<Rightarrow> 'w page_state" where
  "ask_delete s = s\<lparr>fp_confirmDelete := True\<rparr>"

definition page_cancel_delete :: "'w page_state \<Rightarrow> 'w page_state" where
  "page_cancel_delete s = s\<lparr>fp_confirmDelete := False\<rparr>"

definition page_confirm_delete :: "'w page_state \<Rightarrow> 'w page_state" where
  "page_confirm_delete s =
     (if fp_confirmDelete s \<and> \<not> fp_deleting s then s\<lparr>fp_deleting := True, fp_deleteError := None\<rparr> else s)"

definition page_settle_delete ::
  "(jsstring \<Rightarrow> (unit, 'w) async) \<Rightarrow> jsstring \<Rightarrow> FileMetadataDto option \<Rightarrow> 'w page_state \<Rightarrow> 'w page_state" where
  "page_settle_delete deleteFile fid data s =
     (if \<not> fp_deleting s then s
      else case deleteFile fid (fp_world s) of
        (Inl e, w') \<Rightarrow> s\<lparr>fp_deleting := False, fp_deleteError := Some e, fp_world := w'\<rparr>
      | (Inr _, w') \<Rightarrow>
          s\<lparr>fp_deleting := False, fp_deleteError := None, fp_world := w',
            fp_invalidated := fp_invalidated s @ moved_keys,
            fp_navigated := fp_navigated s @
              (case data of None \<Rightarrow> [] | Some d \<Rightarrow> [navigate_browse (parentPath (md_key d))])\<rparr>)"

section \<open>Moving\<close>

definition ask_move :: "'w page_state \<Rightarrow> 'w page_state" where
  "ask_move s = s\<lparr>fp_moveOpen := True\<rparr>"

definition page_cancel_move :: "'w page_state \<Rightarrow> 'w page_state" where
  "page_cancel_move s = s\<lparr>fp_moveOpen := False, fp_moveError := None\<rparr>"

definition page_confirm_move :: "FileMetadataDto \<Rightarrow> jsstring \<Rightarrow> 'w page_state \<Rightarrow> 'w page_state" where
  "page_confirm_move data destinationPath s =
     (if fp_moveOpen s \<and> fp_moving s = None
      then s\<lparr>fp_moving := Some (destinationPath @ slice (md_key data) (lastIndexOf (md_key data) slash + 1) None)\<rparr>
      else s)"

definition page_settle_move ::
  "(js_error \<Rightarrow> connect_error) \<Rightarrow> (jsstring \<Rightarrow> jsstring \<Rightarrow> (unit, 'w) async) \<Rightarrow> jsstring \<Rightarrow>
     'w page_state \<Rightarrow> 'w page_state" where
  "page_settle_move connectFrom moveFile fid s =
     (case fp_moving s of
        None \<Rightarrow> s
      | Some dest \<Rightarrow>
          (case moveFile fid dest (fp_world s) of
             (Inl e, w') \<Rightarrow>
               s\<lparr>fp_moving := None, fp_world := w', fp_moveError := Some (move_error_text (connectFrom e))\<rparr>
           | (Inr _, w') \<Rightarrow>
               s\<lparr>fp_moving := None, fp_world := w',
                 fp_invalidated := fp_invalidated s @ moved_keys @ [file_metadata_key fid],
                 fp_moveOpen := False, fp_moveError := None\<rparr>))"

section \<open>Metadata dialog\<close>

definition open_metadata :: "'w page_state \<Rightarrow> 'w page_state" where
  "open_metadata s = s\<lparr>fp_metadataOpen := True\<rparr>"

text \<open>The close button, a click on the backdrop itself, or Escape.\<close>

definition close_metadata :: "'w page_state \<Rightarrow> 'w page_state" where
  "close_metadata s = s\<lparr>fp_metadataOpen := False\<rparr>"

definition metadata_overlay :: "overlay_event \<Rightarrow> 'w page_state \<Rightarrow> 'w page_state" where
  "metadata_overlay = overlay close_metadata"

section \<open>What the page shows\<close>

text \<open>A query with one result: pending, failed, or with data.\<close>

datatype 'd single_query = One_pending | One_failed js_error | One_data 'd

datatype preview_area = Preview_loading | Preview_error jsstring | Preview_view viewer

record page_content =
  pc_crumbs :: "Crumb list"
  pc_title :: jsstring
  pc_info :: jsstring
  pc_preview :: preview_area
  pc_delete :: "confirmation option"
  pc_metadata :: "metadata_table list option"
  pc_move :: "move_props option"

datatype page_view = Page_loading | Page_error jsstring | Page page_content

definition preview_of :: "jsstring \<Rightarrow> jsstring single_query \<Rightarrow> preview_area" where
  "preview_of contentType openQuery =
     (case openQuery of
        One_pending \<Rightarrow> Preview_loading
      | One_failed e \<Rightarrow> Preview_error (js ''Failed to load preview: '' @ String_of_error e)
      | One_data url \<Rightarrow> Preview_view (FileViewer contentType url))"

definition FilePage ::
  "(jsstring \<Rightarrow> Date) \<Rightarrow> FileMetadataDto single_query \<Rightarrow> jsstring single_query \<Rightarrow> 'w page_state \<Rightarrow> page_view" where
  "FilePage other metaQuery openQuery s =
     (case metaQuery of
        One_pending \<Rightarrow> Page_loading
      | One_failed e \<Rightarrow> Page_error (js ''Failed to load file: '' @ String_of_error e)
      | One_data file \<Rightarrow>
          Page \<lparr>pc_crumbs = Breadcrumbs (parentPath (md_key file)) False,
                pc_title = file_title (md_key file),
                pc_info = FileBasicInfo other file,
                pc_preview = preview_of (md_contentType file) openQuery,
                pc_delete = (if fp_confirmDelete s
                  then Some (DeleteFileConfirmation (md_key file) (fp_deleting s) (fp_deleteError s)) else None),
                pc_metadata = (if fp_metadataOpen s then Some (FileMetadataTable other file) else None),
                pc_move = (if fp_moveOpen s
                  then Some \<lparr>mp_fileKey = md_key file, mp_moving = (fp_moving s \<noteq> None), mp_error = fp_moveError s\<rparr>
                  else None)\<rparr>)"

section \<open>Reachable states\<close>

text \<open>
  The states of the page of a file whose metadata has, over time, the keys \<open>keys\<close>. The dialog confirms the
  path it views, in any state it can be in, if its button is enabled.
\<close>

inductive page_reach :: "jsstring \<Rightarrow> jsstring set \<Rightarrow> 'w page_state \<Rightarrow> bool" for fid keys where
  initial: "page_reach fid keys (initial_page w)"
| opened: "page_reach fid keys s \<Longrightarrow> open_window get fid s = (r, s') \<Longrightarrow> page_reach fid keys s'"
| ask_delete: "page_reach fid keys s \<Longrightarrow> page_reach fid keys (ask_delete s)"
| cancel_delete: "page_reach fid keys s \<Longrightarrow> page_reach fid keys (page_cancel_delete s)"
| confirm_delete: "page_reach fid keys s \<Longrightarrow> page_reach fid keys (page_confirm_delete s)"
| settle_delete: "page_reach fid keys s \<Longrightarrow> page_reach fid keys (page_settle_delete del fid file s)"
| ask_move: "page_reach fid keys s \<Longrightarrow> page_reach fid keys (ask_move s)"
| cancel_move: "page_reach fid keys s \<Longrightarrow> page_reach fid keys (page_cancel_move s)"
| confirm_move: "page_reach fid keys s \<Longrightarrow> md_key file \<in> keys \<Longrightarrow> dialog_reach (md_key file) d \<Longrightarrow>
    confirm_enabled (md_key file) (fp_moving s \<noteq> None) d \<Longrightarrow>
    page_reach fid keys (page_confirm_move file (mv_viewPath d) s)"
| settle_move: "page_reach fid keys s \<Longrightarrow> page_reach fid keys (page_settle_move cf mv fid s)"
| open_metadata: "page_reach fid keys s \<Longrightarrow> page_reach fid keys (open_metadata s)"
| close_metadata: "page_reach fid keys s \<Longrightarrow> page_reach fid keys (close_metadata s)"

definition move_target :: "jsstring set \<Rightarrow> jsstring \<Rightarrow> bool" where
  "move_target keys dest \<longleftrightarrow> (\<exists>key \<in> keys. dest \<noteq> key \<and> base_part dest = base_part key)"

lemma page_confirmed_target:
  assumes "md_key file \<in> keys" and "dialog_reach (md_key file) d"
    and "confirm_enabled (md_key file) moving d"
  shows "move_target keys (mv_viewPath d @ slice (md_key file) (lastIndexOf (md_key file) slash + 1) None)"
  using reachable_destination [OF assms(2)] assms(1,3)
  by (auto simp: move_target_def confirm_enabled_def unchanged_def confirmed_key_def)

lemma page_moving_target: "page_reach fid keys s \<Longrightarrow> pred_option (move_target keys) (fp_moving s)"
proof (induction rule: page_reach.induct)
  case (confirm_move s md d)
  then show ?case using page_confirmed_target [of md keys d] by (simp add: page_confirm_move_def)
qed (auto simp: initial_page_def open_window_def ask_delete_def page_cancel_delete_def
    page_confirm_delete_def page_settle_delete_def ask_move_def page_cancel_move_def
    page_settle_move_def open_metadata_def close_metadata_def split: prod.splits sum.splits option.splits)

text \<open>
  In every reachable state of the page, a move in flight is to another directory under the name the
  file had when it was confirmed, and settling steps send the page's own id only: the delete
  and the move that reach the server are of the file the page is about.
\<close>

theorem page_requests:
  assumes "page_reach fid keys s"
  shows "pred_option (move_target keys) (fp_moving s)
    \<and> fp_world (page_settle_delete del fid file s) =
        (if fp_deleting s then snd (del fid (fp_world s)) else fp_world s)
    \<and> fp_world (page_settle_move cf mv fid s) =
        (case fp_moving s of None \<Rightarrow> fp_world s | Some dest \<Rightarrow> snd (mv fid dest (fp_world s)))"
  using page_moving_target [OF assms]
  by (cases "fp_moving s") (auto simp: page_settle_delete_def page_settle_move_def split: prod.splits sum.splits)

lemma parentPath_dir_part: "parentPath key = dir_part key"
  by (simp add: parentPath_def dir_part_def)

text \<open>
  C19. Deleting returns to the parent folder: when the delete of a file that has been loaded succeeds, the
  page navigates once, to the directory that holds the file, which is what its last breadcrumb leads
  to; and that directory's cached listing, under any sorting, is invalidated, so the file is gone from
  what is shown next.
\<close>

theorem page_delete_returns:
  assumes "fp_deleting s" and "deleteFile fid (fp_world s) = (Inr (), w')"
  shows "\<exists>f. fp_navigated (page_settle_delete deleteFile fid (Some file) s) = fp_navigated s @ [f]
    \<and> fp_world (page_settle_delete deleteFile fid (Some file) s) = w'
    \<and> bf_path f = dir_part (md_key file)
    \<and> (dir_part (md_key file) \<noteq> [] \<longrightarrow>
        bf_path f = cr_path (last (Breadcrumbs (parentPath (md_key file)) False)))
    \<and> invalidated (fp_invalidated (page_settle_delete deleteFile fid (Some file) s))
        (directory_key (bf_path f) so od)"
proof -
  let ?f = "navigate_browse (parentPath (md_key file))"
  have path: "bf_path ?f = dir_part (md_key file)"
    by (simp add: navigate_browse_def parentPath_dir_part)
  have "dir_part (md_key file) = cr_path (last (Breadcrumbs (parentPath (md_key file)) False))"
    if "dir_part (md_key file) \<noteq> []"
    using last_crumb_path [OF that dir_part_ends [OF that]] by (simp add: parentPath_dir_part)
  moreover have "invalidated (ks @ moved_keys) (directory_key p so od)" for ks p
    by (simp add: invalidated_def query_keys)
  ultimately show ?thesis
    using assms path by (intro exI [of _ ?f]) (simp add: page_settle_delete_def)
qed

definition sample_metadata :: FileMetadataDto where
  "sample_metadata =
     \<lparr>md_id = js ''7'', md_key = js ''docs/a.txt'', md_contentType = js ''text/plain'', md_sizeBytes = 3,
      md_createdAt = None, md_updatedAt = None, md_exif = None\<rparr>"

theorem page_delete_returns_witness:
  "\<exists>f. fp_navigated (page_settle_delete (\<lambda>i w. (Inr (), i # w)) (js ''7'') (Some sample_metadata)
      ((initial_page [])\<lparr>fp_deleting := True\<rparr>)) = [f] \<and> bf_path f = js ''docs/''"
proof -
  have dir: "dir_part (md_key sample_metadata) = js ''docs/''"
    unfolding sample_metadata_def by code_simp
  show ?thesis
    using page_delete_returns [of "(initial_page [])\<lparr>fp_deleting := True\<rparr>" "\<lambda>i w. (Inr (), i # w)"
        "js ''7''" "[js ''7'']" sample_metadata]
    by (auto simp: initial_page_def dir)
qed

text \<open>A page on which a move into the root is in flight.\<close>

theorem page_requests_witness:
  "pred_option (move_target {js ''docs/a.txt''})
    (fp_moving (page_confirm_move sample_metadata [] (ask_move (initial_page ()))))
    \<and> fp_moving (page_confirm_move sample_metadata [] (ask_move (initial_page ()))) = Some (js ''a.txt'')"
proof
  let ?d = "navigateTo [] (open_dialog (js ''docs/a.txt''))"
  let ?s = "page_confirm_move sample_metadata (mv_viewPath ?d) (ask_move (initial_page ()))"
  have view: "mv_viewPath ?d = []" by (simp add: navigateTo_def)
  have "dialog_reach (js ''docs/a.txt'') ?d"
    by (rule dialog_reach.clicked [OF dialog_reach.opened]) (simp add: click_target_def)
  moreover have "confirm_enabled (js ''docs/a.txt'') False ?d"
    by code_simp
  ultimately have "page_reach (js ''7'') {js ''docs/a.txt''} ?s"
    by (intro page_reach.confirm_move page_reach.ask_move page_reach.initial)
      (simp_all add: sample_metadata_def ask_move_def initial_page_def)
  from page_requests [OF this] show "pred_option (move_target {js ''docs/a.txt''})
      (fp_moving (page_confirm_move sample_metadata [] (ask_move (initial_page ()))))"
    by (simp add: view)
  show "fp_moving (page_confirm_move sample_metadata [] (ask_move (initial_page ()))) = Some (js ''a.txt'')"
    unfolding page_confirm_move_def ask_move_def initial_page_def sample_metadata_def by code_simp
qed

section \<open>Metadata\<close>

text \<open>
  A number with a unit is left out when it is zero, like one that is absent: the altitude of a photo
  taken at sea level is not shown, although its latitude and longitude would be.
\<close>

lemma zero_altitude_hidden:
  assumes "xd_hasExif exif" and "xd_gpsLatitude exif = Some (Fin 0)" and "xd_gpsLongitude exif = Some (Fin 0)"
    and "xd_gpsAltitude exif = Some (Fin 0)" and "xd_gpsAt exif = None"
  shows "(js ''GPS'', [(js ''Latitude'', Cell_num (Fin 0)), (js ''Longitude'', Cell_num (Fin 0))])
    \<in> set (ExifSection exif)"
  using assms by (simp add: ExifSection_def gps_rows_def Row_def with_unit_def truthy_num_def)

end
