(* ===== verification/Search_Bar.thy ===== *)
theory Search_Bar
  imports Validators Js_Strings
begin

text \<open>
  The header search of \<open>web/src/components/SearchBar.tsx\<close>: the text box, the debounced query and the
  drop-down, with the timer of the debounce as part of the state. The effect on \<open>input\<close> runs after a
  render in which the input differs from the render before, and on mount; its clean-up cancels the
  timer that is running.
\<close>

definition DEBOUNCE_MS :: nat where
  "DEBOUNCE_MS = 300"

definition RESULT_LIMIT :: int where
  "RESULT_LIMIT = 10"

definition FOLDER_RESULT_LIMIT :: int where
  "FOLDER_RESULT_LIMIT = 5"

section \<open>State and handlers\<close>

text \<open>The callbacks of the parent, in the order they were called.\<close>

datatype 'f search_call = OnSelect 'f | OnSelectFolder jsstring | OnSearch jsstring

record 'f search_bar =
  sb_input :: jsstring
  sb_query :: jsstring
  sb_open :: bool
  sb_timer :: "jsstring option"
  sb_calls :: "'f search_call list"

text \<open>\<open>setInput\<close> and the effect that follows when the value changed.\<close>

definition set_input :: "jsstring \<Rightarrow> 'f search_bar \<Rightarrow> 'f search_bar" where
  "set_input t s =
     (if t = sb_input s then s else s\<lparr>sb_input := t, sb_timer := Some (trim t)\<rparr>)"

definition mount_search :: "'f search_bar" where
  "mount_search =
     \<lparr>sb_input = [], sb_query = [], sb_open = False, sb_timer = Some (trim []), sb_calls = []\<rparr>"

definition fire_timer :: "'f search_bar \<Rightarrow> 'f search_bar" where
  "fire_timer s =
     (case sb_timer s of None \<Rightarrow> s | Some q \<Rightarrow> s\<lparr>sb_query := q, sb_timer := None\<rparr>)"

definition onChange :: "jsstring \<Rightarrow> 'f search_bar \<Rightarrow> 'f search_bar" where
  "onChange t s = (set_input t s)\<lparr>sb_open := True\<rparr>"

definition onFocus :: "'f search_bar \<Rightarrow> 'f search_bar" where
  "onFocus s = s\<lparr>sb_open := True\<rparr>"

definition onBlur :: "'f search_bar \<Rightarrow> 'f search_bar" where
  "onBlur s = s\<lparr>sb_open := False\<rparr>"

definition onKeyDown :: "jsstring \<Rightarrow> 'f search_bar \<Rightarrow> 'f search_bar" where
  "onKeyDown key s =
     (let s1 = (if key = js ''Escape'' then s\<lparr>sb_open := False\<rparr> else s) in
      if key = js ''Enter'' \<and> trim (sb_input s) \<noteq> []
      then s1\<lparr>sb_calls := sb_calls s1 @ [OnSearch (trim (sb_input s))], sb_open := False\<rparr>
      else s1)"

definition clear_search :: "'f search_call \<Rightarrow> 'f search_bar \<Rightarrow> 'f search_bar" where
  "clear_search c s =
     (set_input [] (s\<lparr>sb_calls := sb_calls s @ [c]\<rparr>))\<lparr>sb_query := [], sb_open := False\<rparr>"

definition handleSelect :: "'f \<Rightarrow> 'f search_bar \<Rightarrow> 'f search_bar" where
  "handleSelect file s = clear_search (OnSelect file) s"

definition handleSelectFolder :: "jsstring \<Rightarrow> 'f search_bar \<Rightarrow> 'f search_bar" where
  "handleSelectFolder path s = clear_search (OnSelectFolder path) s"

section \<open>What it asks for and shows\<close>

text \<open>The two queries, enabled for a non-empty query only.\<close>

definition files_request :: "'f search_bar \<Rightarrow> ListFilesInput option" where
  "files_request s =
     (if sb_query s = [] then None
      else Some \<lparr>lfi_pageSize = Some RESULT_LIMIT, lfi_pageToken = None, lfi_query = Some (sb_query s),
        lfi_contentType = None, lfi_sortField = Some SF_key, lfi_sortOrder = Some SO_asc\<rparr>)"

definition folders_request :: "'f search_bar \<Rightarrow> SearchDirectoriesInput option" where
  "folders_request s =
     (if sb_query s = [] then None
      else Some \<lparr>sdi_pageSize = Some FOLDER_RESULT_LIMIT, sdi_pageToken = None,
        sdi_query = Some (sb_query s)\<rparr>)"

definition dropdown_shown :: "'f search_bar \<Rightarrow> bool" where
  "dropdown_shown s \<longleftrightarrow> sb_open s \<and> sb_query s \<noteq> []"

record 'f dropdown =
  dd_searching :: bool
  dd_noMatches :: bool
  dd_folders :: "jsstring list"
  dd_files :: "'f list"

text \<open>\<open>None\<close> stands for a query without data.\<close>

definition dropdown_items :: "bool \<Rightarrow> bool \<Rightarrow> 'f list option \<Rightarrow> jsstring list option \<Rightarrow> 'f dropdown" where
  "dropdown_items isFetching foldersFetching files folders =
     (let fs = (case files of None \<Rightarrow> [] | Some x \<Rightarrow> x);
          ds = (case folders of None \<Rightarrow> [] | Some x \<Rightarrow> x)
      in \<lparr>dd_searching = (isFetching \<or> foldersFetching),
          dd_noMatches = (\<not> isFetching \<and> \<not> foldersFetching \<and> fs = [] \<and> ds = []),
          dd_folders = ds, dd_files = fs\<rparr>)"

section \<open>Reachable states\<close>

inductive search_reach :: "'f search_bar \<Rightarrow> bool" where
  mount: "search_reach mount_search"
| change: "search_reach s \<Longrightarrow> search_reach (onChange t s)"
| focus: "search_reach s \<Longrightarrow> search_reach (onFocus s)"
| blur: "search_reach s \<Longrightarrow> search_reach (onBlur s)"
| key: "search_reach s \<Longrightarrow> search_reach (onKeyDown k s)"
| timer: "search_reach s \<Longrightarrow> search_reach (fire_timer s)"
| select: "search_reach s \<Longrightarrow> dropdown_shown s \<Longrightarrow> search_reach (handleSelect f s)"
| folder: "search_reach s \<Longrightarrow> dropdown_shown s \<Longrightarrow> search_reach (handleSelectFolder p s)"

definition search_inv :: "'f search_bar \<Rightarrow> bool" where
  "search_inv s \<longleftrightarrow>
     (case sb_timer s of None \<Rightarrow> sb_query s = trim (sb_input s) | Some q \<Rightarrow> q = trim (sb_input s))
     \<and> list_all (\<lambda>c. case c of OnSearch q \<Rightarrow> q \<noteq> [] \<and> trim q = q | _ \<Rightarrow> True) (sb_calls s)"

lemma dropWhile_idem: "dropWhile P (dropWhile P xs) = dropWhile P xs"
  by (induction xs) auto

lemma trim_trim [simp]: "trim (trim s) = trim s"
proof (cases "trim s")
  case Nil
  then show ?thesis by (simp add: trim_def [of "[]"])
next
  case (Cons c r)
  have "\<not> is_space c"
  proof -
    obtain u where "dropWhile is_space s = trim s @ u"
      by (metis append_take_drop_id dropWhile_eq_drop rev_append rev_rev_ident trim_def takeWhile_dropWhile_id)
    with Cons hd_dropWhile [of is_space s] show ?thesis by (cases "dropWhile is_space s") auto
  qed
  then have "dropWhile is_space (trim s) = trim s" by (simp add: Cons)
  then show ?thesis by (simp add: trim_def [of "trim s"]) (simp add: trim_def dropWhile_idem)
qed

lemma search_inv_simps [simp]:
  "search_inv (s\<lparr>sb_open := b\<rparr>) = search_inv s"
  by (cases "sb_timer s") (simp_all add: search_inv_def)

lemma set_input_inv: "search_inv s \<Longrightarrow> search_inv (set_input t s)"
  by (auto simp: set_input_def search_inv_def split: option.splits)

lemma clear_search_inv:
  assumes "search_inv s" and "case c of OnSearch q \<Rightarrow> False | _ \<Rightarrow> True"
  shows "search_inv (clear_search c s)"
  using assms
  by (auto simp: clear_search_def set_input_def search_inv_def trim_def split: option.splits search_call.splits)

lemma search_reach_inv: "search_reach s \<Longrightarrow> search_inv s"
proof (induction rule: search_reach.induct)
  case mount
  then show ?case by (simp add: search_inv_def mount_search_def)
next
  case (change s t)
  then show ?case by (simp add: onChange_def set_input_inv)
next
  case (key s k)
  then show ?case by (auto simp: onKeyDown_def Let_def search_inv_def split: option.splits)
next
  case (timer s)
  then show ?case by (auto simp: fire_timer_def search_inv_def split: option.splits)
qed (simp_all add: onFocus_def onBlur_def handleSelect_def handleSelectFolder_def clear_search_inv)

text \<open>
  C40. The query follows the text: in every reachable state either the query is the trimmed text of the
  box or the running timer will set it to exactly that, so when the timer has fired they agree,
  however typing, selecting, pressing keys and firing were interleaved. And the parent is only ever
  asked to search for a trimmed, non-empty text.
\<close>

theorem search_bar_follows:
  assumes "search_reach s"
  shows "sb_query (fire_timer s) = trim (sb_input (fire_timer s))
    \<and> list_all (\<lambda>c. case c of OnSearch q \<Rightarrow> q \<noteq> [] \<and> trim q = q | _ \<Rightarrow> True) (sb_calls s)"
  using search_reach_inv [OF assms] by (auto simp: search_inv_def fire_timer_def split: option.splits)

theorem search_bar_follows_witness:
  "sb_query (fire_timer (onChange (js '' cat '') (mount_search :: unit search_bar))) =
    trim (sb_input (fire_timer (onChange (js '' cat '') (mount_search :: unit search_bar))))"
  by (rule conjunct1 [OF search_bar_follows [OF search_reach.change [OF search_reach.mount]]])

end
