(* ===== verification/Navigation.thy ===== *)
theory Navigation
  imports File_Filters Search_Bar Listings
begin

text \<open>
  The routes of \<open>web/src/routes\<close>: what the pages do with a change of their filters, how the header's
  search leads on, and the browser history these navigations write. The router is the library's; a
  navigation is a target and whether it replaces the current history entry, which is what the code
  hands to \<open>navigate\<close>.
\<close>

section \<open>Navigations\<close>

datatype location =
    Browse BrowseFilters
  | Search SearchFilters
  | Recents ListFilters
  | Photos
  | File_page jsstring

record navigation =
  nav_to :: location
  nav_replace :: bool

text \<open>\<open>routes/index.tsx\<close>\<close>

definition home_filters_change :: "BrowseFilters \<Rightarrow> BrowseFilters \<Rightarrow> navigation" where
  "home_filters_change filters next =
     \<lparr>nav_to = Browse next, nav_replace = (bf_path next = bf_path filters)\<rparr>"

text \<open>\<open>routes/search.tsx\<close>\<close>

definition search_filters_change :: "SearchFilters \<Rightarrow> navigation" where
  "search_filters_change next = \<lparr>nav_to = Search next, nav_replace = True\<rparr>"

text \<open>\<open>routes/recents.tsx\<close>: the filters of the file list, and back.\<close>

definition RECENTS_FILTERS :: SearchFilters where
  "RECENTS_FILTERS =
     \<lparr>qf_query = [], qf_type = [], qf_sort = lf_sort DEFAULT_LIST_FILTERS,
      qf_order = lf_order DEFAULT_LIST_FILTERS\<rparr>"

definition recents_filters :: "ListFilters \<Rightarrow> SearchFilters" where
  "recents_filters filters =
     RECENTS_FILTERS\<lparr>qf_sort := lf_sort filters, qf_order := lf_order filters\<rparr>"

definition recents_filters_change :: "SearchFilters \<Rightarrow> navigation" where
  "recents_filters_change next =
     \<lparr>nav_to = Recents \<lparr>lf_sort = qf_sort next, lf_order = qf_order next\<rparr>, nav_replace = True\<rparr>"

text \<open>\<open>onOpenFile\<close> of all four pages.\<close>

definition open_file :: "jsstring \<Rightarrow> navigation" where
  "open_file fid = \<lparr>nav_to = File_page fid, nav_replace = False\<rparr>"

text \<open>\<open>routes/__root.tsx\<close>: the callbacks of the header's search, and its links.\<close>

definition header_navigation :: "FileDto search_call \<Rightarrow> navigation" where
  "header_navigation call =
     (case call of
        OnSelect file \<Rightarrow> open_file (fd_id file)
      | OnSelectFolder path \<Rightarrow>
          \<lparr>nav_to = Browse (DEFAULT_BROWSE_FILTERS\<lparr>bf_path := path\<rparr>), nav_replace = False\<rparr>
      | OnSearch query \<Rightarrow>
          \<lparr>nav_to = Search (DEFAULT_SEARCH_FILTERS\<lparr>qf_query := query\<rparr>), nav_replace = False\<rparr>)"

definition header_links :: "(jsstring \<times> location) list" where
  "header_links =
     [(js ''Files'', Browse DEFAULT_BROWSE_FILTERS), (js ''Recents'', Recents DEFAULT_LIST_FILTERS),
      (js ''Photos'', Photos)]"

section \<open>The history\<close>

text \<open>The history as the browser keeps it, the current entry first.\<close>

definition visit :: "navigation \<Rightarrow> location list \<Rightarrow> location list" where
  "visit nav history =
     (if nav_replace nav then nav_to nav # tl history else nav_to nav # history)"

text \<open>A visitor of the browse page, who changes filters only: any number of changes of the path or the sorting.\<close>

fun browse_session :: "BrowseFilters \<Rightarrow> BrowseFilters list \<Rightarrow> location list \<Rightarrow> location list" where
  "browse_session filters [] history = history"
| "browse_session filters (next # nexts) history =
     browse_session next nexts (visit (home_filters_change filters next) history)"

fun browse_path :: "location \<Rightarrow> jsstring option" where
  "browse_path (Browse f) = Some (bf_path f)"
| "browse_path _ = None"

text \<open>The folders visited, latest first: a change that stays in the folder adds none.\<close>

fun folders_visited :: "jsstring list \<Rightarrow> BrowseFilters list \<Rightarrow> jsstring list" where
  "folders_visited ps [] = ps"
| "folders_visited ps (f # fs) =
     folders_visited (if ps \<noteq> [] \<and> bf_path f = hd ps then ps else bf_path f # ps) fs"

lemma folders_visited_distinct_adj: "distinct_adj ps \<Longrightarrow> distinct_adj (folders_visited ps fs)"
  by (induction ps fs rule: folders_visited.induct) (auto simp: distinct_adj_Cons)

lemma browse_session_history:
  assumes "map browse_path history = map Some (bf_path filters # ps)"
    and "hd history = Browse filters"
  shows "map browse_path (browse_session filters nexts history) =
      map Some (folders_visited (bf_path filters # ps) nexts)
    \<and> hd (browse_session filters nexts history) = Browse (last (filters # nexts))"
  using assms
proof (induction nexts arbitrary: filters history ps)
  case (Cons n ns)
  then obtain rest where h: "history = Browse filters # rest" "map browse_path rest = map Some ps"
    by (cases history) auto
  show ?case
  proof (cases "bf_path n = bf_path filters")
    case True
    then show ?thesis
      using Cons.IH [of "Browse n # rest" n ps] h by (simp add: visit_def home_filters_change_def)
  next
    case False
    then show ?thesis
      using Cons.IH [of "Browse n # history" n "bf_path filters # ps"] h
      by (simp add: visit_def home_filters_change_def)
  qed
qed simp

text \<open>
  C16. Back moves between folders: whatever filters are chosen in a row on the browse page, the history
  is exactly the sequence of folders visited, without one twice in a row, so that sorting adds no
  entry and no folder is skipped; and the current entry is the filter chosen last.
\<close>

theorem back_moves_between_folders:
  "map browse_path (browse_session f nexts [Browse f]) = map Some (folders_visited [bf_path f] nexts)
    \<and> distinct_adj (map browse_path (browse_session f nexts [Browse f]))
    \<and> hd (browse_session f nexts [Browse f]) = Browse (last (f # nexts))"
proof -
  have "map browse_path (browse_session f nexts [Browse f]) = map Some (folders_visited [bf_path f] nexts)
      \<and> hd (browse_session f nexts [Browse f]) = Browse (last (f # nexts))"
    by (rule browse_session_history) simp_all
  moreover have "distinct_adj (map Some (folders_visited [bf_path f] nexts))"
    using folders_visited_distinct_adj [of "[bf_path f]" nexts]
    by (simp add: distinct_adj_map_iff inj_on_def)
  ultimately show ?thesis by simp
qed

end
