(* ===== verification/Routes.thy ===== *)
theory Routes
  imports Navigation
begin

text \<open>
  The route tree of \<open>web/src/routeTree.gen.ts\<close>, the router of \<open>web/src/router.tsx\<close>, and what the routes make
  of a URL. Where a navigation goes is a path of the tree, with its parameters, and the search parameters
  of its filters; the route that the URL is matched to strips and normalizes them. Building and matching
  URLs is the router library's; what it documents is \<open>resolves\<close>.
\<close>

section \<open>The route tree\<close>

text \<open>The modules the routes come from.\<close>

datatype route_import =
    rootRouteImport
  | IndexRouteImport
  | PhotosRouteImport
  | RecentsRouteImport
  | SearchRouteImport
  | FileIdRouteImport

record route =
  ro_import :: route_import
  ro_id :: jsstring
  ro_path :: jsstring
  ro_parent :: route_import

definition IndexRoute :: route where
  "IndexRoute = \<lparr>ro_import = IndexRouteImport, ro_id = js ''/'', ro_path = js ''/'', ro_parent = rootRouteImport\<rparr>"

definition PhotosRoute :: route where
  "PhotosRoute = \<lparr>ro_import = PhotosRouteImport, ro_id = js ''/photos'', ro_path = js ''/photos'',
     ro_parent = rootRouteImport\<rparr>"

definition RecentsRoute :: route where
  "RecentsRoute = \<lparr>ro_import = RecentsRouteImport, ro_id = js ''/recents'', ro_path = js ''/recents'',
     ro_parent = rootRouteImport\<rparr>"

definition SearchRoute :: route where
  "SearchRoute = \<lparr>ro_import = SearchRouteImport, ro_id = js ''/search'', ro_path = js ''/search'',
     ro_parent = rootRouteImport\<rparr>"

definition FileIdRoute :: route where
  "FileIdRoute = \<lparr>ro_import = FileIdRouteImport, ro_id = js ''/file/$id'', ro_path = js ''/file/$id'',
     ro_parent = rootRouteImport\<rparr>"

lemmas routes = IndexRoute_def PhotosRoute_def RecentsRoute_def SearchRoute_def FileIdRoute_def

definition rootRouteChildren :: "route list" where
  "rootRouteChildren = [IndexRoute, PhotosRoute, RecentsRoute, SearchRoute, FileIdRoute]"

definition FileRoutesByFullPath :: "jsstring \<rightharpoonup> route" where
  "FileRoutesByFullPath =
     [js ''/'' \<mapsto> IndexRoute, js ''/photos'' \<mapsto> PhotosRoute, js ''/recents'' \<mapsto> RecentsRoute,
      js ''/search'' \<mapsto> SearchRoute, js ''/file/$id'' \<mapsto> FileIdRoute]"

definition FileRoutesByTo :: "jsstring \<rightharpoonup> route" where
  "FileRoutesByTo =
     [js ''/'' \<mapsto> IndexRoute, js ''/photos'' \<mapsto> PhotosRoute, js ''/recents'' \<mapsto> RecentsRoute,
      js ''/search'' \<mapsto> SearchRoute, js ''/file/$id'' \<mapsto> FileIdRoute]"

text \<open>\<open>FileRoutesById\<close> also has the root, which is no route of a file.\<close>

datatype route_of_id = Root_route route_import | File_route route

definition FileRoutesById :: "jsstring \<rightharpoonup> route_of_id" where
  "FileRoutesById =
     [js ''__root__'' \<mapsto> Root_route rootRouteImport, js ''/'' \<mapsto> File_route IndexRoute,
      js ''/photos'' \<mapsto> File_route PhotosRoute, js ''/recents'' \<mapsto> File_route RecentsRoute,
      js ''/search'' \<mapsto> File_route SearchRoute, js ''/file/$id'' \<mapsto> File_route FileIdRoute]"

record FileRouteTypes =
  rty_fullPaths :: "jsstring list"
  rty_to :: "jsstring list"
  rty_id :: "jsstring list"

definition file_route_types :: FileRouteTypes where
  "file_route_types =
     \<lparr>rty_fullPaths = [js ''/'', js ''/photos'', js ''/recents'', js ''/search'', js ''/file/$id''],
      rty_to = [js ''/'', js ''/photos'', js ''/recents'', js ''/search'', js ''/file/$id''],
      rty_id = [js ''__root__'', js ''/'', js ''/photos'', js ''/recents'', js ''/search'', js ''/file/$id'']\<rparr>"

text \<open>What the module declares to the router of each path.\<close>

record route_declaration =
  rd_id :: jsstring
  rd_path :: jsstring
  rd_fullPath :: jsstring
  rd_preLoaderRoute :: route_import
  rd_parentRoute :: route_import

definition FileRoutesByPath :: "jsstring \<rightharpoonup> route_declaration" where
  "FileRoutesByPath =
     [js ''/'' \<mapsto> \<lparr>rd_id = js ''/'', rd_path = js ''/'', rd_fullPath = js ''/'',
        rd_preLoaderRoute = IndexRouteImport, rd_parentRoute = rootRouteImport\<rparr>,
      js ''/photos'' \<mapsto> \<lparr>rd_id = js ''/photos'', rd_path = js ''/photos'', rd_fullPath = js ''/photos'',
        rd_preLoaderRoute = PhotosRouteImport, rd_parentRoute = rootRouteImport\<rparr>,
      js ''/recents'' \<mapsto> \<lparr>rd_id = js ''/recents'', rd_path = js ''/recents'', rd_fullPath = js ''/recents'',
        rd_preLoaderRoute = RecentsRouteImport, rd_parentRoute = rootRouteImport\<rparr>,
      js ''/search'' \<mapsto> \<lparr>rd_id = js ''/search'', rd_path = js ''/search'', rd_fullPath = js ''/search'',
        rd_preLoaderRoute = SearchRouteImport, rd_parentRoute = rootRouteImport\<rparr>,
      js ''/file/$id'' \<mapsto> \<lparr>rd_id = js ''/file/$id'', rd_path = js ''/file/$id'', rd_fullPath = js ''/file/$id'',
        rd_preLoaderRoute = FileIdRouteImport, rd_parentRoute = rootRouteImport\<rparr>]"

record route_tree =
  rt_root :: route_import
  rt_children :: "route list"

definition routeTree :: route_tree where
  "routeTree = \<lparr>rt_root = rootRouteImport, rt_children = rootRouteChildren\<rparr>"

record router_options =
  ro_routeTree :: route_tree
  ro_scrollRestoration :: bool

definition getRouter :: router_options where
  "getRouter = \<lparr>ro_routeTree = routeTree, ro_scrollRestoration = True\<rparr>"

text \<open>The tables of the generated module agree with the tree, and no two routes share a path.\<close>

lemmas route_tables = FileRoutesByFullPath_def FileRoutesByTo_def FileRoutesById_def FileRoutesByPath_def
  file_route_types_def

lemma tree_paths:
  "map ro_path rootRouteChildren = rty_fullPaths file_route_types" "distinct (rty_fullPaths file_route_types)"
  "rty_to file_route_types = rty_fullPaths file_route_types"
  "rty_id file_route_types = js ''__root__'' # map ro_id rootRouteChildren" "FileRoutesByTo = FileRoutesByFullPath"
  by (simp_all add: rootRouteChildren_def route_tables routes js_def)

lemma tree_routes:
  assumes "r \<in> set rootRouteChildren"
  shows "FileRoutesByFullPath (ro_path r) = Some r"
    and "FileRoutesById (ro_id r) = Some (File_route r)"
    and "FileRoutesByPath (ro_path r) = Some \<lparr>rd_id = ro_id r, rd_path = ro_path r, rd_fullPath = ro_path r,
      rd_preLoaderRoute = ro_import r, rd_parentRoute = ro_parent r\<rparr>"
  using assms by (auto simp: rootRouteChildren_def route_tables routes js_def)

section \<open>Where a navigation goes\<close>

text \<open>
  What \<open>navigate\<close> and \<open>Link\<close> are given: \<open>to\<close>, \<open>params\<close> and \<open>search\<close>. The link to the recent files has no
  search parameters, which are those of the default filters once defaults are left out.
\<close>

record destination =
  de_to :: jsstring
  de_params :: "(jsstring \<times> jsstring) list"
  de_search :: params

fun destination_of :: "location \<Rightarrow> destination" where
  "destination_of (Browse f) = \<lparr>de_to = js ''/'', de_params = [], de_search = browse_params f\<rparr>"
| "destination_of (Search f) = \<lparr>de_to = js ''/search'', de_params = [], de_search = search_params f\<rparr>"
| "destination_of (Recents f) = \<lparr>de_to = js ''/recents'', de_params = [], de_search = list_params f\<rparr>"
| "destination_of Photos = \<lparr>de_to = js ''/photos'', de_params = [], de_search = []\<rparr>"
| "destination_of (File_page fid) = \<lparr>de_to = js ''/file/$id'', de_params = [(js ''id'', fid)], de_search = []\<rparr>"

text \<open>
  The middlewares of each route, over the router's \<open>stripSearchParams\<close>: \<open>routes/index.tsx\<close>,
  \<open>routes/search.tsx\<close> and \<open>routes/recents.tsx\<close> have one, the other two none.
\<close>

definition route_middleware :: "(params \<Rightarrow> params \<Rightarrow> params) \<Rightarrow> route_import \<Rightarrow> params \<Rightarrow> params" where
  "route_middleware stripSearchParams route =
     (case route of
        IndexRouteImport \<Rightarrow> stripSearchParams (browse_params DEFAULT_BROWSE_FILTERS)
      | SearchRouteImport \<Rightarrow> stripSearchParams (search_params DEFAULT_SEARCH_FILTERS)
      | RecentsRouteImport \<Rightarrow> stripSearchParams (list_params DEFAULT_LIST_FILTERS)
      | _ \<Rightarrow> id)"

text \<open>What a route shows for the parameters of a URL: \<open>validateSearch\<close> and \<open>useSearch\<close>, or \<open>useParams\<close>.\<close>

definition route_shows :: "route_import \<Rightarrow> (jsstring \<times> jsstring) list \<Rightarrow> jsval \<Rightarrow> location option" where
  "route_shows route ps search =
     (case route of
        rootRouteImport \<Rightarrow> None
      | IndexRouteImport \<Rightarrow> Some (Browse (normalizeBrowseFilters search))
      | SearchRouteImport \<Rightarrow> Some (Search (normalizeSearchFilters search))
      | RecentsRouteImport \<Rightarrow> Some (Recents (normalizeListFilters search))
      | PhotosRouteImport \<Rightarrow> Some Photos
      | FileIdRouteImport \<Rightarrow> map_option File_page (map_of ps (js ''id'')))"

section \<open>Through the URL and back\<close>

text \<open>
  The router's part. \<open>href\<close> makes a URL of a path, its parameters and search parameters, and
  \<open>match\<close> finds the route of a URL and its parameters. For the routes of the tree, with the parameters of
  their path, none of them empty, matching gives back what the URL was made of.
\<close>

definition path_params :: "jsstring \<Rightarrow> jsstring list" where
  "path_params path = map tl (filter (\<lambda>seg. startsWith seg (js ''$'')) (split slash path))"

definition resolves ::
  "route list \<Rightarrow> (jsstring \<Rightarrow> (jsstring \<times> jsstring) list \<Rightarrow> params \<Rightarrow> 'url) \<Rightarrow>
     ('url \<Rightarrow> (route_import \<times> (jsstring \<times> jsstring) list \<times> params) option) \<Rightarrow> bool" where
  "resolves tree href match \<longleftrightarrow>
     (\<forall>r \<in> set tree. \<forall>ps q. map fst ps = path_params (ro_path r) \<longrightarrow> list_all (\<lambda>p. snd p \<noteq> []) ps \<longrightarrow>
        match (href (ro_path r) ps q) = Some (ro_import r, ps, q))"

text \<open>The URL a navigation leads to, and what is shown at a URL.\<close>

definition navigation_url ::
  "(params \<Rightarrow> params \<Rightarrow> params) \<Rightarrow> (jsstring \<Rightarrow> (jsstring \<times> jsstring) list \<Rightarrow> params \<Rightarrow> 'url) \<Rightarrow> location \<Rightarrow> 'url option"
  where
  "navigation_url stripSearchParams href loc =
     (let d = destination_of loc in
      map_option (\<lambda>r. href (ro_path r) (de_params d) (route_middleware stripSearchParams (ro_import r) (de_search d)))
        (FileRoutesByTo (de_to d)))"

definition shown_at ::
  "('url \<Rightarrow> (route_import \<times> (jsstring \<times> jsstring) list \<times> params) option) \<Rightarrow> 'url \<Rightarrow> location option" where
  "shown_at match url =
     (case match url of None \<Rightarrow> None | Some (route, ps, search) \<Rightarrow> route_shows route ps (Obj search))"

fun location_ok :: "location \<Rightarrow> bool" where
  "location_ok (File_page fid) = (fid \<noteq> [])"
| "location_ok _ = True"

lemma tree_params:
  "path_params (js ''/'') = []" "path_params (js ''/photos'') = []" "path_params (js ''/recents'') = []"
  "path_params (js ''/search'') = []" "path_params (js ''/file/$id'') = [js ''id'']"
  by code_simp+

lemma routes_by_to:
  "FileRoutesByTo (js ''/'') = Some IndexRoute" "FileRoutesByTo (js ''/photos'') = Some PhotosRoute"
  "FileRoutesByTo (js ''/recents'') = Some RecentsRoute" "FileRoutesByTo (js ''/search'') = Some SearchRoute"
  "FileRoutesByTo (js ''/file/$id'') = Some FileIdRoute"
  by (simp_all add: FileRoutesByTo_def js_def)

lemma shown_routes:
  assumes "resolves (rt_children routeTree) href match"
  shows "shown_at match (href (js ''/'') [] q) = Some (Browse (normalizeBrowseFilters (Obj q)))"
    and "shown_at match (href (js ''/search'') [] q) = Some (Search (normalizeSearchFilters (Obj q)))"
    and "shown_at match (href (js ''/recents'') [] q) = Some (Recents (normalizeListFilters (Obj q)))"
    and "shown_at match (href (js ''/photos'') [] q) = Some Photos"
    and "fid \<noteq> [] \<Longrightarrow> shown_at match (href (js ''/file/$id'') [(js ''id'', fid)] q) = Some (File_page fid)"
proof -
  have "shown_at match (href (ro_path r) ps q) = route_shows (ro_import r) ps (Obj q)"
    if "r \<in> set rootRouteChildren" "map fst ps = path_params (ro_path r)" "list_all (\<lambda>p. snd p \<noteq> []) ps" for r ps
    using assms that by (simp add: resolves_def routeTree_def shown_at_def)
  note this [of IndexRoute "[]"] this [of SearchRoute "[]"] this [of RecentsRoute "[]"] this [of PhotosRoute "[]"]
    this [of FileIdRoute "[(js ''id'', fid)]"]
  then show "shown_at match (href (js ''/'') [] q) = Some (Browse (normalizeBrowseFilters (Obj q)))"
    and "shown_at match (href (js ''/search'') [] q) = Some (Search (normalizeSearchFilters (Obj q)))"
    and "shown_at match (href (js ''/recents'') [] q) = Some (Recents (normalizeListFilters (Obj q)))"
    and "shown_at match (href (js ''/photos'') [] q) = Some Photos"
    and "fid \<noteq> [] \<Longrightarrow> shown_at match (href (js ''/file/$id'') [(js ''id'', fid)] q) = Some (File_page fid)"
    by (simp_all add: rootRouteChildren_def routes tree_params route_shows_def)
qed

text \<open>
  C17. Every place can be reloaded, shared and returned to: wherever the application navigates, the target is a
  route of the tree, and what is shown at the URL, once the router has left out the defaults and the route has
  read the rest back, is that same place: the same page with the same filters, the file with the same id.
  So two places with the same URL are the same.
\<close>

theorem navigation_survives_url:
  assumes "resolves (rt_children routeTree) href match" and "\<And>dflt. strips_defaults dflt (stripSearchParams dflt)"
    and "location_ok loc"
  shows "\<exists>url. navigation_url stripSearchParams href loc = Some url \<and> shown_at match url = Some loc
    \<and> (\<forall>loc'. location_ok loc' \<longrightarrow> navigation_url stripSearchParams href loc' = Some url \<longrightarrow> loc' = loc)"
proof -
  have returns: "\<exists>url. navigation_url stripSearchParams href l = Some url \<and> shown_at match url = Some l" if "location_ok l" for l
    using that
    by (cases l) (simp_all add: navigation_url_def routes_by_to shown_routes [OF assms(1)]
        routes route_middleware_def browse_url.url_roundtrip [OF assms(2)]
        search_url.url_roundtrip [OF assms(2)] list_url.url_roundtrip [OF assms(2)])
  from returns [OF assms(3)] obtain url where "navigation_url stripSearchParams href loc = Some url" "shown_at match url = Some loc"
    by blast
  moreover have "l = loc" if "location_ok l" "navigation_url stripSearchParams href l = Some url" for l
    using returns [OF that(1)] that(2) \<open>shown_at match url = Some loc\<close> by auto
  ultimately show ?thesis by blast
qed

text \<open>A router whose URLs keep the path they were made of.\<close>

definition plain_match ::
  "jsstring \<times> (jsstring \<times> jsstring) list \<times> params \<Rightarrow> (route_import \<times> (jsstring \<times> jsstring) list \<times> params) option" where
  "plain_match url = (case url of (path, ps, q) \<Rightarrow> map_option (\<lambda>r. (ro_import r, ps, q)) (FileRoutesByFullPath path))"

lemma plain_resolves: "resolves (rt_children routeTree) (\<lambda>path ps q. (path, ps, q)) plain_match"
  by (simp add: resolves_def routeTree_def plain_match_def tree_routes)

theorem navigation_survives_url_witness:
  "\<exists>url. navigation_url drop_defaults (\<lambda>path ps q. (path, ps, q)) (File_page (js ''7'')) = Some url
    \<and> shown_at plain_match url = Some (File_page (js ''7''))"
  using navigation_survives_url [OF plain_resolves drop_defaults_strips, of "File_page (js ''7'')"]
  by (auto simp: js_def)

end
