(* ===== verification/Cursor_Pb.thy ===== *)
theory Cursor_Pb
  imports Search_Pb
begin

text \<open>
  The page token of the search service, as the generated module
  \<open>web/src/gen/cursor/v1/cursor_pb.ts\<close> types it, with the conventions of \<open>Files_Pb\<close>. The token is opaque
  to the application, which passes it on as a string.
\<close>

section \<open>Types\<close>

datatype ListPhase =
    LIST_PHASE_UNSPECIFIED
  | LIST_PHASE_DIRECTORIES
  | LIST_PHASE_FILES

record PageToken =
  pt_sortField :: SortField
  pt_sortOrder :: SortOrder
  pt_lastId :: int
  pt_key :: jsstring
  pt_lastModified :: "Timestamp option"
  pt_size :: int
  pt_query :: jsstring
  pt_contentType :: jsstring
  pt_path :: jsstring
  pt_phase :: ListPhase
  pt_lastDir :: jsstring
  pt_takenAt :: "Timestamp option"

section \<open>Numbers of the phases\<close>

text \<open>The values of the enumeration on the wire.\<close>

definition list_phase_number :: "ListPhase \<Rightarrow> int" where
  "list_phase_number p = (case p of LIST_PHASE_UNSPECIFIED \<Rightarrow> 0 | LIST_PHASE_DIRECTORIES \<Rightarrow> 1 | LIST_PHASE_FILES \<Rightarrow> 2)"

lemma list_phase_number_inject: "list_phase_number p = list_phase_number q \<longleftrightarrow> p = q"
  by (simp add: list_phase_number_def split: ListPhase.splits)

end
