(* ===== verification/Spec2Isabelle.thy ===== *)
theory Spec2Isabelle
  imports Upload_Batch Upload_Delivery Upload_Runs Poller_Steps Listed_Service Folder_Tree Folder_Deletion File_Page Routes Cursor_Pb
begin

text \<open>
  A verification of the web application of file-indexer.

  \<^bold>\<open>The program.\<close> file-indexer keeps an index of the objects in a bucket. Two services written in Go,
  \<open>files\<close> and \<open>search\<close>, answer RPC calls; background workers fill the index and make previews. The
  web application under \<open>src/web/src\<close> is the TypeScript program modelled here. Its parts, from the
  services to the screen:

  \<^item> \<open>gen/service/v1\<close>: the messages and the clients of the two services.
  \<^item> \<open>server/impl.ts\<close>: validators of untrusted input, the projections of messages to plain data, and
    one handler per operation; \<open>server/files.ts\<close> publishes each as a server function, with a method, a
    validator and a handler; \<open>server/clients.ts\<close> creates the clients when they are first needed.
  \<^item> \<open>lib\<close>: the URL-backed filters, upload paths, the resumable multipart upload, the poller of preview
    statuses, and display helpers.
  \<^item> \<open>components\<close>: the listings, the folder tree, the file table with its dialogs, the photo wall, the
    header's search, the browse page with its uploads.
  \<^item> \<open>routes\<close>: the pages, which turn filters into navigations.

  \<^bold>\<open>Conventions.\<close> (\<open>Prelude\<close>, \<open>Js_Strings\<close>, \<open>Js_Numbers\<close>, \<open>Js_Dates\<close>, \<open>Json\<close>) A string is a list of
  16-bit code units, a BigInt an \<open>int\<close>, a double \<open>jsnum\<close>, an unknown value \<open>jsval\<close>; a throw is \<open>Inl\<close>.
  An async function is a state transformer over a world, which stands for everything its awaited calls
  read and change: the services, the object store, the network. A React component is a record of its
  state with one function per handler; its reachable states are an inductive predicate, in which a
  mutation is started by one step and settled by another, so that any other event may come in
  between; its rendering is a record or datatype of what is shown and enabled, without styling.

  \<^bold>\<open>Theories.\<close>

  \<^item> \<open>Files_Pb\<close>, \<open>Search_Pb\<close>, \<open>Cursor_Pb\<close>: \<open>files_pb.ts\<close>, \<open>search_pb.ts\<close>, \<open>cursor_pb.ts\<close>, one record per
    message.
  \<^item> \<open>Dto\<close>: \<open>toFileDto\<close> and the other projections; \<open>toFileDto_Inr_iff\<close> says when one throws,
    and a row determines its file up to the rounding of its size.
  \<^item> \<open>Validators\<close>: every \<open>validate...\<close>; the locale \<open>input_validator\<close> (what is accepted is well
    formed, well-formed data arrives unchanged) is interpreted on all eleven.
  \<^item> \<open>Impl\<close>: every \<open>...Impl\<close>. A listing survives a failure of the preview service, rows get their own
    preview URL, a download URL is the one of the id asked for.
  \<^item> \<open>Server_Functions\<close>: \<open>files.ts\<close>, \<open>clients.ts\<close>; the locale \<open>server_function\<close> extends
    \<open>input_validator\<close> (no effect without a validated input) and is interpreted on all that take input;
    its extension \<open>exact_server_function\<close> (what arrives is what was sent) on those whose fields are
    required. Deleting a directory always names one; a move is forwarded exactly.
  \<^item> \<open>File_Filters\<close>: \<open>fileFilters.ts\<close>; the locale \<open>url_state\<close> gives the round trip through the URL for
    the three shapes of filters.
  \<^item> \<open>Upload_Path\<close>, \<open>Upload_Plan\<close>, \<open>Upload_Session\<close>, \<open>Multipart\<close>, \<open>Multipart_Store\<close>:
    \<open>uploadPath.ts\<close> and \<open>multipartUpload.ts\<close>. The plan tiles the file, and its loop returns exactly
    when the part size is positive or the file is empty; a session survives storage; the locale
    \<open>session_store\<close> is what the driver relies on, interpreted on \<open>loadSession\<close>, \<open>saveSession\<close>,
    \<open>clearSession\<close>. Of the driver: every way an upload settles, with its progress and its cause; for each
    part how often it is PUT, and that a landed one is not; and, against a store that keeps what it documents, that after any history of attempts the one that
    succeeds completes the exact bytes of the file.
  \<^item> \<open>Formatting\<close>, \<open>Photo_Wall\<close>, \<open>Path_Ui\<close>: \<open>formatDate.ts\<close>, \<open>fileIcon.ts\<close>, \<open>formatBytes\<close>, the
    grouping by day, breadcrumbs and names.
  \<^item> \<open>Status_Poller\<close>, \<open>Poller_Steps\<close>: \<open>useFileStatusPoller.ts\<close>, one tick, and the hook over time: ticks,
    their answers in any order, renders, mounting and unmounting as interleaved steps. It may change
    preview statuses and URLs, never more; that answers can overtake each other shows a file going back.
  \<^item> \<open>Paging\<close>, \<open>Listings\<close>: the three infinite lists; the locale \<open>paged_list\<close> gives that the pages shown
    are a prefix of the service's and that scrolling reaches the end, interpreted for \<open>FileList.tsx\<close>,
    \<open>DirectoryList.tsx\<close> and \<open>PhotoWall.tsx\<close>. \<open>Listed_Service\<close> goes on to the search service: through
    validation, handler and projections, the rows loaded, the table of a directory and the sections of the
    photo wall are those of the service's own listing, page by page.
  \<^item> \<open>Folder_Tree\<close>, \<open>Move_Dialog\<close>, \<open>File_Table\<close>, \<open>Folder_Deletion\<close>, \<open>File_Page\<close>, \<open>Search_Bar\<close>,
    \<open>Browser\<close>: the components of these names, \<open>DeleteFileConfirmation.tsx\<close>,
    \<open>DeleteFolderConfirmation.tsx\<close>, \<open>FileMetadataTable.tsx\<close>, \<open>FileViewer.tsx\<close> and \<open>file.$id.tsx\<close>;
    invariants of their reachable states say which requests they can have in flight.
  \<^item> \<open>Upload_Wiring\<close>: the upload through all layers. From what the files service and the object store
    document (\<open>files_service\<close>, \<open>part_endpoint\<close>, \<open>object_store\<close>) the driver's contract \<open>stores_parts\<close> follows
    for the program's own wiring, and a file whose upload succeeds is in the store with its bytes.
    \<open>Upload_Batch\<close>: several files in a row, when the store keeps different keys apart (\<open>keys_apart\<close>).
    \<open>Upload_Recovery\<close>, \<open>Upload_Delivery\<close>: that uploads do succeed, of one file or several, when transfers
    fail any number of times but never three times in a row (\<open>recovers\<close>, \<open>service_recovers\<close>, with a measure of the failures
    still to come), the local storage has room and nobody cancels.
  \<^item> \<open>Upload_Steps\<close>: the uploads of the browse page over time, with progress, cancelling and a second choice
    of files in between: which transfer the cancel button reaches, and when it does not. \<open>Upload_Runs\<close>
    is a check of the model, not a property of the program: the upload of \<open>Browser\<close>, which awaits each call in one step, is a run of these steps.
  \<^item> \<open>Query_Keys\<close>: the keys of the cached queries and what each mutation invalidates.
  \<^item> \<open>Navigation\<close>: the routes, the navigations they make and the browser history.
  \<^item> \<open>Routes\<close>: \<open>routeTree.gen.ts\<close>, \<open>router.tsx\<close> and the parts of the routes that read and write a URL; the
    tables of the route tree agree, and every place the application navigates to survives its URL.
  \<^item> This theory: properties across all layers, from a click or a key to the call of a service: which
    file is deleted or moved from a row of a table and from the page of a file, folders deleted and visited, preview
    statuses, searches, and that every request the pages make is accepted.

  \<^bold>\<open>Loops and fuel.\<close> The loop of \<open>planParts\<close> and the loader of the folder tree need not end and are
  partial functions with \<open>None\<close> for not returning; it is shown when the first returns, that the
  second returns on a finite listing with its directories first, and that it need not otherwise. The
  loader of the move dialog counts to a hundred pages as the source does; up to there it returns every
  directory, and beyond it drops some. The parser of \<open>JSON.parse\<close> spends
  fuel, and \<open>JSON_parse_fuel\<close> shows that what it is given is enough. All other loops are structural.

  \<^bold>\<open>Parameters.\<close> Code that is not under \<open>src/web/src\<close> is an argument: the RPC clients (any behaviour),
  \<open>timestampDate\<close> of the protobuf runtime, \<open>fetch\<close>, the abort signal, the local storage (possibly absent
  or full), the reading of dates that are not in UTC form. What is relied on is a named hypothesis:
  \<open>served\<close> (the framework runs the validator, then the handler, and passes the result over the wire),
  \<open>strips_defaults\<close> (the router leaves defaults out of the URL), \<open>resolves\<close> (it matches a URL it made for
  a route of the tree to that route, with the same parameters), \<open>infinite_data\<close> and \<open>answers_by\<close> (an
  infinite query holds the chain of pages that were asked for), \<open>stores_parts\<close> and the
  service's laws above (a multipart store keeps the parts it accepted, a listed size is exact in a
  double). Each is shown to hold of a concrete instance in the witnesses.

  \<^bold>\<open>Not modelled.\<close> The Go services, the SQL and the deployment, which are other languages behind the RPC
  clients; \<open>validate_pb.ts\<close>, the generated descriptors of a third-party schema; the serialized
  descriptors in the other generated modules; how the router library makes and matches URLs;
  styling, the hidden file input apart, the document shell and console output; the text of a number that
  is shown in a metadata row.
\<close>

section \<open>From a listing to the services\<close>

lemma listed_rows:
  assumes "listDirectoryImpl td search files input w0 = (Inr page, w1)"
    and "sc_listDirectory search (list_directory_request input) w0 = (Inr res, w)"
  shows "list_all2 (\<lambda>d f. fd_id d = bigint_toString (fi_id f) \<and> fd_key d = fi_key f)
    (ldr_files page) (ld_res_files res)"
proof -
  obtain dtos ds w' where dtos: "traverse (toFileDto td) (ld_res_files res) = Inr dtos"
    and ds: "resolve_previews files (ld_res_files res) dtos w = (Inr ds, w')" and page: "ldr_files page = ds"
    using assms(1,2) unfolding listDirectoryImpl_def
    by (auto simp: lift_run elim!: await_InrE split: sum.splits)
  have "map shown_row ds = map service_row (ld_res_files res)" by (rule resolved_rows [OF dtos ds])
  then show ?thesis by (auto simp: page list_all2_conv_all_nth list_eq_iff_nth_eq)
qed

lemma listed_row:
  assumes "list_all2 R ds fs" and "d \<in> set ds"
  shows "\<exists>f \<in> set fs. R d f"
  using assms by (metis list_all2_conv_all_nth in_set_conv_nth nth_mem)

lemma numeric_toString: "0 \<le> n \<Longrightarrow> is_numeric (bigint_toString n)"
  by (simp add: bigint_toString_def is_numeric_dec)

lemma delete_file_effect:
  assumes "served wire (deleteFile c) call" and "BigInt fid = Inr n"
  shows "snd (call (send_id fid) w) \<in> {w, snd (fc_deleteFile (getFilesClient c) \<lparr>df_req_id = n\<rparr> w)}"
  using delete_file_exact.sent_effect [OF assms(1), of fid w] assms(2)
  by (auto simp: deleteFile_def deleteFileImpl_def await_def ret_def split: prod.splits sum.splits)

lemma move_file_effect:
  assumes "served wire (moveFile c) call" and "BigInt fid = Inr n"
  shows "snd (call (send_MoveFileInput \<lparr>mfi_id = fid, mfi_destinationKey = dest\<rparr>) w) \<in>
    {w, snd (fc_moveFile (getFilesClient c) \<lparr>mf_req_id = n, mf_req_destinationKey = dest\<rparr> w)}"
  using move_exact.sent_effect [OF assms(1), of "\<lparr>mfi_id = fid, mfi_destinationKey = dest\<rparr>" w] assms(2)
  by (auto simp: moveFile_def moveFileImpl_def await_def ret_def split: prod.splits sum.splits)

text \<open>The calls of a table's mutations, through the server functions.\<close>

abbreviation delete_by :: "(jsval \<Rightarrow> (unit, 'w) async) \<Rightarrow> jsstring \<Rightarrow> (unit, 'w) async" where
  "delete_by call fid \<equiv> call (send_id fid)"

abbreviation move_by :: "(jsval \<Rightarrow> (unit, 'w) async) \<Rightarrow> jsstring \<Rightarrow> jsstring \<Rightarrow> (unit, 'w) async" where
  "move_by call fid dest \<equiv> call (send_MoveFileInput \<lparr>mfi_id = fid, mfi_destinationKey = dest\<rparr>)"

text \<open>
  What a mutation of the table is to do: the files service is asked to delete the file, or to move it to
  the destination; on success the dialog is closed and the caches are invalidated, on failure the
  dialog stays and shows the error, as it came over the wire.
\<close>

definition deletes_file ::
  "'w clients \<Rightarrow> (js_error \<Rightarrow> js_error) \<Rightarrow> query_key list \<Rightarrow> FileInfo \<Rightarrow> 'w table_state \<Rightarrow> 'w table_state \<Rightarrow> bool" where
  "deletes_file c wire keys f s s' \<longleftrightarrow>
     (case fc_deleteFile (getFilesClient c) \<lparr>df_req_id = fi_id f\<rparr> (tb_world s) of
        (Inl e, w') \<Rightarrow> tb_world s' = w' \<and> tb_deleteError s' = Some (wire e)
          \<and> tb_fileToDelete s' = tb_fileToDelete s \<and> tb_invalidated s' = tb_invalidated s
      | (Inr _, w') \<Rightarrow> tb_world s' = w' \<and> tb_deleteError s' = None
          \<and> tb_fileToDelete s' = None \<and> tb_invalidated s' = tb_invalidated s @ keys)"

definition moves_file ::
  "'w clients \<Rightarrow> (js_error \<Rightarrow> jsstring) \<Rightarrow> FileInfo \<Rightarrow> jsstring \<Rightarrow> 'w table_state \<Rightarrow> 'w table_state \<Rightarrow> bool" where
  "moves_file c shown f dest s s' \<longleftrightarrow>
     (case fc_moveFile (getFilesClient c) \<lparr>mf_req_id = fi_id f, mf_req_destinationKey = dest\<rparr> (tb_world s) of
        (Inl e, w') \<Rightarrow> tb_world s' = w' \<and> tb_moveError s' = Some (shown e)
          \<and> tb_fileToMove s' = tb_fileToMove s \<and> tb_invalidated s' = tb_invalidated s
      | (Inr _, w') \<Rightarrow> tb_world s' = w' \<and> tb_moveError s' = None
          \<and> tb_fileToMove s' = None \<and> tb_invalidated s' = tb_invalidated s @ moved_keys)"

lemma settle_deletes:
  assumes "served wire (deleteFile c) call" and "0 \<le> fi_id f" and "tb_deleting s = Some (bigint_toString (fi_id f))"
  shows "deletes_file c wire keys f s (settle_delete (delete_by call) keys s)"
proof -
  have "call (send_id (bigint_toString (fi_id f))) (tb_world s) =
      wired wire (deleteFileImpl (getFilesClient c) (bigint_toString (fi_id f)) (tb_world s))"
    using delete_file_fn.sent_served [OF assms(1) numeric_toString [OF assms(2)]] by (simp add: deleteFile_def)
  then show ?thesis
    using assms(3)
    by (auto simp: deletes_file_def settle_delete_def run_delete_def deleteFileImpl_def BigInt_toString
        wired_def async_simps split: prod.splits sum.splits)
qed

lemma settle_moves:
  assumes "served wire (moveFile c) call" and "0 \<le> fi_id f" and "dest \<noteq> []"
    and "tb_moving s = Some (bigint_toString (fi_id f), dest)"
  shows "moves_file c (move_error_text \<circ> cf \<circ> wire) f dest s (settle_move cf (move_by call) s)"
proof -
  have "wf_MoveFileInput \<lparr>mfi_id = bigint_toString (fi_id f), mfi_destinationKey = dest\<rparr>"
    using numeric_toString [OF assms(2)] assms(3) by (simp add: wf_MoveFileInput_def)
  from move_fn.sent_served [OF assms(1) this]
  have "move_by call (bigint_toString (fi_id f)) dest (tb_world s) =
      wired wire (moveFileImpl (getFilesClient c) (bigint_toString (fi_id f)) dest (tb_world s))"
    by (simp add: moveFile_def)
  then show ?thesis
    using assms(4)
    by (auto simp: moves_file_def settle_move_def run_move_def moveFileImpl_def BigInt_toString
        wired_def async_simps split: prod.splits sum.splits)
qed

text \<open>Confirming starts the request and changes nothing it is measured by.\<close>

lemma confirm_frame:
  "deletes_file c wire keys f (confirm_delete s) s' = deletes_file c wire keys f s s'"
  "moves_file c shown f dest (confirm_move p s) s' = moves_file c shown f dest s s'"
  by (auto simp: deletes_file_def moves_file_def confirm_delete_def confirm_move_def
      split: option.splits sum.splits)

lemma click_confirm_delete:
  "tb_deleting s = None \<Longrightarrow> tb_deleting (confirm_delete (click_delete displayKey d s)) = Some (fd_id d)"
  by (simp add: confirm_delete_def click_delete_def closeMenus_def)

lemma click_confirm_move:
  assumes "tb_moving s = None" and "dialog_reach (fd_key d) v"
  shows "tb_moving (confirm_move (mv_viewPath v) (click_move d s)) =
    Some (fd_id d, mv_viewPath v @ base_part (fd_key d))"
proof -
  have "confirmed_key (fd_key d) (mv_viewPath v) = mv_viewPath v @ base_part (fd_key d)"
    using reachable_destination [OF assms(2)] by (simp add: destinationKey_def fileName_def base_part_def)
  then show ?thesis using assms(1) by (simp add: confirm_move_def click_move_def closeMenus_def)
qed

text \<open>
  C6. What a user deletes or moves in a directory's table is what the service is asked to, on a page the
  server listed, after any clicks and answers in any order. The rows are the listed files, one by one.
  Clicking Delete in a row and confirming, with no delete in flight, asks the files service to delete
  that row's file by its own id, once; confirming a folder of the move dialog asks it to move that row's
  file to its own name in this folder. The confirmation of an open dialog is for a listed file with the
  key the dialog shows. And a request in flight, whatever was clicked since, settles as the service's
  action on a listed file, a move to another directory under the file's own name; with none in flight
  nothing settles. Each shows the service's error or closes the dialog and invalidates the caches. Ids
  come from a database sequence, so they are not negative; a key that ends in a slash has an empty name,
  and moving it to the root is refused.
\<close>

theorem table_requests_reach_service:
  assumes "served wire (deleteFile c) callD" and "served wire (moveFile c) callM"
    and "sc_listDirectory search (list_directory_request input) w0 = (Inr res, w)"
    and "listDirectoryImpl td search files input w0 = (Inr page, w1)"
    and "\<forall>f \<in> set (ld_res_files res). 0 \<le> fi_id f"
    and "table_reach displayKey (set (ldr_files page)) s"
  shows "list_all2 (\<lambda>d f.
        (tb_deleting s = None \<longrightarrow> deletes_file c wire keys f (click_delete displayKey d s)
          (settle_delete (delete_by callD) keys (confirm_delete (click_delete displayKey d s))))
        \<and> (\<forall>v. tb_moving s = None \<and> dialog_reach (fi_key f) v \<and> mv_viewPath v @ base_part (fi_key f) \<noteq> []
            \<longrightarrow> moves_file c (move_error_text \<circ> cf \<circ> wire) f (mv_viewPath v @ base_part (fi_key f)) (click_move d s)
              (settle_move cf (move_by callM) (confirm_move (mv_viewPath v) (click_move d s)))))
      (ldr_files page) (ld_res_files res)
    \<and> (\<forall>r. tb_fileToDelete s = Some r \<and> tb_deleting s = None \<longrightarrow>
        (\<exists>f \<in> set (ld_res_files res). rr_key r = displayKey (fi_key f)
          \<and> deletes_file c wire keys f s (settle_delete (delete_by callD) keys (confirm_delete s))))
    \<and> (case tb_deleting s of None \<Rightarrow> settle_delete (delete_by callD) keys s = s
        | Some fid \<Rightarrow> \<exists>f \<in> set (ld_res_files res). fid = bigint_toString (fi_id f)
            \<and> deletes_file c wire keys f s (settle_delete (delete_by callD) keys s))
    \<and> (case tb_moving s of None \<Rightarrow> settle_move cf (move_by callM) s = s
        | Some (fid, dest) \<Rightarrow> \<exists>f \<in> set (ld_res_files res). fid = bigint_toString (fi_id f)
            \<and> dest \<noteq> fi_key f \<and> base_part dest = base_part (fi_key f)
            \<and> (dest \<noteq> [] \<longrightarrow>
                moves_file c (move_error_text \<circ> cf \<circ> wire) f dest s (settle_move cf (move_by callM) s)))"
proof (intro conjI)
  note inv = table_invariant [OF assms(6)] and rows = listed_rows [OF assms(4,3)]
  have listed: "\<exists>f \<in> set (ld_res_files res). fd_id d = bigint_toString (fi_id f) \<and> fd_key d = fi_key f \<and> 0 \<le> fi_id f"
    if "d \<in> set (ldr_files page)" for d
    using listed_row [OF rows that] assms(5) by blast
  have "deletes_file c wire keys f (click_delete displayKey d s)
      (settle_delete (delete_by callD) keys (confirm_delete (click_delete displayKey d s)))"
    if "tb_deleting s = None" "0 \<le> fi_id f" "fd_id d = bigint_toString (fi_id f)" for d f
    using settle_deletes [OF assms(1) that(2) click_confirm_delete [OF that(1), of displayKey d, unfolded that(3)]]
    by (simp add: confirm_frame)
  moreover have "moves_file c (move_error_text \<circ> cf \<circ> wire) f (mv_viewPath v @ base_part (fi_key f)) (click_move d s)
      (settle_move cf (move_by callM) (confirm_move (mv_viewPath v) (click_move d s)))"
    if "tb_moving s = None" "0 \<le> fi_id f" "fd_id d = bigint_toString (fi_id f)" "fd_key d = fi_key f"
      "dialog_reach (fi_key f) v" "mv_viewPath v @ base_part (fi_key f) \<noteq> []" for d f v
    using settle_moves [OF assms(2) that(2,6), of "confirm_move (mv_viewPath v) (click_move d s)" cf]
      click_confirm_move [OF that(1), of d v] that(3-5)
    by (simp add: confirm_frame)
  ultimately show "list_all2 (\<lambda>d f.
        (tb_deleting s = None \<longrightarrow> deletes_file c wire keys f (click_delete displayKey d s)
          (settle_delete (delete_by callD) keys (confirm_delete (click_delete displayKey d s))))
        \<and> (\<forall>v. tb_moving s = None \<and> dialog_reach (fi_key f) v \<and> mv_viewPath v @ base_part (fi_key f) \<noteq> []
            \<longrightarrow> moves_file c (move_error_text \<circ> cf \<circ> wire) f (mv_viewPath v @ base_part (fi_key f)) (click_move d s)
              (settle_move cf (move_by callM) (confirm_move (mv_viewPath v) (click_move d s)))))
      (ldr_files page) (ld_res_files res)"
    using rows assms(5) by (auto simp: list_all2_conv_all_nth)
  show "\<forall>r. tb_fileToDelete s = Some r \<and> tb_deleting s = None \<longrightarrow>
      (\<exists>f \<in> set (ld_res_files res). rr_key r = displayKey (fi_key f)
        \<and> deletes_file c wire keys f s (settle_delete (delete_by callD) keys (confirm_delete s)))"
  proof (intro allI impI)
    fix r assume r: "tb_fileToDelete s = Some r \<and> tb_deleting s = None"
    then obtain d where "d \<in> set (ldr_files page)" and rd: "r = \<lparr>rr_id = fd_id d, rr_key = displayKey (fd_key d)\<rparr>"
      using inv by (auto simp: table_inv_def)
    with listed obtain f where f: "f \<in> set (ld_res_files res)" "fd_id d = bigint_toString (fi_id f)"
      "fd_key d = fi_key f" "0 \<le> fi_id f" by blast
    have "tb_deleting (confirm_delete s) = Some (bigint_toString (fi_id f))"
      using r rd f by (simp add: confirm_delete_def)
    from settle_deletes [OF assms(1) f(4) this, of keys] f r rd
    show "\<exists>f \<in> set (ld_res_files res). rr_key r = displayKey (fi_key f)
        \<and> deletes_file c wire keys f s (settle_delete (delete_by callD) keys (confirm_delete s))"
      by (intro bexI [of _ f]) (simp_all add: confirm_frame)
  qed
  show "case tb_deleting s of None \<Rightarrow> settle_delete (delete_by callD) keys s = s
      | Some fid \<Rightarrow> \<exists>f \<in> set (ld_res_files res). fid = bigint_toString (fi_id f)
          \<and> deletes_file c wire keys f s (settle_delete (delete_by callD) keys s)"
    using inv listed settle_deletes [OF assms(1)]
    by (fastforce simp: table_inv_def settle_delete_def split: option.splits)
  show "case tb_moving s of None \<Rightarrow> settle_move cf (move_by callM) s = s
      | Some (fid, dest) \<Rightarrow> \<exists>f \<in> set (ld_res_files res). fid = bigint_toString (fi_id f)
          \<and> dest \<noteq> fi_key f \<and> base_part dest = base_part (fi_key f)
          \<and> (dest \<noteq> [] \<longrightarrow>
              moves_file c (move_error_text \<circ> cf \<circ> wire) f dest s (settle_move cf (move_by callM) s))"
  proof (cases "tb_moving s")
    case (Some p)
    obtain fid dest where p: "p = (fid, dest)" by force
    with Some inv obtain d where "d \<in> set (ldr_files page)" and d: "fid = fd_id d" "dest \<noteq> fd_key d"
      "base_part dest = base_part (fd_key d)" by (auto simp: table_inv_def move_of_row_def)
    with listed obtain f where "f \<in> set (ld_res_files res)" "fd_id d = bigint_toString (fi_id f)"
      "fd_key d = fi_key f" "0 \<le> fi_id f" by blast
    with Some p d settle_moves [OF assms(2) \<open>0 \<le> fi_id f\<close>, of dest s cf] show ?thesis by auto
  qed (simp add: settle_move_def)
qed

text \<open>Services that list one file, and log the ids they are asked to delete.\<close>

definition one_file_clients :: "int list clients" where
  "one_file_clients =
     \<lparr>getSearchClient = down_search_client
        \<lparr>sc_listDirectory := (\<lambda>req w. (Inr \<lparr>ld_res_directories = [], ld_res_files = [sample_file 7],
           ld_res_nextPageToken = []\<rparr>, w))\<rparr>,
      getFilesClient = down_files_client
        \<lparr>fc_deleteFile := (\<lambda>req w. (Inr DeleteFileResponse, df_req_id req # w))\<rparr>\<rparr>"

theorem table_requests_reach_service_witness:
  "\<exists>page d. listDirectoryImpl epoch (getSearchClient one_file_clients) (getFilesClient one_file_clients)
      (child_request [] None) [] = (Inr page, []) \<and> ldr_files page = [d]
    \<and> tb_world (settle_delete (delete_by (local_call (deleteFile one_file_clients))) []
        (confirm_delete (click_delete id d (toggleFileMenu (fd_id d) (initial_table []))))) = [7]"
proof -
  let ?c = one_file_clients and ?in = "child_request [] None"
  obtain d where d: "toFileDto epoch (sample_file 7) = Inr d"
    using sample_file_timestamps [of 7] toFileDto_Inr_iff [of epoch "sample_file 7"] by blast
  let ?res = "\<lparr>ld_res_directories = [], ld_res_files = [sample_file 7], ld_res_nextPageToken = []\<rparr>"
  let ?page = "\<lparr>ldr_directories = [], ldr_files = [d], ldr_nextPageToken = []\<rparr>"
  let ?s = "toggleFileMenu (fd_id d) (initial_table ([] :: int list))"
  have list: "sc_listDirectory (getSearchClient ?c) (list_directory_request ?in) [] = (Inr ?res, [])"
    by (simp add: one_file_clients_def)
  have page: "listDirectoryImpl epoch (getSearchClient ?c) (getFilesClient ?c) ?in [] = (Inr ?page, [])"
    by (rule listDirectoryImpl_run [OF list, simplified])
      (simp_all add: d resolve_previews_run preview_ids_def one_file_clients_def down_files_client_def throw_def
        split: if_splits)
  have reach: "table_reach id (set (ldr_files ?page)) ?s"
    by (rule table_reach.file_menu [OF table_reach.initial]) simp
  note served = local_call_served [of "deleteFile ?c"] local_call_served [of "moveFile ?c"]
  from table_requests_reach_service [OF served list page _ reach, of "[]"]
  have "tb_world (settle_delete (delete_by (local_call (deleteFile ?c))) [] (confirm_delete (click_delete id d ?s))) = [7]"
    by (simp add: one_file_clients_def sample_file_def table_handlers deletes_file_def)
  with page show ?thesis by (intro exI [of _ ?page] exI [of _ d]) simp
qed

text \<open>
  C12. A folder is deleted in two steps, and it is a folder the search service listed: in every reachable
  state of a directory's page, however answers and clicks interleave, settling a deletion changes
  nothing, or it does what the files service does when asked to delete one of the listed directories,
  which was selected, whose contents had been asked for and answered, or failed to, and which is not
  the root.
\<close>

theorem folder_deletion_reaches_service:
  assumes "served wire (deleteDirectory c) call"
    and "sc_listDirectory search (list_directory_request input) w0 = (Inr res, w)"
    and "listDirectoryImpl td search files input w0 = (Inr page, w1)"
    and "folder_reach (set (ldr_directories page)) s"
  shows "fs_world (settle_folder (call \<circ> send_path) s) = fs_world s
    \<or> (\<exists>p \<in> set (ld_res_directories res). p \<noteq> [] \<and> fs_deleting s = Some p \<and> stats_of p s \<noteq> Stats_pending
        \<and> fs_world (settle_folder (call \<circ> send_path) s) =
            snd (fc_deleteDirectory (getFilesClient c) \<lparr>dd_req_path = p\<rparr> (fs_world s)))"
proof (cases "fs_deleting s")
  case (Some p)
  have dirs: "ldr_directories page = ld_res_directories res"
    using assms(2,3) unfolding listDirectoryImpl_def
    by (auto simp: lift_run elim!: await_InrE split: sum.splits)
  obtain r w' where run: "call (send_path p) (fs_world s) = (r, w')" by force
  with Some have w': "fs_world (settle_folder (call \<circ> send_path) s) = w'"
    by (simp add: settle_folder_def split: sum.splits)
  have p: "p \<in> set (ld_res_directories res)" "stats_of p s \<noteq> Stats_pending"
    using folder_reach_inv [OF assms(4)] Some by (auto simp: folder_inv_def dirs stats_of_def split: sum.splits)
  show ?thesis
  proof (cases "w' = fs_world s")
    case False
    then obtain d r' where "d \<noteq> []" and "sf_handler (deleteDirectory c) d (fs_world s) = (r', w')"
      and "sf_validator (deleteDirectory c) (send_path p) = Inr d"
      by (rule delete_directory_fn.effect_validated [OF assms(1) run])
    then have "p \<noteq> []" and "w' = snd (deleteDirectoryImpl (getFilesClient c) p (fs_world s))"
      using delete_directory_exact.sent_same [of c p d] by (auto simp: deleteDirectory_def)
    with p w' Some show ?thesis by (auto simp: deleteDirectoryImpl_effect)
  qed (simp add: w')
qed (simp add: settle_folder_def)

theorem folder_deletion_reaches_service_witness:
  "\<exists>s. fs_deleting s = Some (js ''a/'') \<and> fs_world (settle_folder (local_call (deleteDirectory logging_clients) \<circ> send_path) s)
      \<in> {[], [js ''a/'']}"
proof -
  let ?search = "down_search_client \<lparr>sc_listDirectory := (\<lambda>req w. (Inr \<lparr>ld_res_directories = [js ''a/''],
      ld_res_files = [], ld_res_nextPageToken = []\<rparr>, w))\<rparr> :: jsstring list SearchClient"
  let ?res = "\<lparr>ld_res_directories = [js ''a/''], ld_res_files = [], ld_res_nextPageToken = []\<rparr>"
  let ?page = "\<lparr>ldr_directories = [js ''a/''], ldr_files = [], ldr_nextPageToken = []\<rparr>"
  let ?s = "confirm_folder (fetch_stats (\<lambda>p w. (Inl unavailable, w))
      (setFolderToDelete (Some (js ''a/'')) (initial_folder ([] :: jsstring list))))"
  have list: "sc_listDirectory ?search (list_directory_request (child_request [] None)) [] = (Inr ?res, [])"
    by simp
  have page: "listDirectoryImpl epoch ?search down_files_client (child_request [] None) [] = (Inr ?page, [])"
    by (rule listDirectoryImpl_run [OF list, simplified])
      (simp_all add: resolve_previews_run preview_ids_def down_files_client_def throw_def)
  have reach: "folder_reach (set (ldr_directories ?page)) ?s"
    by (intro folder_reach.intros) simp
  have "fs_deleting ?s = Some (js ''a/'')" "fs_world ?s = []"
    by (simp_all add: confirm_folder_def fetch_stats_def setFolderToDelete_def initial_folder_def
        folder_dialog_def DeleteFolderConfirmation_def stats_of_def)
  with folder_deletion_reaches_service [OF local_call_served [of "deleteDirectory logging_clients"] list page reach]
  show ?thesis by (intro exI [of _ ?s]) (auto simp: logging_clients_def)
qed

section \<open>The page of a file\<close>

text \<open>Metadata that was loaded for an id is of the file the service has under its number.\<close>

lemma metadata_of_file:
  assumes "served wire (getFileMetadata td c) call" and "call (send_id fid) w = (Inr m, w')"
  shows "\<exists>n f. BigInt fid = Inr n \<and> fst (fc_getFileInfo (getFilesClient c) \<lparr>gfi_req_id = n\<rparr> w) = Inr \<lparr>gfi_res_file = Some f\<rparr>
    \<and> md_key m = fi_key f"
proof -
  have "getFileMetadataImpl td (getFilesClient c) fid w = (Inr m, w')"
    by (cases rule: metadata_exact.sent_run [OF assms]) (simp_all add: getFileMetadata_def)
  then show ?thesis
    unfolding getFileMetadataImpl_def
    by (auto simp: lift_run toFileMetadataDto_def and_then_Inr_iff elim!: await_InrE split: option.splits)
      (metis GetFileInfoResponse.surjective unit.exhaust)+
qed

text \<open>
  C18. The page of a file acts on the file it shows: in every state of the page of an id, whatever is
  clicked and answered in any order, settling a delete changes nothing, or it does what the files
  service does when asked to delete the file with the number of that id, the one whose metadata the
  page loads; settling a move likewise, to a key of another directory with the name that file has.
\<close>

theorem page_acts_on_shown_file:
  assumes "served wire (deleteFile c) callD" and "served wire' (moveFile c) callM"
    and "served wire'' (getFileMetadata td c) callG"
    and "\<And>key. key \<in> keys \<Longrightarrow> \<exists>w m w'. callG (send_id fid) w = (Inr m, w') \<and> md_key m = key"
    and "page_reach fid keys s"
  shows "(fp_world (page_settle_delete (delete_by callD) fid file s) = fp_world s
      \<or> (\<exists>n. BigInt fid = Inr n \<and> fp_world (page_settle_delete (delete_by callD) fid file s) =
            snd (fc_deleteFile (getFilesClient c) \<lparr>df_req_id = n\<rparr> (fp_world s))))
    \<and> (fp_world (page_settle_move cf (move_by callM) fid s) = fp_world s
      \<or> (\<exists>n f w dest. BigInt fid = Inr n
          \<and> fst (fc_getFileInfo (getFilesClient c) \<lparr>gfi_req_id = n\<rparr> w) = Inr \<lparr>gfi_res_file = Some f\<rparr>
          \<and> dest \<noteq> fi_key f \<and> base_part dest = base_part (fi_key f)
          \<and> fp_world (page_settle_move cf (move_by callM) fid s) =
              snd (fc_moveFile (getFilesClient c) \<lparr>mf_req_id = n, mf_req_destinationKey = dest\<rparr> (fp_world s))))"
proof
  have "snd (delete_by callD fid w) = w
      \<or> (\<exists>n. BigInt fid = Inr n \<and> snd (delete_by callD fid w) = snd (fc_deleteFile (getFilesClient c) \<lparr>df_req_id = n\<rparr> w))"
    for w
  proof (cases "BigInt fid")
    case (Inl e)
    then show ?thesis
      using delete_file_exact.sent_effect [OF assms(1), of fid w]
      by (auto simp: deleteFile_def deleteFileImpl_def await_def lift_def throw_def)
  qed (use delete_file_effect [OF assms(1)] in fastforce)
  then show "fp_world (page_settle_delete (delete_by callD) fid file s) = fp_world s
      \<or> (\<exists>n. BigInt fid = Inr n \<and> fp_world (page_settle_delete (delete_by callD) fid file s) =
            snd (fc_deleteFile (getFilesClient c) \<lparr>df_req_id = n\<rparr> (fp_world s)))"
    by (auto simp: page_settle_delete_def split: prod.splits sum.splits) (metis snd_conv)+
next
  show "fp_world (page_settle_move cf (move_by callM) fid s) = fp_world s
      \<or> (\<exists>n f w dest. BigInt fid = Inr n
          \<and> fst (fc_getFileInfo (getFilesClient c) \<lparr>gfi_req_id = n\<rparr> w) = Inr \<lparr>gfi_res_file = Some f\<rparr>
          \<and> dest \<noteq> fi_key f \<and> base_part dest = base_part (fi_key f)
          \<and> fp_world (page_settle_move cf (move_by callM) fid s) =
              snd (fc_moveFile (getFilesClient c) \<lparr>mf_req_id = n, mf_req_destinationKey = dest\<rparr> (fp_world s)))"
  proof (cases "fp_moving s")
    case (Some dest)
    then obtain key where key: "key \<in> keys" "dest \<noteq> key" "base_part dest = base_part key"
      using page_moving_target [OF assms(5)] by (auto simp: move_target_def)
    then obtain w m w' where "callG (send_id fid) w = (Inr m, w')" "md_key m = key"
      using assms(4) by blast
    then obtain n f where f: "BigInt fid = Inr n"
      "fst (fc_getFileInfo (getFilesClient c) \<lparr>gfi_req_id = n\<rparr> w) = Inr \<lparr>gfi_res_file = Some f\<rparr>" "key = fi_key f"
      using metadata_of_file [OF assms(3)] by metis
    have "fp_world (page_settle_move cf (move_by callM) fid s) = snd (move_by callM fid dest (fp_world s))"
      using Some by (simp add: page_settle_move_def split: prod.splits sum.splits)
    with move_file_effect [OF assms(2) f(1), of dest "fp_world s"] f key show ?thesis by auto
  qed (simp add: page_settle_move_def)
qed

text \<open>Services that know one file, and log the ids they are asked to delete.\<close>

definition known_file_clients :: "int list clients" where
  "known_file_clients = one_file_clients
     \<lparr>getFilesClient := (getFilesClient one_file_clients)
        \<lparr>fc_getFileInfo := (\<lambda>req w. (Inr \<lparr>gfi_res_file = Some (sample_file 7)\<rparr>, w))\<rparr>\<rparr>"

lemma known_file_metadata:
  "\<exists>m. local_call (getFileMetadata epoch known_file_clients) (send_id (js ''7'')) w = (Inr m, w)
    \<and> md_key m = fi_key (sample_file 7)"
proof -
  let ?c = known_file_clients
  have "BigInt (js ''7'') = Inr 7" and "is_numeric (js ''7'')" by code_simp+
  moreover have "fc_getFileInfo (getFilesClient ?c) q = (\<lambda>w. (Inr \<lparr>gfi_res_file = Some (sample_file 7)\<rparr>, w))" for q
    by (simp add: known_file_clients_def)
  ultimately have "local_call (getFileMetadata epoch ?c) (send_id (js ''7'')) w = wired id (toFileMetadataDto epoch (sample_file 7), w)"
    using metadata_fn.sent_served [OF local_call_served [of "getFileMetadata epoch ?c"], of "js ''7''" w]
    by (simp add: getFileMetadata_def getFileMetadataImpl_def async_simps)
  then show ?thesis
    by (simp add: toFileMetadataDto_def sample_file_def epoch_def wired_def split: prod.splits)
qed

theorem page_acts_on_shown_file_witness:
  "fp_world (page_settle_delete (delete_by (local_call (deleteFile known_file_clients))) (js ''7'') None
      (page_confirm_delete (ask_delete (initial_page [])))) \<in> {[], [7]}"
proof -
  let ?c = known_file_clients and ?s = "page_confirm_delete (ask_delete (initial_page ([] :: int list)))"
  have reach: "page_reach (js ''7'') {fi_key (sample_file 7)} ?s"
    by (intro page_reach.confirm_delete page_reach.ask_delete page_reach.initial)
  have shown: "\<exists>w m w'. local_call (getFileMetadata epoch ?c) (send_id (js ''7'')) w = (Inr m, w') \<and> md_key m = key"
    if "key \<in> {fi_key (sample_file 7)}" for key
    using that known_file_metadata [of "[]"] by blast
  have seven: "BigInt (js ''7'') = Inr 7" by code_simp
  show ?thesis
    using page_acts_on_shown_file [OF local_call_served [of "deleteFile ?c"] local_call_served [of "moveFile ?c"]
        local_call_served [of "getFileMetadata epoch ?c"] shown reach, of None]
    by (auto simp: seven known_file_clients_def one_file_clients_def initial_page_def ask_delete_def page_confirm_delete_def)
qed

section \<open>Preview statuses\<close>

text \<open>The numeric ids of the files shown whose preview is not settled, in the order shown.\<close>

definition unsettled_ids :: "FileDto list \<Rightarrow> FileInfo list \<Rightarrow> int list" where
  "unsettled_ids ds infos =
     map (fi_id \<circ> snd) (filter (\<lambda>(d, f). unsettled (fd_previewStatus d)) (zip ds infos))"

definition status_answer :: "GetFilePreviewStatusesResponse \<Rightarrow> int \<rightharpoonup> PreviewStatus" where
  "status_answer res = js_Map (map (\<lambda>s. (fps_id s, fps_previewStatus s)) (gfps_res_statuses res))"

lemma filter_zip_map:
  "length xs = length ys \<Longrightarrow> map fst (filter (\<lambda>(x, y). P x) (zip xs ys)) = filter P xs"
  by (induction xs ys rule: list_induct2) auto

lemma pending_numeric:
  assumes "map fd_id ds = map (bigint_toString \<circ> fi_id) infos" and "concat (map pg_files ps) = ds"
  shows "pendingIds (Some ps) = map bigint_toString (unsettled_ids ds infos)"
proof -
  have len: "length ds = length infos" using assms(1) by (metis length_map)
  have "fd_id (fst x) = bigint_toString (fi_id (snd x))" if "x \<in> set (zip ds infos)" for x
    using that assms(1) len by (auto simp: in_set_zip) (metis comp_apply nth_map)
  then have "map (fd_id \<circ> fst) (filter (\<lambda>(d, f). unsettled (fd_previewStatus d)) (zip ds infos)) =
      map (bigint_toString \<circ> fi_id \<circ> snd) (filter (\<lambda>(d, f). unsettled (fd_previewStatus d)) (zip ds infos))"
    by (intro map_cong) auto
  then show ?thesis
    using filter_zip_map [OF len, of "\<lambda>d. unsettled (fd_previewStatus d)"]
    by (simp add: pendingIds_files assms(2) unsettled_ids_def comp_assoc flip: map_map)
qed

lemma status_of_patch:
  assumes "byId (map (\<lambda>s. \<lparr>psd_id = bigint_toString (fps_id s), psd_previewStatus = fps_previewStatus s,
      psd_previewUrl = url s\<rparr>) (gfps_res_statuses res)) = m"
    and "fd_id d = bigint_toString n"
  shows "fd_previewStatus (patch_file m d) = (case status_answer res n of None \<Rightarrow> fd_previewStatus d | Some st \<Rightarrow> st)"
proof -
  have "m (fd_id d) = js_Map (map (\<lambda>s. (fps_id s, (fps_previewStatus s, url s))) (gfps_res_statuses res)) n"
    using assms bigint_id.lookup_by_text [of fps_id "\<lambda>s. (fps_previewStatus s, url s)"]
    by (simp add: byId_def comp_def flip: assms(1))
  moreover have "status_answer res n =
      map_option fst (js_Map (map (\<lambda>s. (fps_id s, (fps_previewStatus s, url s))) (gfps_res_statuses res)) n)"
    by (simp add: status_answer_def js_Map_map_value)
  ultimately show ?thesis by (auto simp: patch_file_def split: option.splits)
qed

lemma all_settled_silent:
  assumes "map fd_previewStatus (concat (map pg_files ps)) = sts" and "\<forall>st \<in> set sts. \<not> unsettled st"
  shows "pendingIds (Some ps) = []"
  using assms by (auto simp: pendingIds_files filter_empty_conv)

text \<open>A status the service gives is in its answer, and every file it answers for has one.\<close>

lemma status_answer_settled:
  assumes "\<forall>s \<in> set (gfps_res_statuses res). \<not> unsettled (fps_previewStatus s)"
    and "unsettled st \<Longrightarrow> n \<in> fps_id ` set (gfps_res_statuses res)"
  shows "\<not> unsettled (case status_answer res n of None \<Rightarrow> st | Some st' \<Rightarrow> st')"
proof (cases "status_answer res n")
  case None
  then have "n \<notin> fps_id ` set (gfps_res_statuses res)"
    by (simp add: status_answer_def js_Map_None_iff image_image)
  with None assms(2) show ?thesis by auto
next
  case (Some st')
  then show ?thesis using assms(1) by (auto simp: status_answer_def dest!: js_Map_SomeD)
qed

lemma unsettled_ids_zip:
  "(d, f) \<in> set (zip ds infos) \<Longrightarrow> unsettled (fd_previewStatus d) \<Longrightarrow> fi_id f \<in> set (unsettled_ids ds infos)"
  by (force simp: unsettled_ids_def)

lemma answered_settled:
  assumes "set (unsettled_ids ds infos) \<subseteq> fps_id ` set (gfps_res_statuses res)"
    and "\<forall>s \<in> set (gfps_res_statuses res). \<not> unsettled (fps_previewStatus s)"
  shows "\<forall>st \<in> set (map (\<lambda>(d, f). case status_answer res (fi_id f) of None \<Rightarrow> fd_previewStatus d | Some st \<Rightarrow> st)
    (zip ds infos)). \<not> unsettled st"
proof -
  have "\<not> unsettled (case status_answer res (fi_id f) of None \<Rightarrow> fd_previewStatus d | Some st \<Rightarrow> st)"
    if "(d, f) \<in> set (zip ds infos)" for d f
    using status_answer_settled [OF assms(2)] unsettled_ids_zip [OF that] assms(1) by blast
  then show ?thesis by auto
qed

text \<open>
  C35. Preview statuses follow the service: for rows that show the files \<open>infos\<close> by their ids, a tick
  of the poller asks the files service for exactly the unsettled ones, as numbers, in the order
  shown; if it answers, then afterwards every row of that list shows the status the service gave for
  its file, and the others are as they were. If it answers for all of them and has settled them, the
  poller falls silent: nothing is left to ask for.
\<close>

theorem poll_follows_service:
  assumes "served wire (getFilePreviewStatuses c) call"
    and "concat (map pg_files ps) = ds" and "map fd_id ds = map (bigint_toString \<circ> fi_id) infos"
    and "unsettled_ids ds infos \<noteq> []" and "ps_cache s key = Some ps"
    and "fc_getFilePreviewStatuses (getFilesClient c) \<lparr>gfps_req_ids = unsettled_ids ds infos\<rparr> (ps_world s) = (Inr res, w')"
  shows "\<exists>s' ps'. poll_tick (call \<circ> send_ids) (Some ps) key s = (Inr (), s') \<and> ps_world s' = w'
    \<and> ps_cache s' key = Some ps'
    \<and> map fd_previewStatus (concat (map pg_files ps')) =
        map (\<lambda>(d, f). case status_answer res (fi_id f) of None \<Rightarrow> fd_previewStatus d | Some st \<Rightarrow> st) (zip ds infos)
    \<and> (set (unsettled_ids ds infos) \<subseteq> fps_id ` set (gfps_res_statuses res)
        \<and> (\<forall>st \<in> set (gfps_res_statuses res). \<not> unsettled (fps_previewStatus st)) \<longrightarrow> pendingIds (Some ps') = [])"
proof -
  let ?ids = "map bigint_toString (unsettled_ids ds infos)"
  let ?dtos = "map (\<lambda>s. \<lparr>psd_id = bigint_toString (fps_id s), psd_previewStatus = fps_previewStatus s,
      psd_previewUrl = (if fps_previewUrl s = [] then None else Some (fps_previewUrl s))\<rparr>) (gfps_res_statuses res)"
  have len: "length ds = length infos" using assms(3) by (metis length_map)
  have "traverse BigInt ?ids = Inr (unsettled_ids ds infos)"
    by (simp add: traverse_Inr_iff list_all2_map1 BigInt_toString list_all2_same)
  then have "getFilePreviewStatusesImpl (getFilesClient c) ?ids (ps_world s) = (Inr ?dtos, w')"
    using assms(6) by (simp add: getFilePreviewStatusesImpl_def async_simps)
  then have "call (send_ids ?ids) (ps_world s) = (Inr ?dtos, w')"
    using statuses_fn.sent_served [OF assms(1), of ?ids "ps_world s"]
    by (simp add: getFilePreviewStatuses_def wired_def)
  then have tick: "poll_tick (call \<circ> send_ids) (Some ps) key s = (Inr (), s\<lparr>ps_world := w',
      ps_cache := setQueryData key (patch_pages (byId ?dtos)) (ps_cache s)\<rparr>)"
    using assms(4) by (simp add: poll_tick_def pending_numeric [OF assms(3,2)])
  have "fd_previewStatus (patch_file (byId ?dtos) (ds ! i)) =
      (case status_answer res (fi_id (infos ! i)) of None \<Rightarrow> fd_previewStatus (ds ! i) | Some st \<Rightarrow> st)"
    if "i < length ds" for i
    using that len assms(3) by (intro status_of_patch [OF refl]) (metis comp_apply nth_map)
  then have "map fd_previewStatus (map (patch_file (byId ?dtos)) ds) =
      map (\<lambda>(d, f). case status_answer res (fi_id f) of None \<Rightarrow> fd_previewStatus d | Some st \<Rightarrow> st) (zip ds infos)"
    using len by (intro nth_equalityI) simp_all
  then have shown: "map fd_previewStatus (concat (map pg_files (patch_pages (byId ?dtos) ps))) =
      map (\<lambda>(d, f). case status_answer res (fi_id f) of None \<Rightarrow> fd_previewStatus d | Some st \<Rightarrow> st) (zip ds infos)"
    using assms(2) by (simp add: patch_pages_files)
  have "pendingIds (Some (patch_pages (byId ?dtos) ps)) = []"
    if "set (unsettled_ids ds infos) \<subseteq> fps_id ` set (gfps_res_statuses res)"
      and "\<forall>st \<in> set (gfps_res_statuses res). \<not> unsettled (fps_previewStatus st)"
    by (rule all_settled_silent [OF shown answered_settled [OF that]])
  with tick shown assms(5) show ?thesis by (simp add: setQueryData_def)
qed

text \<open>A service that finds every preview ready.\<close>

definition ready_clients :: "unit clients" where
  "ready_clients =
     \<lparr>getSearchClient = down_search_client,
      getFilesClient = down_files_client
        \<lparr>fc_getFilePreviewStatuses := (\<lambda>q w. (Inr \<lparr>gfps_res_statuses = map (\<lambda>n. \<lparr>fps_id = n,
           fps_previewStatus = PREVIEW_READY, fps_previewUrl = []\<rparr>) (gfps_req_ids q)\<rparr>, w))\<rparr>\<rparr>"

theorem poll_follows_service_witness:
  "\<exists>s' ps'. poll_tick (local_call (getFilePreviewStatuses ready_clients) \<circ> send_ids) (Some [processing_page]) 0
      processing_state = (Inr (), s') \<and> ps_cache s' 0 = Some ps'
    \<and> map fd_previewStatus (concat (map pg_files ps')) = [PREVIEW_READY] \<and> pendingIds (Some ps') = []"
proof -
  let ?ds = "pg_files processing_page" and ?infos = "[(sample_file 1)]"
  have one: "bigint_toString 1 = js ''1''" by code_simp
  have ids: "map fd_id ?ds = map (bigint_toString \<circ> fi_id) ?infos"
    by (simp add: processing_page_def sample_file_def one)
  have un: "unsettled_ids ?ds ?infos = [1]"
    by (simp add: unsettled_ids_def processing_page_def unsettled_def sample_file_def)
  let ?res = "\<lparr>gfps_res_statuses = [\<lparr>fps_id = 1, fps_previewStatus = PREVIEW_READY, fps_previewUrl = []\<rparr>]\<rparr>"
  have answer: "fc_getFilePreviewStatuses (getFilesClient ready_clients) \<lparr>gfps_req_ids = unsettled_ids ?ds ?infos\<rparr>
      (ps_world processing_state) = (Inr ?res, ())"
    by (simp add: un ready_clients_def processing_state_def)
  have statuses: "map (\<lambda>(d, f). case status_answer ?res (fi_id f) of None \<Rightarrow> fd_previewStatus d | Some st \<Rightarrow> st)
      (zip ?ds ?infos) = [PREVIEW_READY]"
    by (simp add: processing_page_def sample_file_def status_answer_def)
  show ?thesis
    using poll_follows_service [OF local_call_served [of "getFilePreviewStatuses ready_clients"], of "[processing_page]"
        ?ds ?infos processing_state 0 ?res "()"] ids answer
    unfolding statuses by (auto simp: un processing_state_def unsettled_def)
qed

section \<open>Searching\<close>

text \<open>
  C10. A search carries its text through: whenever Enter in the header's box led to a search, the text is
  non-empty and trimmed; the navigation adds a history entry for the search page; the filters that
  page reads back from the URL have that text, no type and the default sorting; every page request of
  its list is accepted by the server function; and the search service is asked for that text.
\<close>

theorem header_search_reaches_service:
  assumes "search_reach s" and "OnSearch q \<in> set (sb_calls s)"
    and "strips_defaults (search_params DEFAULT_SEARCH_FILTERS) strip"
    and "served wire (listFiles td c) call"
  shows "\<exists>f. header_navigation (OnSearch q) = \<lparr>nav_to = Search f, nav_replace = False\<rparr>
    \<and> q \<noteq> [] \<and> trim q = q
    \<and> normalizeSearchFilters (Obj (strip (search_params f))) = f
    \<and> call (send_ListFilesInput (file_list_request f t)) w =
        wired wire (listFilesImpl td (getSearchClient c) (getFilesClient c) (file_list_request f t) w)
    \<and> list_files_request (file_list_request f t) =
        \<lparr>lf_req_pageSize = 50, lf_req_pageToken = t, lf_req_query = q, lf_req_contentType = [],
         lf_req_sortField = SORT_FIELD_KEY, lf_req_sortOrder = SORT_ORDER_ASC\<rparr>"
proof -
  let ?f = "DEFAULT_SEARCH_FILTERS\<lparr>qf_query := q\<rparr>"
  have "q \<noteq> [] \<and> trim q = q"
    using search_reach_inv [OF assms(1)] assms(2) by (force simp: search_inv_def list_all_iff)
  moreover have "normalizeSearchFilters (Obj (strip (search_params ?f))) = ?f"
    by (rule search_url.url_roundtrip [OF assms(3)])
  moreover have "call (send_ListFilesInput (file_list_request ?f t)) w =
      wired wire (listFilesImpl td (getSearchClient c) (getFilesClient c) (file_list_request ?f t) w)"
    using list_files_fn.sent_served [OF assms(4), of "file_list_request ?f t" w]
    by (simp add: listFiles_def file_list_request_def wf_pageSize_def FILE_PAGE_SIZE_def)
  ultimately show ?thesis
    by (intro exI [of _ ?f])
      (simp add: header_navigation_def list_files_request_def file_list_request_def FILE_PAGE_SIZE_def
        or_default_def DEFAULT_SEARCH_FILTERS_def DEFAULT_BROWSE_FILTERS_def)
qed

theorem header_search_reaches_service_witness:
  "\<exists>f. header_navigation (OnSearch (js ''cat'')) = \<lparr>nav_to = Search f, nav_replace = False\<rparr>
    \<and> lf_req_query (list_files_request (file_list_request f [])) = js ''cat''"
proof -
  let ?s = "onKeyDown (js ''Enter'') (onChange (js '' cat '') (mount_search :: FileDto search_bar))"
  have reach: "search_reach ?s" by (intro search_reach.intros)
  have call: "OnSearch (js ''cat'') \<in> set (sb_calls ?s)"
  proof -
    have "trim (js '' cat '') = js ''cat''" by code_simp
    then show ?thesis by (simp add: onKeyDown_def onChange_def set_input_def mount_search_def)
  qed
  show ?thesis
    using header_search_reaches_service [OF reach call drop_defaults_strips
        local_call_served [of "listFiles epoch one_file_clients"], of "[]" "[]"]
    by auto
qed

section \<open>Folders\<close>

text \<open>
  C11. Going to a folder lists that folder: from the breadcrumbs, a row of the table or the prompt for a
  new folder, which keep the sorting, or from the header's search, which resets it, the navigation is
  to the folder, as a new history entry unless it is the one already shown; the filters the browse
  page reads back from the URL are those; every page request of its listing is accepted by the server
  function, and the search service is asked for exactly that path with that sorting.
\<close>

theorem folder_navigation_reaches_service:
  assumes "strips_defaults (browse_params DEFAULT_BROWSE_FILTERS) strip"
    and "served wire (listDirectory td c) call"
    and "home_filters_change filters (handleNavigate filters path) = nav \<or> header_navigation (OnSelectFolder path) = nav"
  shows "\<exists>f. nav_to nav = Browse f
    \<and> (f = filters\<lparr>bf_path := path\<rparr> \<and> nav_replace nav = (path = bf_path filters)
        \<or> f = DEFAULT_BROWSE_FILTERS\<lparr>bf_path := path\<rparr> \<and> \<not> nav_replace nav)
    \<and> normalizeBrowseFilters (Obj (strip (browse_params f))) = f
    \<and> call (send_ListDirectoryInput (directory_list_request (bf_path f) (bf_sort f) (bf_order f) t)) w =
        wired wire (listDirectoryImpl td (getSearchClient c) (getFilesClient c)
          (directory_list_request (bf_path f) (bf_sort f) (bf_order f) t) w)
    \<and> list_directory_request (directory_list_request (bf_path f) (bf_sort f) (bf_order f) t) =
        \<lparr>ld_req_path = path, ld_req_pageSize = 50, ld_req_pageToken = t,
         ld_req_sortField = SORT_FIELD_PB (bf_sort f), ld_req_sortOrder = SORT_ORDER_PB (bf_order f)\<rparr>"
proof -
  obtain f where f: "nav_to nav = Browse f"
    "f = filters\<lparr>bf_path := path\<rparr> \<and> nav_replace nav = (path = bf_path filters)
      \<or> f = DEFAULT_BROWSE_FILTERS\<lparr>bf_path := path\<rparr> \<and> \<not> nav_replace nav"
    using assms(3) by (auto simp: home_filters_change_def handleNavigate_def header_navigation_def)
  let ?r = "directory_list_request (bf_path f) (bf_sort f) (bf_order f) t"
  have "call (send_ListDirectoryInput ?r) w =
      wired wire (listDirectoryImpl td (getSearchClient c) (getFilesClient c) ?r w)"
    using list_directory_fn.sent_served [OF assms(2), of ?r w]
    by (simp add: listDirectory_def directory_list_request_def wf_pageSize_def DIRECTORY_PAGE_SIZE_def)
  with f browse_url.url_roundtrip [OF assms(1), of f] show ?thesis
    by (intro exI [of _ f])
      (auto simp: list_directory_request_def directory_list_request_def DIRECTORY_PAGE_SIZE_def or_default_def)
qed

theorem folder_navigation_reaches_service_witness:
  "\<exists>f. nav_to (header_navigation (OnSelectFolder (js ''docs/''))) = Browse f \<and> bf_path f = js ''docs/''
    \<and> ld_req_path (list_directory_request (directory_list_request (bf_path f) (bf_sort f) (bf_order f) [])) = js ''docs/''"
  using folder_navigation_reaches_service [OF drop_defaults_strips
      local_call_served [of "listDirectory epoch one_file_clients"] disjI2 [OF refl],
      where path = "js ''docs/''" and t = "[]" and filters = DEFAULT_BROWSE_FILTERS and w = "[]"]
  by auto

section \<open>Requests that are accepted\<close>

text \<open>
  C13. What the pages send about what they were given, the server functions accept: every page request of
  the three lists, of the folder tree, of the move dialog and of the header's search passes its validator
  unchanged; so does, for a file the server listed, its id, with which it is deleted, opened, downloaded
  and shown, and any move of it the dialog can confirm, from a table or on the file's own page; so do
  the poller's ids, and the path of a listed folder, with which its contents are counted and it is
  deleted; and so do the requests of an upload to any directory, once the file has a name and the upload
  an id, because the content type is never empty. Ids are not negative, a listed file has a name and a
  listed folder is not the root. An id that was typed into the URL of a page may of course be refused.
\<close>

theorem requests_accepted:
  assumes "file_name file \<noteq> []" and "uploadId \<noteq> []"
    and "toFileDto td info = Inr d" and "0 \<le> fi_id info" and "base_part (fi_key info) \<noteq> []"
    and "dialog_reach (fi_key info) v" and "folder \<noteq> []"
  shows "validateListFilesInput (send_ListFilesInput (file_list_request f t)) = Inr (file_list_request f t)
    \<and> validateListFilesInput (send_ListFilesInput (photo_request t)) = Inr (photo_request t)
    \<and> validateListDirectoryInput (send_ListDirectoryInput (directory_list_request p so od t)) =
        Inr (directory_list_request p so od t)
    \<and> validateListDirectoryInput (send_ListDirectoryInput (child_request p tok)) = Inr (child_request p tok)
    \<and> pred_option (\<lambda>r. validateListFilesInput (send_ListFilesInput r) = Inr r) (files_request s)
    \<and> pred_option (\<lambda>r. validateSearchDirectoriesInput (send_SearchDirectoriesInput r) = Inr r) (folders_request s)
    \<and> validateIdInput (send_id (fd_id d)) = Inr (fd_id d)
    \<and> (\<forall>r \<in> {\<lparr>mfi_id = fd_id d, mfi_destinationKey = confirmed_key (fd_key d) (mv_viewPath v)\<rparr>}.
        validateMoveFileInput (send_MoveFileInput r) = Inr r)
    \<and> (fp_moveOpen pg \<and> fp_moving pg = None \<and> md_key md = fi_key info \<longrightarrow>
        (\<exists>r. fp_moving (page_confirm_move md (mv_viewPath v) pg) = Some (mfi_destinationKey r)
          \<and> mfi_id r = fd_id d \<and> validateMoveFileInput (send_MoveFileInput r) = Inr r))
    \<and> validateIdsInput (send_ids (pendingIds pages)) = Inr (pendingIds pages)
    \<and> validatePathInput (send_path folder) = Inr folder
    \<and> validateKeyInput (send_key (dir @ file_name file)) = Inr (dir @ file_name file)
    \<and> (\<forall>r \<in> {\<lparr>cmi_key = dir @ file_name file, cmi_contentType = content_type file\<rparr>}.
        validateCreateMultipartUploadInput (send_CreateMultipartUploadInput r) = Inr r)
    \<and> (\<forall>r \<in> {\<lparr>upi_key = dir @ file_name file, upi_uploadId = uploadId, upi_partNumber = n\<rparr>}.
        validateUploadPartUrlInput (send_UploadPartUrlInput r) = Inr r)
    \<and> (\<forall>r \<in> {\<lparr>uii_key = dir @ file_name file, uii_uploadId = uploadId\<rparr>}.
        validateUploadIdInput (send_UploadIdInput r) = Inr r)"
proof -
  have d: "fd_id d = bigint_toString (fi_id info)" "fd_key d = fi_key info"
    using assms(3) toFileDto_fields [of td info d] by simp_all
  have "confirmed_key (fi_key info) (mv_viewPath v) = mv_viewPath v @ base_part (fi_key info)"
    using reachable_destination [OF assms(6)] by (simp add: destinationKey_def fileName_def base_part_def)
  then have "wf_MoveFileInput \<lparr>mfi_id = fd_id d, mfi_destinationKey = confirmed_key (fd_key d) (mv_viewPath v)\<rparr>"
    using d numeric_toString [OF assms(4)] assms(5) by (simp add: wf_MoveFileInput_def)
  moreover from this have "\<exists>r. fp_moving (page_confirm_move md (mv_viewPath v) pg) = Some (mfi_destinationKey r)
      \<and> mfi_id r = fd_id d \<and> validateMoveFileInput (send_MoveFileInput r) = Inr r"
    if "fp_moveOpen pg" "fp_moving pg = None" "md_key md = fi_key info"
    using that d by (intro exI [of _ "\<lparr>mfi_id = fd_id d, mfi_destinationKey = confirmed_key (fd_key d) (mv_viewPath v)\<rparr>"])
      (simp add: page_confirm_move_def confirmed_key_def move_input.sent_iff)
  ultimately show ?thesis
    using assms(1,2,7) d numeric_toString [OF assms(4)]
    by (auto simp: list_files.sent_iff list_directory.sent_iff search_directories.sent_iff key_input.sent_iff
        create_input.sent_iff part_input.sent_iff upload_input.sent_iff id_input.sent_iff ids_input.sent_iff
        move_input.sent_iff path_input.sent_iff wf_pageSize_def file_list_request_def
        photo_request_def directory_list_request_def child_request_def files_request_def folders_request_def
        FILE_PAGE_SIZE_def PHOTO_PAGE_SIZE_def DIRECTORY_PAGE_SIZE_def RESULT_LIMIT_def FOLDER_RESULT_LIMIT_def
        wf_CreateMultipartUploadInput_def wf_UploadPartUrlInput_def wf_UploadIdInput_def content_type_def)
qed

theorem requests_accepted_witness:
  "\<exists>d. toFileDto epoch (sample_file 7) = Inr d \<and> validateIdInput (send_id (fd_id d)) = Inr (fd_id d)
    \<and> validateKeyInput (send_key (js ''docs/'' @ js ''a.txt'')) = Inr (js ''docs/'' @ js ''a.txt'')"
proof -
  let ?f = "\<lparr>file_like = \<lparr>fl_name = js ''a.txt'', fl_size = 0, fl_lastModified = 0, fl_slice = (\<lambda>_ _. ())\<rparr>,
      file_type = [], file_body = ()\<rparr>"
  obtain d where d: "toFileDto epoch (sample_file 7) = Inr d"
    using sample_file_timestamps [of 7] toFileDto_Inr_iff [of epoch "sample_file 7"] by blast
  have "base_part (fi_key (sample_file 7)) \<noteq> []" and "0 \<le> fi_id (sample_file 7)"
    by (code_simp, simp add: sample_file_def)
  moreover have name: "file_name ?f = js ''a.txt''" by (simp add: file_name_def)
  then have "file_name ?f \<noteq> []" and u: "js ''u'' \<noteq> []" and folder: "js ''a/'' \<noteq> []"
    by (simp_all add: js_def)
  ultimately have "validateIdInput (send_id (fd_id d)) = Inr (fd_id d)"
    and "validateKeyInput (send_key (js ''docs/'' @ file_name ?f)) = Inr (js ''docs/'' @ file_name ?f)"
    using requests_accepted [OF _ u d _ _ dialog_reach.opened folder, of ?f] by blast+
  with d show ?thesis unfolding name by blast
qed

end
